(* ===== verification/XPrelude.thy ===== *)
theory XPrelude
  imports Main "HOL-Library.Word"
begin

text \<open>
  Shared vocabulary of the development: state-passing operations with an error result, the
  reasoning rules for them, and the collections of facts the component theories fill.

  An \<^emph>\<open>operation\<close> reads and writes a state \<open>'s\<close> and returns \<open>Inl e\<close> (the \<open>Err\<close> of Rust) or
  \<open>Inr a\<close> (its \<open>Ok\<close>). State changes made before an error stay, as they do in Rust: only the
  value is lost. \<open>and_then\<close> is the \<open>?\<close> operator followed by the rest of the body,
  \<open>attempt\<close> keeps a result for inspection (\<open>if let Err(e) = ...\<close>, \<open>let _ = ...\<close>), and
  \<open>steps\<close> is a block of statements each ending in \<open>?\<close>.
\<close>

section \<open>Collections\<close>

named_theorems op_simps "rules that run one operation of the model"
named_theorems keeps_rules "rules that an operation keeps a predicate of its state"
named_theorems wp_rules "equations that run an operation inside a postcondition"

type_synonym u8 = "8 word"
type_synonym u16 = "16 word"
type_synonym u32 = "32 word"
type_synonym u64 = "64 word"
type_synonym uuid = "128 word"

section \<open>Operations\<close>

type_synonym ('s, 'e, 'a) op = "'s \<Rightarrow> ('e + 'a) \<times> 's"

definition ret :: "'a \<Rightarrow> ('s, 'e, 'a) op" where
  "ret a s = (Inr a, s)"

definition raise :: "'e \<Rightarrow> ('s, 'e, 'a) op" where
  "raise e s = (Inl e, s)"

definition and_then :: "('s, 'e, 'a) op \<Rightarrow> ('a \<Rightarrow> ('s, 'e, 'b) op) \<Rightarrow> ('s, 'e, 'b) op" where
  "and_then m f s = (case m s of (Inl e, s') \<Rightarrow> (Inl e, s') | (Inr a, s') \<Rightarrow> f a s')"

definition attempt :: "('s, 'e, 'a) op \<Rightarrow> ('s, 'f, 'e + 'a) op" where
  "attempt m s = (case m s of (r, s') \<Rightarrow> (Inr r, s'))"

definition from_result :: "'e + 'a \<Rightarrow> ('s, 'e, 'a) op" where
  "from_result r s = (r, s)"

definition gets :: "('s \<Rightarrow> 'a) \<Rightarrow> ('s, 'e, 'a) op" where
  "gets f s = (Inr (f s), s)"

definition modify :: "('s \<Rightarrow> 's) \<Rightarrow> ('s, 'e, unit) op" where
  "modify f s = (Inr (), f s)"

definition map_err :: "('e \<Rightarrow> 'f) \<Rightarrow> ('s, 'e, 'a) op \<Rightarrow> ('s, 'f, 'a) op" where
  "map_err f m s = (case m s of (Inl e, s') \<Rightarrow> (Inl (f e), s') | (Inr a, s') \<Rightarrow> (Inr a, s'))"

primrec steps :: "('s, 'e, unit) op list \<Rightarrow> ('s, 'e, unit) op" where
  "steps [] = ret ()"
| "steps (m # ms) = and_then m (\<lambda>_. steps ms)"

definition ok :: "('e + 'a) \<times> 's \<Rightarrow> bool" where
  "ok p = (case fst p of Inl _ \<Rightarrow> False | Inr _ \<Rightarrow> True)"

lemmas op_defs = ret_def raise_def and_then_def attempt_def from_result_def gets_def modify_def
  map_err_def

declare ret_def [op_simps] raise_def [op_simps] from_result_def [op_simps] gets_def [op_simps]
  modify_def [op_simps]

lemma and_then_ret [simp, op_simps]: "and_then (ret a) f = f a"
  by (simp add: fun_eq_iff op_defs)

lemma and_then_raise [simp, op_simps]: "and_then (raise e) f = raise e"
  by (simp add: fun_eq_iff op_defs)

lemma and_then_modify [op_simps]: "and_then (modify g) f s = f () (g s)"
  by (simp add: op_defs)

lemma and_then_gets [op_simps]: "and_then (gets g) f s = f (g s) s"
  by (simp add: op_defs)

lemma and_then_Inr [op_simps]: "m s = (Inr a, s') \<Longrightarrow> and_then m f s = f a s'"
  by (simp add: op_defs)

lemma and_then_Inl [op_simps]: "m s = (Inl e, s') \<Longrightarrow> and_then m f s = (Inl e, s')"
  by (simp add: op_defs)

lemma and_then_assoc: "and_then (and_then m f) g = and_then m (\<lambda>a. and_then (f a) g)"
  by (auto simp: fun_eq_iff op_defs split: prod.splits sum.splits)

lemma attempt_eq [op_simps]: "m s = (r, s') \<Longrightarrow> attempt m s = (Inr r, s')"
  by (simp add: op_defs)

lemma and_then_attempt [op_simps]:
  "and_then (attempt m) f s = (case m s of (r, s') \<Rightarrow> f r s')"
  by (auto simp: op_defs split: prod.splits)

lemma ok_simps [simp]: "ok (Inr a, s)" "\<not> ok (Inl e, s)"
  by (simp_all add: ok_def)

lemma ok_iff: "ok p \<longleftrightarrow> (\<exists>a s. p = (Inr a, s))"
  by (cases p; cases "fst p") (auto simp: ok_def)

lemma and_then_InrE:
  assumes "and_then m f s = (Inr b, t)"
  obtains a s' where "m s = (Inr a, s')" and "f a s' = (Inr b, t)"
  using assms by (auto simp: and_then_def split: prod.splits sum.splits)

lemma and_then_InlE:
  assumes "and_then m f s = (Inl e, t)"
  obtains "m s = (Inl e, t)"
  | a s' where "m s = (Inr a, s')" and "f a s' = (Inl e, t)"
  using assms by (auto simp: and_then_def split: prod.splits sum.splits)

section \<open>Predicates an operation keeps\<close>

text \<open>
  \<open>keeps I m\<close>: whatever \<open>m\<close> returns, \<open>I\<close> holds of the state after it if it held before.
  The rules below decompose an operation along its combinators.
\<close>

definition keeps :: "('s \<Rightarrow> bool) \<Rightarrow> ('s, 'e, 'a) op \<Rightarrow> bool" where
  "keeps I m \<longleftrightarrow> (\<forall>s. I s \<longrightarrow> I (snd (m s)))"

lemma keepsI: "(\<And>s r s'. I s \<Longrightarrow> m s = (r, s') \<Longrightarrow> I s') \<Longrightarrow> keeps I m"
  by (metis keeps_def prod.collapse)

lemma keepsD: "keeps I m \<Longrightarrow> I s \<Longrightarrow> I (snd (m s))"
  by (simp add: keeps_def)

lemma keepsD2: "keeps I m \<Longrightarrow> I s \<Longrightarrow> m s = (r, s') \<Longrightarrow> I s'"
  by (metis keeps_def snd_conv)

lemma keeps_ret [keeps_rules]: "keeps I (ret a)"
  by (simp add: keeps_def ret_def)

lemma keeps_raise [keeps_rules]: "keeps I (raise e)"
  by (simp add: keeps_def raise_def)

lemma keeps_gets [keeps_rules]: "keeps I (gets f)"
  by (simp add: keeps_def gets_def)

lemma keeps_from_result [keeps_rules]: "keeps I (from_result r)"
  by (simp add: keeps_def from_result_def)

lemma keeps_modify [keeps_rules]: "(\<And>s. I s \<Longrightarrow> I (f s)) \<Longrightarrow> keeps I (modify f)"
  by (simp add: keeps_def modify_def)

lemma keeps_and_then [keeps_rules]:
  "keeps I m \<Longrightarrow> (\<And>a. keeps I (f a)) \<Longrightarrow> keeps I (and_then m f)"
  by (auto simp: keeps_def and_then_def split: prod.splits sum.splits)

lemma keeps_attempt [keeps_rules]: "keeps I m \<Longrightarrow> keeps I (attempt m)"
  by (auto simp: keeps_def attempt_def split: prod.splits)

lemma keeps_map_err [keeps_rules]: "keeps I m \<Longrightarrow> keeps I (map_err f m)"
  by (auto simp: keeps_def map_err_def split: prod.splits sum.splits)

lemma keeps_steps [keeps_rules]: "(\<And>m. m \<in> set ms \<Longrightarrow> keeps I m) \<Longrightarrow> keeps I (steps ms)"
  by (induction ms) (simp_all add: keeps_rules)

lemma keeps_if [keeps_rules]: "keeps I m \<Longrightarrow> keeps I n \<Longrightarrow> keeps I (if b then m else n)"
  by simp

lemma keeps_conj: "keeps I m \<Longrightarrow> keeps J m \<Longrightarrow> keeps (\<lambda>s. I s \<and> J s) m"
  by (simp add: keeps_def)

section \<open>Postconditions\<close>

text \<open>
  \<open>wp m Q s\<close>: run from \<open>s\<close>, the result and the final state of \<open>m\<close> satisfy \<open>Q\<close>. The rules of
  \<open>wp_rules\<close> are equations, so that the simplifier runs an operation symbolically: it only
  stops at the operations that are parameters of the model.
\<close>

definition wp :: "('s, 'e, 'a) op \<Rightarrow> ('e + 'a \<Rightarrow> 's \<Rightarrow> bool) \<Rightarrow> 's \<Rightarrow> bool" where
  "wp m Q s \<longleftrightarrow> (case m s of (r, s') \<Rightarrow> Q r s')"

lemma wpI: "(\<And>r s'. m s = (r, s') \<Longrightarrow> Q r s') \<Longrightarrow> wp m Q s"
  by (simp add: wp_def split: prod.splits)

lemma wpD: "wp m Q s \<Longrightarrow> m s = (r, s') \<Longrightarrow> Q r s'"
  by (simp add: wp_def)

lemma wp_mono: "wp m Q s \<Longrightarrow> (\<And>r s'. Q r s' \<Longrightarrow> Q' r s') \<Longrightarrow> wp m Q' s"
  by (auto simp: wp_def split: prod.splits)

lemma wp_ret [wp_rules]: "wp (ret a) Q s = Q (Inr a) s"
  by (simp add: wp_def ret_def)

lemma wp_raise [wp_rules]: "wp (raise e) Q s = Q (Inl e) s"
  by (simp add: wp_def raise_def)

lemma wp_from_result [wp_rules]: "wp (from_result r) Q s = Q r s"
  by (simp add: wp_def from_result_def)

lemma wp_gets [wp_rules]: "wp (gets f) Q s = Q (Inr (f s)) s"
  by (simp add: wp_def gets_def)

lemma wp_modify [wp_rules]: "wp (modify f) Q s = Q (Inr ()) (f s)"
  by (simp add: wp_def modify_def)

lemma wp_attempt [wp_rules]: "wp (attempt m) Q = wp m (\<lambda>r. Q (Inr r))"
  by (simp add: fun_eq_iff wp_def attempt_def split: prod.splits)

lemma wp_map_err [wp_rules]:
  "wp (map_err f m) Q = wp m (\<lambda>r. case r of Inl e \<Rightarrow> Q (Inl (f e)) | Inr a \<Rightarrow> Q (Inr a))"
  by (simp add: fun_eq_iff wp_def map_err_def split: prod.splits sum.splits)

lemma wp_and_then [wp_rules]:
  "wp (and_then m f) Q = wp m (\<lambda>r. case r of Inl e \<Rightarrow> Q (Inl e) | Inr a \<Rightarrow> wp (f a) Q)"
  by (auto simp: fun_eq_iff wp_def and_then_def split: prod.splits sum.splits)

lemma wp_ret_raise_eta [wp_rules]:
  "wp (ret a) Q = Q (Inr a)" "wp (raise e) Q = Q (Inl e)" "wp (from_result r) Q = Q r"
  by (simp_all add: fun_eq_iff wp_rules)

lemma wp_if [wp_rules]: "wp (if b then m else n) Q s = (if b then wp m Q s else wp n Q s)"
  by simp

section \<open>Small facts shared by the components\<close>

lemma if_Inl_eq_Inr [simp]: "(if b then Inl e else r) = Inr a \<longleftrightarrow> \<not> b \<and> r = Inr a"
  by auto

lemma list_ex_filter: "list_ex P (filter Q xs) \<longleftrightarrow> list_ex (\<lambda>x. Q x \<and> P x) xs"
  by (induction xs) auto

lemma map_of_filter_None: "map_of xs k = None \<Longrightarrow> map_of (filter P xs) k = None"
  by (induction xs) (auto split: if_splits)

lemma map_of_filter_key:
  assumes "distinct (map fst xs)"
  shows "map_of (filter (\<lambda>(k, v). P k v) xs) k =
    (case map_of xs k of None \<Rightarrow> None | Some v \<Rightarrow> if P k v then Some v else None)"
  using assms
proof (induction xs)
  case (Cons x xs)
  then have "fst x = k \<Longrightarrow> map_of xs k = None"
    by (auto simp: map_of_eq_None_iff)
  with Cons show ?case
    by (cases x) (auto simp: map_of_filter_None split: option.splits)
qed simp

end
