(* ===== verification/RustStr.thy ===== *)
theory RustStr
  imports XPrelude "HOL-Library.Sublist" "HOL-Library.Char_ord"
begin

text \<open>
  The string routines of the Rust standard library the program calls. A Rust \<open>str\<close> is its
  UTF-8 byte sequence, a \<open>string\<close> here (HOL's \<open>char\<close> is one byte), so \<open>length\<close> is Rust's
  \<open>len()\<close>. The general lemmas the components need about splitting, joining, trimming and
  decimal numbers follow the definitions.
\<close>

section \<open>Bytes\<close>

abbreviation byte :: "char \<Rightarrow> nat" where
  "byte c \<equiv> of_char c"

definition newline :: char where "newline = CHR 0x0A"
definition carriage_return :: char where "carriage_return = CHR 0x0D"

definition is_ascii_digit :: "char \<Rightarrow> bool" where
  "is_ascii_digit c \<longleftrightarrow> 48 \<le> byte c \<and> byte c \<le> 57"

definition is_ascii_upper :: "char \<Rightarrow> bool" where
  "is_ascii_upper c \<longleftrightarrow> 65 \<le> byte c \<and> byte c \<le> 90"

definition is_ascii_lower :: "char \<Rightarrow> bool" where
  "is_ascii_lower c \<longleftrightarrow> 97 \<le> byte c \<and> byte c \<le> 122"

definition is_ascii_alphanumeric :: "char \<Rightarrow> bool" where
  "is_ascii_alphanumeric c \<longleftrightarrow> is_ascii_digit c \<or> is_ascii_upper c \<or> is_ascii_lower c"

definition is_ascii_graphic :: "char \<Rightarrow> bool" where
  "is_ascii_graphic c \<longleftrightarrow> 33 \<le> byte c \<and> byte c \<le> 126"

definition ascii_lower :: "char \<Rightarrow> char" where
  "ascii_lower c = (if is_ascii_upper c then char_of (byte c + 32) else c)"

definition to_ascii_lowercase :: "string \<Rightarrow> string" where
  "to_ascii_lowercase = map ascii_lower"

definition eq_ignore_ascii_case :: "string \<Rightarrow> string \<Rightarrow> bool" where
  "eq_ignore_ascii_case a b \<longleftrightarrow> to_ascii_lowercase a = to_ascii_lowercase b"

text \<open>\<open>chars().count()\<close>: every byte of a UTF-8 text but the continuation bytes starts a character.\<close>

definition chars_count :: "string \<Rightarrow> nat" where
  "chars_count s = length (filter (\<lambda>c. \<not> (128 \<le> byte c \<and> byte c < 192)) s)"

section \<open>Trimming\<close>

text \<open>The byte sequences of the characters with the Unicode property White\_Space.\<close>

definition white_space :: "string list" where
  "white_space = [[CHR 0x20], [CHR 0x09], [CHR 0x0A], [CHR 0x0B], [CHR 0x0C], [CHR 0x0D],
     [CHR 0xC2, CHR 0x85], [CHR 0xC2, CHR 0xA0], [CHR 0xE1, CHR 0x9A, CHR 0x80],
     [CHR 0xE2, CHR 0x80, CHR 0x80], [CHR 0xE2, CHR 0x80, CHR 0x81],
     [CHR 0xE2, CHR 0x80, CHR 0x82], [CHR 0xE2, CHR 0x80, CHR 0x83],
     [CHR 0xE2, CHR 0x80, CHR 0x84], [CHR 0xE2, CHR 0x80, CHR 0x85],
     [CHR 0xE2, CHR 0x80, CHR 0x86], [CHR 0xE2, CHR 0x80, CHR 0x87],
     [CHR 0xE2, CHR 0x80, CHR 0x88], [CHR 0xE2, CHR 0x80, CHR 0x89],
     [CHR 0xE2, CHR 0x80, CHR 0x8A], [CHR 0xE2, CHR 0x80, CHR 0xA8],
     [CHR 0xE2, CHR 0x80, CHR 0xA9], [CHR 0xE2, CHR 0x80, CHR 0xAF],
     [CHR 0xE2, CHR 0x81, CHR 0x9F], [CHR 0xE3, CHR 0x80, CHR 0x80]]"

definition leading :: "string list \<Rightarrow> string \<Rightarrow> string option" where
  "leading ws s = find (\<lambda>w. w \<noteq> [] \<and> take (length w) s = w) ws"

lemma leading_Some:
  "leading ws s = Some w \<Longrightarrow> w \<in> set ws \<and> w \<noteq> [] \<and> s = w @ drop (length w) s"
  unfolding leading_def by (auto simp: find_Some_iff) (metis append_take_drop_id)

lemma leading_shorter: "leading ws s = Some w \<Longrightarrow> length (drop (length w) s) < length s"
  using leading_Some [of ws s w] by (cases s; cases w) auto

function strip_leading :: "string list \<Rightarrow> string \<Rightarrow> string" where
  "strip_leading ws s =
     (case leading ws s of None \<Rightarrow> s | Some w \<Rightarrow> strip_leading ws (drop (length w) s))"
  by pat_completeness auto
termination
by (relation "measure (length \<circ> snd)") (auto dest: leading_shorter)

declare strip_leading.simps [simp del]

definition trim_start :: "string \<Rightarrow> string" where
  "trim_start s = strip_leading white_space s"

definition trim_end :: "string \<Rightarrow> string" where
  "trim_end s = rev (strip_leading (map rev white_space) (rev s))"

definition trim :: "string \<Rightarrow> string" where
  "trim s = trim_end (trim_start s)"

definition trim_start_matches :: "char \<Rightarrow> string \<Rightarrow> string" where
  "trim_start_matches c s = dropWhile (\<lambda>x. x = c) s"

definition trim_end_matches :: "char \<Rightarrow> string \<Rightarrow> string" where
  "trim_end_matches c s = rev (dropWhile (\<lambda>x. x = c) (rev s))"

section \<open>Splitting and joining\<close>

fun split_on :: "char \<Rightarrow> string \<Rightarrow> string list" where
  "split_on c [] = [[]]"
| "split_on c (x # xs) =
     (if x = c then [] # split_on c xs
      else (case split_on c xs of [] \<Rightarrow> [[x]] | y # ys \<Rightarrow> (x # y) # ys))"

fun join :: "string \<Rightarrow> string list \<Rightarrow> string" where
  "join sep [] = []"
| "join sep [x] = x"
| "join sep (x # y # ys) = x @ sep @ join sep (y # ys)"

fun split_once :: "char \<Rightarrow> string \<Rightarrow> (string \<times> string) option" where
  "split_once c [] = None"
| "split_once c (x # xs) =
     (if x = c then Some ([], xs)
      else (case split_once c xs of None \<Rightarrow> None | Some (a, b) \<Rightarrow> Some (x # a, b)))"

definition rsplit_once :: "char \<Rightarrow> string \<Rightarrow> (string \<times> string) option" where
  "rsplit_once c s =
     (case split_once c (rev s) of None \<Rightarrow> None | Some (a, b) \<Rightarrow> Some (rev b, rev a))"

definition strip_cr :: "string \<Rightarrow> string" where
  "strip_cr s = (if s \<noteq> [] \<and> last s = carriage_return then butlast s else s)"

text \<open>\<open>str::lines\<close> and \<open>BufRead::lines\<close>: a line ends at \<open>\n\<close> or \<open>\r\n\<close>, and no empty last line.\<close>

definition rust_lines :: "string \<Rightarrow> string list" where
  "rust_lines s = (let ps = split_on newline s
     in map strip_cr (butlast ps) @ (if last ps = [] then [] else [last ps]))"

definition strip_prefix_char :: "char \<Rightarrow> string \<Rightarrow> string option" where
  "strip_prefix_char c s = (case s of [] \<Rightarrow> None | x # xs \<Rightarrow> if x = c then Some xs else None)"

definition strip_suffix_char :: "char \<Rightarrow> string \<Rightarrow> string option" where
  "strip_suffix_char c s = (if s \<noteq> [] \<and> last s = c then Some (butlast s) else None)"

text \<open>\<open>split_whitespace\<close>: the maximal runs without White\_Space.\<close>

function words_acc :: "string \<Rightarrow> string \<Rightarrow> string list" where
  "words_acc acc [] = (if acc = [] then [] else [rev acc])"
| "words_acc acc (x # xs) =
     (case leading white_space (x # xs) of
        None \<Rightarrow> words_acc (x # acc) xs
      | Some w \<Rightarrow> (if acc = [] then [] else [rev acc]) @
          words_acc [] (drop (length w) (x # xs)))"
  by pat_completeness auto
termination
by (relation "measure (length \<circ> snd)") (auto dest: leading_shorter)

definition split_whitespace :: "string \<Rightarrow> string list" where
  "split_whitespace s = words_acc [] s"

section \<open>Numbers\<close>

definition digit_value :: "char \<Rightarrow> nat option" where
  "digit_value c = (if is_ascii_digit c then Some (byte c - 48) else None)"

definition hex_value :: "char \<Rightarrow> nat option" where
  "hex_value c =
     (if is_ascii_digit c then Some (byte c - 48)
      else if 97 \<le> byte c \<and> byte c \<le> 102 then Some (byte c - 87)
      else if 65 \<le> byte c \<and> byte c \<le> 70 then Some (byte c - 55)
      else None)"

fun digits_value :: "nat \<Rightarrow> string \<Rightarrow> nat option" where
  "digits_value acc [] = Some acc"
| "digits_value acc (c # cs) =
     (case digit_value c of None \<Rightarrow> None | Some d \<Rightarrow> digits_value (10 * acc + d) cs)"

text \<open>
  \<open>str::parse\<close> at an unsigned integer type with the given greatest value: an optional \<open>+\<close>, then
  decimal digits; an empty digit string, any other byte and overflow are errors.
\<close>

definition parse_uint :: "nat \<Rightarrow> string \<Rightarrow> nat option" where
  "parse_uint limit s =
     (let ds = (case s of c # cs \<Rightarrow> if c = CHR ''+'' then cs else s | [] \<Rightarrow> [])
      in if ds = [] then None
         else (case digits_value 0 ds of
                 None \<Rightarrow> None
               | Some n \<Rightarrow> if n \<le> limit then Some n else None))"

definition show_digit :: "nat \<Rightarrow> char" where
  "show_digit d = char_of (48 + d)"

fun show_nat :: "nat \<Rightarrow> string" where
  "show_nat n = (if n < 10 then [show_digit n] else show_nat (n div 10) @ [show_digit (n mod 10)])"

declare show_nat.simps [simp del]

definition show_hex_digit :: "nat \<Rightarrow> char" where
  "show_hex_digit d = (if d < 10 then char_of (48 + d) else char_of (87 + d))"

fun show_hex :: "nat \<Rightarrow> string" where
  "show_hex n =
     (if n < 16 then [show_hex_digit n] else show_hex (n div 16) @ [show_hex_digit (n mod 16)])"

declare show_hex.simps [simp del]

section \<open>Facts\<close>

lemma split_on_ne [simp]: "split_on c s \<noteq> []"
  by (induction s) (auto split: list.splits)

lemma join_Cons: "xs \<noteq> [] \<Longrightarrow> join sep (x # xs) = x @ sep @ join sep xs"
  by (cases xs) auto

lemma join_split_on [simp]: "join [c] (split_on c s) = s"
proof (induction s)
  case (Cons x s)
  then show ?case
    by (cases "split_on c s") (auto simp: join_Cons, metis append_Cons join.simps(2) join_Cons)
qed simp

lemma split_on_parts: "p \<in> set (split_on c s) \<Longrightarrow> c \<notin> set p"
  by (induction s arbitrary: p) (auto split: list.splits if_splits)

lemma split_on_no_sep: "c \<notin> set s \<Longrightarrow> split_on c s = [s]"
  by (induction s) auto

lemma split_on_append_sep: "c \<notin> set a \<Longrightarrow> split_on c (a @ c # b) = a # split_on c b"
  by (induction a) auto

lemma split_on_all:
  "(\<forall>p \<in> set (split_on c s). \<forall>x \<in> set p. Q x) \<longleftrightarrow> (\<forall>x \<in> set s. x = c \<or> Q x)"
proof (induction s)
  case (Cons y s)
  then show ?case by (cases "split_on c s") auto
qed simp

lemma split_once_append: "c \<notin> set a \<Longrightarrow> split_once c (a @ c # b) = Some (a, b)"
  by (induction a) auto

lemma rsplit_once_append: "c \<notin> set b \<Longrightarrow> rsplit_once c (a @ c # b) = Some (a, b)"
  by (simp add: rsplit_once_def split_once_append)

lemma split_on_join:
  assumes "ps \<noteq> []" and "\<forall>p \<in> set ps. c \<notin> set p"
  shows "split_on c (join [c] ps) = ps"
  using assms
proof (induction ps)
  case (Cons p ps)
  then show ?case
    by (cases "ps = []") (auto simp: join_Cons split_on_no_sep split_on_append_sep)
qed simp

lemma append_sep_eq:
  assumes "c \<notin> set x"
  shows "x @ c # j = p @ c # d \<longleftrightarrow> (p = x \<and> d = j) \<or> (\<exists>q. p = x @ c # q \<and> j = q @ c # d)"
  using assms
proof (induction x arbitrary: p)
  case Nil
  then show ?case by (cases p) auto
next
  case (Cons a x)
  then show ?case by (cases p) auto
qed

lemma join_drop_suffixes:
  assumes "ps \<noteq> []" and "\<forall>p \<in> set ps. c \<notin> set p"
  shows "(\<exists>i < length ps. d = join [c] (drop i ps)) \<longleftrightarrow>
    d = join [c] ps \<or> (\<exists>q. join [c] ps = q @ c # d)"
  using assms
proof (induction ps)
  case (Cons p ps)
  show ?case
  proof (cases "ps = []")
    case True
    with Cons.prems show ?thesis by auto
  next
    case False
    have split: "(\<exists>i < length (p # ps). d = join [c] (drop i (p # ps))) \<longleftrightarrow>
        d = join [c] (p # ps) \<or> (\<exists>i < length ps. d = join [c] (drop i ps))"
      by (auto simp: less_Suc_eq_0_disj)
    from False Cons have "(\<exists>i < length ps. d = join [c] (drop i ps)) \<longleftrightarrow>
        d = join [c] ps \<or> (\<exists>q. join [c] ps = q @ c # d)" by simp
    moreover from Cons.prems have "c \<notin> set p" by simp
    ultimately show ?thesis
      unfolding split using False by (auto simp: join_Cons append_sep_eq)
  qed
qed simp

lemma split_on_suffixes:
  "(\<exists>i < length (split_on c s). d = join [c] (drop i (split_on c s))) \<longleftrightarrow>
     d = s \<or> (\<exists>q. s = q @ c # d)"
  using join_drop_suffixes [of "split_on c s" c d] by (auto dest: split_on_parts)

lemma ascii_lower_idem [simp]: "ascii_lower (ascii_lower c) = ascii_lower c"
  by (auto simp: ascii_lower_def is_ascii_upper_def)

lemma to_ascii_lowercase_idem [simp]: "to_ascii_lowercase (to_ascii_lowercase s) = to_ascii_lowercase s"
  by (simp add: to_ascii_lowercase_def)

lemma length_to_ascii_lowercase [simp]: "length (to_ascii_lowercase s) = length s"
  by (simp add: to_ascii_lowercase_def)

lemma digit_value_show [simp]: "d < 10 \<Longrightarrow> digit_value (show_digit d) = Some d"
  by (simp add: digit_value_def show_digit_def is_ascii_digit_def)

lemma show_nat_ne [simp]: "show_nat n \<noteq> []"
  by (subst show_nat.simps) simp

lemma digits_value_append:
  "digits_value acc (xs @ ys) =
     (case digits_value acc xs of None \<Rightarrow> None | Some a \<Rightarrow> digits_value a ys)"
  by (induction xs arbitrary: acc) (auto split: option.splits)

lemma digits_value_show_nat [simp]: "digits_value 0 (show_nat n) = Some n"
proof (induction n rule: show_nat.induct)
  case (1 n)
  then show ?case
    by (subst show_nat.simps) (simp add: digits_value_append)
qed

lemma show_nat_digits: "c \<in> set (show_nat n) \<Longrightarrow> is_ascii_digit c"
proof (induction n rule: show_nat.induct)
  case (1 n)
  have d: "is_ascii_digit (show_digit k)" if "k < 10" for k
    using that by (simp add: is_ascii_digit_def show_digit_def)
  from 1 show ?case
    by (subst (asm) show_nat.simps) (auto simp: d split: if_splits)
qed

lemma parse_show_nat [simp]: "n \<le> limit \<Longrightarrow> parse_uint limit (show_nat n) = Some n"
proof -
  assume le: "n \<le> limit"
  obtain c cs where s: "show_nat n = c # cs" by (cases "show_nat n") auto
  then have "is_ascii_digit c" using show_nat_digits [of c n] by simp
  then have "c \<noteq> CHR ''+''" by (auto simp: is_ascii_digit_def)
  with s le have "parse_uint limit (show_nat n) =
      (case digits_value 0 (show_nat n) of None \<Rightarrow> None | Some n \<Rightarrow> if n \<le> limit then Some n else None)"
    by (simp add: parse_uint_def)
  with le show ?thesis by simp
qed

lemma show_nat_inj: "show_nat a = show_nat b \<longleftrightarrow> a = b"
  by (metis digits_value_show_nat option.inject)

text \<open>What \<open>simp\<close> needs to evaluate these routines on a literal.\<close>

lemmas str_eval = trim_def trim_start_def trim_end_def leading_def white_space_def
  strip_leading.simps split_whitespace_def to_ascii_lowercase_def ascii_lower_def
  is_ascii_upper_def is_ascii_lower_def is_ascii_digit_def is_ascii_alphanumeric_def
  is_ascii_graphic_def trim_start_matches_def trim_end_matches_def rsplit_once_def
  strip_prefix_char_def strip_suffix_char_def rust_lines_def strip_cr_def newline_def
  carriage_return_def parse_uint_def digit_value_def hex_value_def show_nat.simps
  show_digit_def show_hex.simps show_hex_digit_def eq_ignore_ascii_case_def char_of_def bit_Suc_0_iff

end
