(* ===== verification/AppError.thy ===== *)
theory AppError
  imports XPrelude
begin

text \<open>
  \<open>src/error.rs\<close>: the error values every layer of the control plane returns, their texts and
  the HTTP status and stable code the API answers with.
\<close>

datatype app_error =
    Unauthorized
  | InvalidCsrf
  | InvalidPairing
  | LeaseConflict
  | SessionNotActive
  | InvalidTransition
  | NotFound
  | NavigationBlocked
  | InvalidRequest string
  | ServiceUnavailable string
  | DependencyFailure string
  | EncoderFailure string
  | SignalingFailure string
  | LeakTestFailure string
  | Internal

type_synonym 'a res = "app_error + 'a"

text \<open>The \<open>Display\<close> texts of the \<open>thiserror\<close> attributes.\<close>

fun error_text :: "app_error \<Rightarrow> string" where
  "error_text Unauthorized = ''authentication required''"
| "error_text InvalidCsrf = ''invalid or expired CSRF token''"
| "error_text InvalidPairing = ''pairing secret is invalid or has already been used''"
| "error_text LeaseConflict = ''control lease is held by another client''"
| "error_text SessionNotActive = ''session is not active''"
| "error_text InvalidTransition = ''session transition is not allowed from the current state''"
| "error_text NotFound = ''resource not found''"
| "error_text NavigationBlocked = ''navigation blocked by the active session policy''"
| "error_text (InvalidRequest m) = ''invalid request: '' @ m"
| "error_text (ServiceUnavailable m) = ''service unavailable: '' @ m"
| "error_text (DependencyFailure m) = ''dependency unavailable: '' @ m"
| "error_text (EncoderFailure m) = ''encoder unavailable: '' @ m"
| "error_text (SignalingFailure m) = ''signaling unavailable: '' @ m"
| "error_text (LeakTestFailure m) = ''egress leak test failed: '' @ m"
| "error_text Internal = ''internal error''"

text \<open>The HTTP status codes the table uses, by number.\<close>

fun status_and_code :: "app_error \<Rightarrow> nat \<times> string" where
  "status_and_code Unauthorized = (401, ''AUTH_REQUIRED'')"
| "status_and_code InvalidCsrf = (403, ''CSRF_INVALID'')"
| "status_and_code InvalidPairing = (401, ''PAIRING_INVALID'')"
| "status_and_code LeaseConflict = (409, ''LEASE_CONFLICT'')"
| "status_and_code SessionNotActive = (409, ''SESSION_INACTIVE'')"
| "status_and_code InvalidTransition = (409, ''SESSION_TRANSITION_INVALID'')"
| "status_and_code NotFound = (404, ''NOT_FOUND'')"
| "status_and_code NavigationBlocked = (403, ''NAVIGATION_BLOCKED'')"
| "status_and_code (InvalidRequest _) = (400, ''REQUEST_INVALID'')"
| "status_and_code (ServiceUnavailable _) = (503, ''SERVICE_UNAVAILABLE'')"
| "status_and_code (DependencyFailure _) = (503, ''DEPENDENCY_UNAVAILABLE'')"
| "status_and_code (EncoderFailure _) = (503, ''ENCODER_UNAVAILABLE'')"
| "status_and_code (SignalingFailure _) = (502, ''SIGNALING_UNAVAILABLE'')"
| "status_and_code (LeakTestFailure _) = (502, ''LEAK_TEST_FAILED'')"
| "status_and_code Internal = (500, ''INTERNAL_ERROR'')"

text \<open>\<open>IntoResponse for AppError\<close>: the status and the JSON body's two fields.\<close>

record error_response =
  resp_status :: nat
  resp_code :: string
  resp_message :: string

definition into_response :: "app_error \<Rightarrow> error_response" where
  "into_response e = (case status_and_code e of (status, code) \<Rightarrow>
     \<lparr>resp_status = status, resp_code = code, resp_message = error_text e\<rparr>)"

text \<open>A client can read the error back from the code and the message.\<close>

lemma status_range: "400 \<le> fst (status_and_code e) \<and> fst (status_and_code e) < 600"
  by (cases e) auto

lemma into_response_inj: "into_response e = into_response e' \<Longrightarrow> e = e'"
  by (cases e; cases e') (simp_all add: into_response_def)

end
