(* ===== verification/Model.thy ===== *)
theory Model
  imports RustStr AppError
begin

text \<open>
  \<open>src/model.rs\<close>: the values the control plane, its helpers and its API exchange. A URL is
  the third-party \<open>url::Url\<close>; the model keeps what the program reads of one.
\<close>

record url =
  url_str :: string
  url_scheme :: string
  url_host_str :: "string option"
  url_port_or_known_default :: "u16 option"
  url_path :: string
  url_query :: "string option"
  url_fragment :: "string option"
  url_username :: string
  url_password :: "string option"
  url_origin :: string

datatype session_phase = Idle | Starting | Active | Burning | Failed

datatype egress_mode = Direct | Tor | Warp | WireGuard | Proxy

fun egress_mode_display :: "egress_mode \<Rightarrow> string" where
  "egress_mode_display Direct = ''direct''"
| "egress_mode_display Tor = ''tor''"
| "egress_mode_display Warp = ''warp''"
| "egress_mode_display WireGuard = ''wireguard''"
| "egress_mode_display Proxy = ''proxy''"

definition egress_mode_from_str :: "string \<Rightarrow> string + egress_mode" where
  "egress_mode_from_str value =
     (let v = to_ascii_lowercase value
      in if v = ''direct'' then Inr Direct
         else if v = ''tor'' then Inr Tor
         else if v = ''warp'' then Inr Warp
         else if v = ''wireguard'' \<or> v = ''wg'' then Inr WireGuard
         else if v = ''proxy'' then Inr Proxy
         else Inl (''unsupported egress mode: '' @ v))"

datatype stream_profile = FullHd30 | Hd15 | Sd10

fun dimensions :: "stream_profile \<Rightarrow> u16 \<times> u16 \<times> u8" where
  "dimensions FullHd30 = (1920, 1080, 30)"
| "dimensions Hd15 = (1280, 720, 15)"
| "dimensions Sd10 = (854, 480, 10)"

fun stream_profile_display :: "stream_profile \<Rightarrow> string" where
  "stream_profile_display FullHd30 = ''1080p30''"
| "stream_profile_display Hd15 = ''720p15''"
| "stream_profile_display Sd10 = ''480p10''"

text \<open>Times are nanoseconds: an \<open>Instant\<close> or a UTC time stamp is a \<open>nat\<close>.\<close>

record session_snapshot =
  sn_id :: "uuid option"
  sn_phase :: session_phase
  sn_url :: "url option"
  sn_title :: "string option"
  sn_egress :: egress_mode
  sn_stream_profile :: stream_profile
  sn_blocklist_enabled :: bool
  sn_auto_burn_seconds :: u64
  sn_controller_attached :: bool
  sn_started_at :: "nat option"
  sn_failure :: "string option"

definition snapshot_default :: session_snapshot where
  "snapshot_default = \<lparr>sn_id = None, sn_phase = Idle, sn_url = None, sn_title = None,
     sn_egress = Direct, sn_stream_profile = FullHd30, sn_blocklist_enabled = True,
     sn_auto_burn_seconds = 1800, sn_controller_attached = False, sn_started_at = None,
     sn_failure = None\<rparr>"

datatype navigation_command = Navigate url | Back | Forward | Reload | Stop

text \<open>Every mode's displayed name parses back to it, in any letter case.\<close>

lemma egress_mode_lowercase [simp]:
  "to_ascii_lowercase (egress_mode_display m) = egress_mode_display m"
  by (cases m) (simp_all add: str_eval)

lemma egress_mode_roundtrip:
  "eq_ignore_ascii_case s (egress_mode_display m) \<Longrightarrow> egress_mode_from_str s = Inr m"
proof -
  assume "eq_ignore_ascii_case s (egress_mode_display m)"
  then have "to_ascii_lowercase s = egress_mode_display m"
    by (simp add: eq_ignore_ascii_case_def)
  then show ?thesis by (cases m) (simp_all add: egress_mode_from_str_def)
qed

lemma egress_mode_from_str_sound:
  "egress_mode_from_str s = Inr m \<Longrightarrow>
     to_ascii_lowercase s = egress_mode_display m \<or> (m = WireGuard \<and> to_ascii_lowercase s = ''wg'')"
  by (auto simp: egress_mode_from_str_def Let_def split: if_splits)

end
