(* ===== verification/Machine.thy ===== *)
theory Machine
  imports RustStr
begin

text \<open>
  The machine the daemon runs on, as far as the Rust standard library and the third-party
  crates show it: the monotonic clock, the UTC clock, the random sources, the file system, and
  (as a type parameter) whatever the helper processes hold.

  Paths are Rust \<open>Path\<close> values. The file system is an association list from a path's component
  list to a node. A path of the model is taken after the kernel has resolved symbolic links in
  its parents, so a link only shows as the last component. Every call can fail with an error
  text chosen by \<open>m_fault\<close>, whose value is part of the machine and so arbitrary in every
  theorem; a failed call leaves the file system as it was.
\<close>

section \<open>Paths\<close>

type_synonym path = string

datatype path_component = RootDir | CurDir | ParentDir | Normal string

definition is_absolute :: "path \<Rightarrow> bool" where
  "is_absolute p = (case p of [] \<Rightarrow> False | c # _ \<Rightarrow> c = CHR ''/'')"

fun body_component :: "string \<Rightarrow> path_component option" where
  "body_component s =
     (if s = [] \<or> s = ''.'' then None else if s = ''..'' then Some ParentDir else Some (Normal s))"

text \<open>
  \<open>Path::components\<close>: repeated separators and inner \<open>.\<close> components disappear; a leading \<open>.\<close> of a
  relative path stays.
\<close>

definition components :: "path \<Rightarrow> path_component list" where
  "components p =
     (let parts = split_on CHR ''/'' p; body = List.map_filter body_component parts
      in if is_absolute p then RootDir # body
         else if hd parts = ''.'' then CurDir # body
         else body)"

definition parent_of :: "path_component list \<Rightarrow> path_component list option" where
  "parent_of cs = (case rev cs of [] \<Rightarrow> None | RootDir # _ \<Rightarrow> None | _ # rest \<Rightarrow> Some (rev rest))"

definition parent_components :: "path \<Rightarrow> path_component list option" where
  "parent_components p = parent_of (components p)"

text \<open>\<open>Path::join\<close> of a relative name, and a path's text.\<close>

definition join_path :: "path_component list \<Rightarrow> string \<Rightarrow> path_component list" where
  "join_path cs name = (if is_absolute name then components name else cs @ components name)"

fun component_text :: "path_component \<Rightarrow> string" where
  "component_text RootDir = []"
| "component_text CurDir = ''.''"
| "component_text ParentDir = ''..''"
| "component_text (Normal s) = s"

definition path_text :: "path_component list \<Rightarrow> string" where
  "path_text cs = (if cs = [RootDir] then ''/'' else join ''/'' (map component_text cs))"

text \<open>\<open>Path::with_extension\<close> on the last component: the text after its last inner dot changes.\<close>

definition file_stem :: "string \<Rightarrow> string" where
  "file_stem name =
     (case rsplit_once CHR ''.'' name of None \<Rightarrow> name
      | Some (stem, _) \<Rightarrow> if stem = [] then name else stem)"

definition with_extension :: "string \<Rightarrow> path_component list \<Rightarrow> path_component list" where
  "with_extension ext cs =
     (case rev cs of Normal name # rest \<Rightarrow> rev (Normal (file_stem name @ ''.'' @ ext) # rest)
      | _ \<Rightarrow> cs)"

section \<open>The file system\<close>

datatype fnode = FileNode string | DirNode | LinkNode "path_component list"

type_synonym fs = "(path_component list \<times> fnode) list"

datatype fs_call =
    CreateDirAll "path_component list"
  | SymlinkMetadata "path_component list"
  | Metadata "path_component list"
  | OpenRead "path_component list"
  | ReadAll "path_component list"
  | MapFile "path_component list"
  | ReadDir "path_component list"
  | EntryType "path_component list"
  | RemoveDirAll "path_component list"
  | RemoveFile "path_component list"
  | OpenTruncate "path_component list"
  | WriteAll "path_component list"
  | SyncAll "path_component list"
  | Rename "path_component list" "path_component list"
  | BindSocket "path_component list"
  | SetPermissions "path_component list"

record 'b machine =
  m_instant :: nat
  m_utc :: nat
  m_random :: "nat \<Rightarrow> u8 list option"
  m_draws :: nat
  m_uuid :: "nat \<Rightarrow> uuid"
  m_uuids :: nat
  m_fs :: fs
  m_fault :: "fs_call \<Rightarrow> string option"
  m_helpers :: 'b

definition fs_node :: "fs \<Rightarrow> path_component list \<Rightarrow> fnode option" where
  "fs_node f p = map_of f p"

definition fs_put :: "path_component list \<Rightarrow> fnode \<Rightarrow> fs \<Rightarrow> fs" where
  "fs_put p n f = (p, n) # filter (\<lambda>(q, _). q \<noteq> p) f"

definition fs_remove :: "path_component list \<Rightarrow> fs \<Rightarrow> fs" where
  "fs_remove p f = filter (\<lambda>(q, _). q \<noteq> p) f"

definition below :: "path_component list \<Rightarrow> path_component list \<Rightarrow> bool" where
  "below p q \<longleftrightarrow> strict_prefix p q"

definition fs_remove_tree :: "path_component list \<Rightarrow> fs \<Rightarrow> fs" where
  "fs_remove_tree p f = filter (\<lambda>(q, _). \<not> prefix p q) f"

definition fs_children :: "fs \<Rightarrow> path_component list \<Rightarrow> path_component list list" where
  "fs_children f p = remdups (map fst (filter (\<lambda>(q, _). q \<noteq> [] \<and> butlast q = p) f))"

definition is_dir_node :: "fs \<Rightarrow> path_component list \<Rightarrow> bool" where
  "is_dir_node f p = (case fs_node f p of Some DirNode \<Rightarrow> True
     | Some (LinkNode t) \<Rightarrow> fs_node f t = Some DirNode | _ \<Rightarrow> False)"

section \<open>Calls\<close>

definition faultable ::
  "fs_call \<Rightarrow> ('b machine, string, 'a) op \<Rightarrow> ('b machine, string, 'a) op" where
  "faultable c m s = (case m_fault s c of Some e \<Rightarrow> (Inl e, s) | None \<Rightarrow> m s)"

text \<open>
  \<open>fs::create_dir_all\<close>: every missing component becomes a directory; a component that is
  neither a directory nor a link to one is an error.
\<close>

fun make_dirs :: "path_component list list \<Rightarrow> fs \<Rightarrow> string + fs" where
  "make_dirs [] f = Inr f"
| "make_dirs (p # ps) f =
     (case fs_node f p of
        None \<Rightarrow> make_dirs ps (fs_put p DirNode f)
      | Some _ \<Rightarrow> if is_dir_node f p then make_dirs ps f else Inl ''File exists'')"

definition create_dir_all :: "path_component list \<Rightarrow> ('b machine, string, unit) op" where
  "create_dir_all p = faultable (CreateDirAll p) (\<lambda>s.
     (case make_dirs (filter (\<lambda>q. q \<noteq> [RootDir] \<and> q \<noteq> []) (prefixes p)) (m_fs s) of
        Inl e \<Rightarrow> (Inl e, s) | Inr f \<Rightarrow> (Inr (), s\<lparr>m_fs := f\<rparr>)))"

definition symlink_metadata :: "path_component list \<Rightarrow> ('b machine, string, fnode) op" where
  "symlink_metadata p = faultable (SymlinkMetadata p) (\<lambda>s.
     (case fs_node (m_fs s) p of None \<Rightarrow> (Inl ''not found'', s) | Some n \<Rightarrow> (Inr n, s)))"

definition read_dir :: "path_component list \<Rightarrow> ('b machine, string, path_component list list) op" where
  "read_dir p = faultable (ReadDir p) (\<lambda>s.
     if is_dir_node (m_fs s) p then (Inr (fs_children (m_fs s) p), s)
     else (Inl ''not a directory'', s))"

text \<open>The file type of a directory entry does not follow links.\<close>

definition entry_type :: "path_component list \<Rightarrow> ('b machine, string, fnode) op" where
  "entry_type p = faultable (EntryType p) (\<lambda>s.
     (case fs_node (m_fs s) p of None \<Rightarrow> (Inl ''not found'', s) | Some n \<Rightarrow> (Inr n, s)))"

definition remove_dir_all :: "path_component list \<Rightarrow> ('b machine, string, unit) op" where
  "remove_dir_all p = faultable (RemoveDirAll p) (modify (\<lambda>s. s\<lparr>m_fs := fs_remove_tree p (m_fs s)\<rparr>))"

definition remove_file :: "path_component list \<Rightarrow> ('b machine, string, unit) op" where
  "remove_file p = faultable (RemoveFile p) (\<lambda>s.
     (case fs_node (m_fs s) p of
        None \<Rightarrow> (Inl ''not found'', s)
      | Some DirNode \<Rightarrow> (Inl ''is a directory'', s)
      | Some _ \<Rightarrow> (Inr (), s\<lparr>m_fs := fs_remove p (m_fs s)\<rparr>)))"

text \<open>
  The program creates files only beside a target in a directory of its own, where no other user
  can plant a symbolic link: a link at the path itself is not followed here.
\<close>

definition open_truncate :: "path_component list \<Rightarrow> ('b machine, string, unit) op" where
  "open_truncate p = faultable (OpenTruncate p) (\<lambda>s.
     if fs_node (m_fs s) p = Some DirNode then (Inl ''is a directory'', s)
     else (Inr (), s\<lparr>m_fs := fs_put p (FileNode []) (m_fs s)\<rparr>))"

definition write_all :: "path_component list \<Rightarrow> string \<Rightarrow> ('b machine, string, unit) op" where
  "write_all p body = faultable (WriteAll p) (modify (\<lambda>s. s\<lparr>m_fs := fs_put p (FileNode body) (m_fs s)\<rparr>))"

definition sync_all :: "path_component list \<Rightarrow> ('b machine, string, unit) op" where
  "sync_all p = faultable (SyncAll p) (ret ())"

text \<open>\<open>rename\<close> replaces whatever stands at the target, but a directory by no file.\<close>

definition rename :: "path_component list \<Rightarrow> path_component list \<Rightarrow> ('b machine, string, unit) op" where
  "rename p q = faultable (Rename p q) (\<lambda>s.
     (case fs_node (m_fs s) p of None \<Rightarrow> (Inl ''not found'', s)
      | Some n \<Rightarrow> if fs_node (m_fs s) q = Some DirNode \<and> n \<noteq> DirNode then (Inl ''is a directory'', s)
          else (Inr (), s\<lparr>m_fs := fs_put q n (fs_remove p (m_fs s))\<rparr>)))"

text \<open>
  Reading follows a final link. The queries of \<open>Path\<close> turn every error into false.
\<close>

definition fs_target :: "fs \<Rightarrow> path_component list \<Rightarrow> fnode option" where
  "fs_target f p = (case fs_node f p of Some (LinkNode t) \<Rightarrow>
     (case fs_node f t of Some (LinkNode _) \<Rightarrow> None | n \<Rightarrow> n) | n \<Rightarrow> n)"

definition path_exists :: "path_component list \<Rightarrow> ('b machine, 'e, bool) op" where
  "path_exists p = gets (\<lambda>s. m_fault s (Metadata p) = None \<and> fs_target (m_fs s) p \<noteq> None)"

definition path_is_dir :: "path_component list \<Rightarrow> ('b machine, 'e, bool) op" where
  "path_is_dir p = gets (\<lambda>s. m_fault s (Metadata p) = None \<and> fs_target (m_fs s) p = Some DirNode)"

definition path_is_file :: "path_component list \<Rightarrow> ('b machine, 'e, bool) op" where
  "path_is_file p = gets (\<lambda>s. m_fault s (Metadata p) = None \<and>
     (case fs_target (m_fs s) p of Some (FileNode _) \<Rightarrow> True | _ \<Rightarrow> False))"

definition path_is_symlink :: "path_component list \<Rightarrow> ('b machine, 'e, bool) op" where
  "path_is_symlink p = gets (\<lambda>s. m_fault s (SymlinkMetadata p) = None \<and>
     (case fs_node (m_fs s) p of Some (LinkNode _) \<Rightarrow> True | _ \<Rightarrow> False))"

text \<open>\<open>symlink_metadata\<close> where the caller tells \<open>NotFound\<close> from the other errors.\<close>

definition inspect :: "path_component list \<Rightarrow> ('b machine, string, fnode option) op" where
  "inspect p = faultable (SymlinkMetadata p) (gets (\<lambda>s. fs_node (m_fs s) p))"

text \<open>\<open>if let Some(parent) = path.parent() { create_dir_all(parent)? }\<close>\<close>

definition make_parent :: "path_component list \<Rightarrow> ('b machine, string, unit) op" where
  "make_parent p = (case parent_of p of None \<Rightarrow> ret () | Some parent \<Rightarrow> create_dir_all parent)"

text \<open>
  \<open>File::open\<close> and reading what it opened to the end, as text: a directory opens but does not read,
  and bytes that are no UTF-8 are one of the faults of \<open>ReadAll\<close>.
\<close>

definition open_read :: "path_component list \<Rightarrow> ('b machine, string, fnode) op" where
  "open_read p = faultable (OpenRead p) (\<lambda>s.
     (case fs_target (m_fs s) p of None \<Rightarrow> (Inl ''not found'', s) | Some n \<Rightarrow> (Inr n, s)))"

definition read_all :: "path_component list \<Rightarrow> fnode \<Rightarrow> ('b machine, string, string) op" where
  "read_all p n = faultable (ReadAll p)
     (case n of FileNode body \<Rightarrow> ret body | _ \<Rightarrow> raise ''is a directory'')"

text \<open>\<open>getrandom\<close> and \<open>Uuid::new_v4\<close>: the next value of the machine's sources.\<close>

definition getrandom :: "('b machine, string, u8 list) op" where
  "getrandom s =
     (case m_random s (m_draws s) of
        None \<Rightarrow> (Inl ''OS CSPRNG failed'', s\<lparr>m_draws := Suc (m_draws s)\<rparr>)
      | Some bytes \<Rightarrow> (Inr bytes, s\<lparr>m_draws := Suc (m_draws s)\<rparr>))"

definition new_v4 :: "('b machine, 'e, uuid) op" where
  "new_v4 s = (Inr (m_uuid s (m_uuids s)), s\<lparr>m_uuids := Suc (m_uuids s)\<rparr>)"

section \<open>Facts\<close>

lemma fs_node_put [simp]: "fs_node (fs_put p n f) q = (if q = p then Some n else fs_node f q)"
  by (induction f) (auto simp: fs_node_def fs_put_def)

lemma fs_node_remove [simp]: "fs_node (fs_remove p f) q = (if q = p then None else fs_node f q)"
  by (induction f) (auto simp: fs_node_def fs_remove_def)

lemma fs_node_remove_tree [simp]:
  "fs_node (fs_remove_tree p f) q = (if prefix p q then None else fs_node f q)"
  by (induction f) (auto simp: fs_node_def fs_remove_tree_def)

lemma set_fs_children: "q \<in> set (fs_children f p) \<longleftrightarrow> q \<noteq> [] \<and> butlast q = p \<and> fs_node f q \<noteq> None"
  by (induction f) (auto simp: fs_children_def fs_node_def)

lemma below_child: "below p q \<longleftrightarrow> (\<exists>c. prefix (p @ [c]) q)"
  by (auto simp: below_def strict_prefix_def prefix_def) (metis append_Nil2 neq_Nil_conv)

lemma make_dirs_keeps:
  "make_dirs ps f = Inr f' \<Longrightarrow> fs_node f q = Some n \<Longrightarrow> fs_node f' q = Some n"
proof (induction ps arbitrary: f)
  case (Cons p ps)
  show ?case
  proof (cases "fs_node f p")
    case None
    with Cons.prems have "make_dirs ps (fs_put p DirNode f) = Inr f'"
      and "fs_node (fs_put p DirNode f) q = Some n" by auto
    then show ?thesis by (rule Cons.IH)
  next
    case (Some m)
    with Cons show ?thesis by (auto split: if_splits)
  qed
qed simp

lemma make_dirs_new:
  "make_dirs ps f = Inr f' \<Longrightarrow> fs_node f q = None \<Longrightarrow> fs_node f' q \<noteq> None \<Longrightarrow>
     q \<in> set ps \<and> fs_node f' q = Some DirNode"
proof (induction ps arbitrary: f)
  case (Cons p ps)
  show ?case
  proof (cases "fs_node f p = None \<and> q = p")
    case True
    with Cons.prems have "make_dirs ps (fs_put p DirNode f) = Inr f'" by simp
    then have "fs_node f' p = Some DirNode"
      by (rule make_dirs_keeps) simp
    with True show ?thesis by simp
  next
    case False
    with Cons show ?thesis by (auto split: option.splits if_splits)
  qed
qed simp

lemma create_dir_all_keeps:
  assumes "create_dir_all p h = (r, h')"
  shows "(fs_node (m_fs h) q = Some n \<longrightarrow> fs_node (m_fs h') q = Some n) \<and>
    (\<not> prefix q p \<longrightarrow> fs_node (m_fs h') q = fs_node (m_fs h) q)"
proof -
  consider "h' = h" | f where "make_dirs (filter (\<lambda>q. q \<noteq> [RootDir] \<and> q \<noteq> []) (prefixes p)) (m_fs h) = Inr f"
      "m_fs h' = f"
    using assms by (auto simp: create_dir_all_def faultable_def split: option.splits sum.splits)
  then show ?thesis
  proof cases
    case 2
    have "fs_node f q = None" if "\<not> prefix q p" "fs_node (m_fs h) q = None"
      by (rule ccontr) (use make_dirs_new [OF 2(1) that(2)] that(1) in simp)
    then show ?thesis
      using make_dirs_keeps [OF 2(1), of q] 2(2) by (metis option.exhaust)
  qed simp
qed

subsection \<open>Running the calls\<close>

lemma wp_faultable [wp_rules]:
  "wp (faultable c m) Q s = (case m_fault s c of Some e \<Rightarrow> Q (Inl e) s | None \<Rightarrow> wp m Q s)"
  by (simp add: wp_def faultable_def split: option.splits)

lemma wp_path_queries [wp_rules]:
  "wp (path_exists p) Q s = Q (Inr (m_fault s (Metadata p) = None \<and> fs_target (m_fs s) p \<noteq> None)) s"
  "wp (path_is_dir p) Q s = Q (Inr (m_fault s (Metadata p) = None \<and> fs_target (m_fs s) p = Some DirNode)) s"
  "wp (path_is_file p) Q s = Q (Inr (m_fault s (Metadata p) = None \<and>
     (case fs_target (m_fs s) p of Some (FileNode _) \<Rightarrow> True | _ \<Rightarrow> False))) s"
  "wp (path_is_symlink p) Q s = Q (Inr (m_fault s (SymlinkMetadata p) = None \<and>
     (case fs_node (m_fs s) p of Some (LinkNode _) \<Rightarrow> True | _ \<Rightarrow> False))) s"
  by (simp_all add: path_exists_def path_is_dir_def path_is_file_def path_is_symlink_def wp_gets)

lemma wp_symlink_metadata [wp_rules]:
  "wp (symlink_metadata p) Q s = (case m_fault s (SymlinkMetadata p) of Some e \<Rightarrow> Q (Inl e) s
     | None \<Rightarrow> (case fs_node (m_fs s) p of None \<Rightarrow> Q (Inl ''not found'') s | Some n \<Rightarrow> Q (Inr n) s))"
  by (simp add: symlink_metadata_def wp_faultable, simp add: wp_def split: option.splits)

lemma wp_inspect [wp_rules]:
  "wp (inspect p) Q s = (case m_fault s (SymlinkMetadata p) of Some e \<Rightarrow> Q (Inl e) s
     | None \<Rightarrow> Q (Inr (fs_node (m_fs s) p)) s)"
  by (simp add: inspect_def wp_faultable wp_gets split: option.splits)

lemma wp_open_read [wp_rules]:
  "wp (open_read p) Q s = (case m_fault s (OpenRead p) of Some e \<Rightarrow> Q (Inl e) s
     | None \<Rightarrow> (case fs_target (m_fs s) p of None \<Rightarrow> Q (Inl ''not found'') s | Some n \<Rightarrow> Q (Inr n) s))"
  by (simp add: open_read_def wp_faultable, simp add: wp_def split: option.splits)

lemma wp_read_all [wp_rules]:
  "wp (read_all p n) Q s = (case m_fault s (ReadAll p) of Some e \<Rightarrow> Q (Inl e) s
     | None \<Rightarrow> (case n of FileNode body \<Rightarrow> Q (Inr body) s | _ \<Rightarrow> Q (Inl ''is a directory'') s))"
  by (simp add: read_all_def wp_faultable wp_ret wp_raise split: option.splits fnode.splits)

lemma wp_writing [wp_rules]:
  "wp (open_truncate p) Q s = (case m_fault s (OpenTruncate p) of Some e \<Rightarrow> Q (Inl e) s
     | None \<Rightarrow> if fs_node (m_fs s) p = Some DirNode then Q (Inl ''is a directory'') s
         else Q (Inr ()) (s\<lparr>m_fs := fs_put p (FileNode []) (m_fs s)\<rparr>))"
  "wp (write_all p body) Q s = (case m_fault s (WriteAll p) of Some e \<Rightarrow> Q (Inl e) s
     | None \<Rightarrow> Q (Inr ()) (s\<lparr>m_fs := fs_put p (FileNode body) (m_fs s)\<rparr>))"
  "wp (sync_all p) Q s = (case m_fault s (SyncAll p) of Some e \<Rightarrow> Q (Inl e) s | None \<Rightarrow> Q (Inr ()) s)"
  "wp (rename p q) Q s = (case m_fault s (Rename p q) of Some e \<Rightarrow> Q (Inl e) s
     | None \<Rightarrow> (case fs_node (m_fs s) p of None \<Rightarrow> Q (Inl ''not found'') s
         | Some n \<Rightarrow> if fs_node (m_fs s) q = Some DirNode \<and> n \<noteq> DirNode then Q (Inl ''is a directory'') s
             else Q (Inr ()) (s\<lparr>m_fs := fs_put q n (fs_remove p (m_fs s))\<rparr>)))"
  "wp (remove_file p) Q s = (case m_fault s (RemoveFile p) of Some e \<Rightarrow> Q (Inl e) s
     | None \<Rightarrow> (case fs_node (m_fs s) p of None \<Rightarrow> Q (Inl ''not found'') s
         | Some DirNode \<Rightarrow> Q (Inl ''is a directory'') s
         | Some _ \<Rightarrow> Q (Inr ()) (s\<lparr>m_fs := fs_remove p (m_fs s)\<rparr>)))"
  by (auto simp: open_truncate_def write_all_def sync_all_def rename_def remove_file_def wp_def
      faultable_def ret_def modify_def split: option.splits fnode.splits)

lemma create_dir_all_only_fs: "create_dir_all p h = (r, h') \<Longrightarrow> \<exists>f. h' = h\<lparr>m_fs := f\<rparr>"
  by (auto simp: create_dir_all_def faultable_def split: option.splits sum.splits
      intro: exI [of _ "m_fs h"])

lemma parent_of_prefix: "parent_of p = Some q \<Longrightarrow> \<exists>c. p = q @ [c]"
  unfolding parent_of_def by (auto split: list.splits path_component.splits)

text \<open>Making a file's parent directories leaves everything alone that was there, and the file's siblings.\<close>

definition dirs_added :: "path_component list \<Rightarrow> fs \<Rightarrow> fs \<Rightarrow> bool" where
  "dirs_added p f f' \<longleftrightarrow> (\<forall>q. fs_node f' q = fs_node f q \<or>
     (fs_node f q = None \<and> fs_node f' q = Some DirNode \<and> strict_prefix q p))"

lemma create_dir_all_new:
  assumes "create_dir_all p h = (r, h')" and "fs_node (m_fs h) q = None" "fs_node (m_fs h') q \<noteq> None"
  shows "fs_node (m_fs h') q = Some DirNode"
proof -
  consider "h' = h" | f where "make_dirs (filter (\<lambda>q. q \<noteq> [RootDir] \<and> q \<noteq> []) (prefixes p)) (m_fs h) = Inr f"
      "m_fs h' = f"
    using assms(1) by (auto simp: create_dir_all_def faultable_def split: option.splits sum.splits)
  then show ?thesis
    using assms(2,3) make_dirs_new by cases auto
qed

lemma wp_make_parent:
  assumes "\<And>r f. dirs_added p (m_fs h) f \<Longrightarrow> Q r (h\<lparr>m_fs := f\<rparr>)"
  shows "wp (make_parent p) Q h"
proof (cases "parent_of p")
  case None
  with assms [of "m_fs h"] show ?thesis by (simp add: make_parent_def wp_ret dirs_added_def)
next
  case (Some d)
  obtain c where p: "p = d @ [c]" using parent_of_prefix [OF Some] by blast
  obtain r h1 where c: "create_dir_all d h = (r, h1)" by fastforce
  then obtain f where f: "h1 = h\<lparr>m_fs := f\<rparr>" using create_dir_all_only_fs by blast
  have "dirs_added p (m_fs h) f"
    unfolding dirs_added_def
  proof (intro allI)
    fix q
    show "fs_node f q = fs_node (m_fs h) q \<or>
      (fs_node (m_fs h) q = None \<and> fs_node f q = Some DirNode \<and> strict_prefix q p)"
      using create_dir_all_keeps [OF c, of q] create_dir_all_new [OF c, of q] f p
      by (cases "fs_node (m_fs h) q") (auto simp: strict_prefix_def)
  qed
  then have "Q r (h\<lparr>m_fs := f\<rparr>)" by (rule assms)
  with c f Some show ?thesis by (simp add: make_parent_def wp_def)
qed

text \<open>A temporary name made by \<open>with_extension\<close> is another file in the same directory.\<close>

definition named_file :: "path_component list \<Rightarrow> bool" where
  "named_file p \<longleftrightarrow> (\<exists>d name. p = d @ [Normal name])"

lemma file_stem_tmp: "x \<noteq> [] \<Longrightarrow> file_stem (x @ ''.tmp'') = x"
  using rsplit_once_append [of "CHR ''.''" "''tmp''" x] by (simp add: file_stem_def)

lemma with_extension_tmp:
  assumes "p = d @ [Normal name]"
  shows "with_extension (e @ ''.tmp'') p = d @ [Normal (file_stem name @ ''.'' @ e @ ''.tmp'')]"
    and "with_extension (e @ ''.tmp'') p \<noteq> p"
    and "\<not> strict_prefix (with_extension e p) p"
proof -
  show 1: "with_extension (e @ ''.tmp'') p = d @ [Normal (file_stem name @ ''.'' @ e @ ''.tmp'')]"
    by (simp add: with_extension_def assms)
  have "name \<noteq> file_stem name @ ''.'' @ e @ ''.tmp''"
    using file_stem_tmp [of "file_stem name @ ''.'' @ e"] by (metis append.assoc append_is_Nil_conv
        append_self_conv list.distinct(1))
  with 1 assms show "with_extension (e @ ''.tmp'') p \<noteq> p" by simp
  show "\<not> strict_prefix (with_extension e p) p"
    by (simp add: with_extension_def assms strict_prefix_def prefix_def)
qed

lemmas fs_op_defs = open_truncate_def write_all_def sync_all_def rename_def faultable_def
  modify_def ret_def

end
