(* ===== verification/Backend.thy ===== *)
theory Backend
  imports Model Machine
begin

text \<open>
  The two trait objects the session layer drives: \<open>BrowserBackend\<close> (\<open>src/browser.rs\<close>) and
  \<open>EgressBackend\<close> (\<open>src/netd.rs\<close>), each a record of operations on the machine, with the mock
  implementations \<open>main.rs\<close> installs when a helper is disabled. The mocks keep their state in
  the helper part of the machine, reached through a record update given as an argument. The
  socket clients that reach the real helpers are in theory Clients.
\<close>

section \<open>The traits\<close>

record 'b browser_backend =
  br_start :: "uuid \<Rightarrow> url \<Rightarrow> stream_profile \<Rightarrow> egress_mode \<Rightarrow> ('b machine, app_error, unit) op"
  br_stop :: "('b machine, app_error, unit) op"
  br_navigate :: "navigation_command \<Rightarrow> ('b machine, app_error, unit) op"

record egress_response =
  eg_ok :: bool
  eg_active_mode :: egress_mode
  eg_proxy_url :: "string option"
  eg_detail :: string

record 'b egress_backend =
  eg_apply :: "egress_mode \<Rightarrow> ('b machine, app_error, egress_response) op"
  eg_reset :: "('b machine, app_error, egress_response) op"

section \<open>The mocks\<close>

definition helpers_op :: "('b \<Rightarrow> 'b) \<Rightarrow> ('b machine, 'e, unit) op" where
  "helpers_op f = modify (\<lambda>h. h\<lparr>m_helpers := f (m_helpers h)\<rparr>)"

text \<open>
  \<open>MockBrowser\<close> records every call. The \<open>Debug\<close> text of a command prints a third-party URL and
  is the argument \<open>show_command\<close>.
\<close>

definition mock_browser ::
  "((string list \<Rightarrow> string list) \<Rightarrow> 'b \<Rightarrow> 'b) \<Rightarrow> (navigation_command \<Rightarrow> string) \<Rightarrow> 'b browser_backend" where
  "mock_browser calls show_command = \<lparr>
     br_start = (\<lambda>_ u profile egress. helpers_op (calls (\<lambda>cs. cs @
        [''start:'' @ url_str u @ '':'' @ stream_profile_display profile @ '':'' @
         egress_mode_display egress]))),
     br_stop = helpers_op (calls (\<lambda>cs. cs @ [''stop''])),
     br_navigate = (\<lambda>c. helpers_op (calls (\<lambda>cs. cs @ [''navigate:'' @ show_command c])))\<rparr>"

definition mock_apply ::
  "((egress_mode \<Rightarrow> egress_mode) \<Rightarrow> 'b \<Rightarrow> 'b) \<Rightarrow> egress_mode \<Rightarrow> ('b machine, app_error, egress_response) op" where
  "mock_apply active mode =
     and_then (helpers_op (active (\<lambda>_. mode))) (\<lambda>_.
       ret \<lparr>eg_ok = True, eg_active_mode = mode, eg_proxy_url = None,
            eg_detail = ''mock egress applied''\<rparr>)"

definition mock_egress :: "((egress_mode \<Rightarrow> egress_mode) \<Rightarrow> 'b \<Rightarrow> 'b) \<Rightarrow> 'b egress_backend" where
  "mock_egress active = \<lparr>eg_apply = mock_apply active, eg_reset = mock_apply active Direct\<rparr>"

section \<open>Errors inside the helpers\<close>

text \<open>
  An \<open>anyhow\<close> error, by its text; a future dropped by a deadline, after which no code of it runs;
  a panic. Only the first is a value the helpers' code can handle.
\<close>

datatype helper_error = Failure string | Dropped | Panicked

definition fallible :: "string + 'a \<Rightarrow> ('s, helper_error, 'a) op" where
  "fallible r = (case r of Inl e \<Rightarrow> raise (Failure e) | Inr a \<Rightarrow> ret a)"

lemma fallible_simps [simp]: "fallible (Inl e) = raise (Failure e)" "fallible (Inr a) = ret a"
  by (simp_all add: fallible_def)

lemma keeps_fallible [keeps_rules]: "keeps I (fallible r)"
  by (cases r) (simp_all add: keeps_rules)

lemma fallible_Inr: "fallible r w = (Inr a, w') \<longleftrightarrow> r = Inr a \<and> w' = w"
  by (cases r) (auto simp: raise_def ret_def)

end
