(* ===== verification/RustNet.thy ===== *)
theory RustNet
  imports RustStr
begin

text \<open>
  The address types of \<open>std::net\<close>: \<open>IpAddr\<close> and \<open>SocketAddr\<close> with the parser, the printer and
  the predicates the program calls. The parser follows the standard library's: a reader takes
  the text and gives its value and the rest, or None and consumes nothing.
\<close>

section \<open>Addresses\<close>

datatype ip_addr = V4 u8 u8 u8 u8 | V6 "u16 list"

record socket_addr =
  sa_ip :: ip_addr
  sa_port :: u16
  sa_scope :: u32

definition socket_addr_new :: "ip_addr \<Rightarrow> u16 \<Rightarrow> socket_addr" where
  "socket_addr_new ip port = \<lparr>sa_ip = ip, sa_port = port, sa_scope = 0\<rparr>"

fun is_loopback :: "ip_addr \<Rightarrow> bool" where
  "is_loopback (V4 a b c d) \<longleftrightarrow> a = 127"
| "is_loopback (V6 gs) \<longleftrightarrow> gs = [0, 0, 0, 0, 0, 0, 0, 1]"

fun is_unspecified :: "ip_addr \<Rightarrow> bool" where
  "is_unspecified (V4 a b c d) \<longleftrightarrow> a = 0 \<and> b = 0 \<and> c = 0 \<and> d = 0"
| "is_unspecified (V6 gs) \<longleftrightarrow> gs = [0, 0, 0, 0, 0, 0, 0, 0]"

section \<open>Reading\<close>

type_synonym 'a reader = "string \<Rightarrow> ('a \<times> string) option"

definition read_given_char :: "char \<Rightarrow> unit reader" where
  "read_given_char c s = (case s of [] \<Rightarrow> None | x # xs \<Rightarrow> if x = c then Some ((), xs) else None)"

definition read_separator :: "char \<Rightarrow> nat \<Rightarrow> 'a reader \<Rightarrow> 'a reader" where
  "read_separator sep index inner s =
     (if 0 < index
      then (case read_given_char sep s of None \<Rightarrow> None | Some (_, rest) \<Rightarrow> inner rest)
      else inner s)"

fun take_digits :: "(char \<Rightarrow> nat option) \<Rightarrow> string \<Rightarrow> nat list \<times> string" where
  "take_digits dv [] = ([], [])"
| "take_digits dv (c # cs) =
     (case dv c of None \<Rightarrow> ([], c # cs)
      | Some d \<Rightarrow> (case take_digits dv cs of (ds, rest) \<Rightarrow> (d # ds, rest)))"

definition number_of :: "nat \<Rightarrow> nat list \<Rightarrow> nat" where
  "number_of radix ds = foldl (\<lambda>acc d. acc * radix + d) 0 ds"

text \<open>
  \<open>read_number\<close>: all the digits that follow, refused when there are none, more than
  \<open>max_digits\<close>, a leading zero that is not allowed, or a value over \<open>limit\<close>.
\<close>

definition read_number ::
  "(char \<Rightarrow> nat option) \<Rightarrow> nat \<Rightarrow> nat option \<Rightarrow> bool \<Rightarrow> nat \<Rightarrow> nat reader" where
  "read_number dv radix max_digits allow_zero_prefix limit s =
     (case take_digits dv s of (ds, rest) \<Rightarrow>
        if ds = [] then None
        else if (case max_digits of Some m \<Rightarrow> m < length ds | None \<Rightarrow> False) then None
        else if \<not> allow_zero_prefix \<and> hd ds = 0 \<and> 1 < length ds then None
        else if limit < number_of radix ds then None
        else Some (number_of radix ds, rest))"

definition read_octet :: "nat reader" where
  "read_octet = read_number digit_value 10 (Some 3) False 255"

definition read_ipv4_addr :: "(u8 \<times> u8 \<times> u8 \<times> u8) reader" where
  "read_ipv4_addr s =
     (case read_separator CHR ''.'' 0 read_octet s of None \<Rightarrow> None | Some (a, s1) \<Rightarrow>
     (case read_separator CHR ''.'' 1 read_octet s1 of None \<Rightarrow> None | Some (b, s2) \<Rightarrow>
     (case read_separator CHR ''.'' 2 read_octet s2 of None \<Rightarrow> None | Some (c, s3) \<Rightarrow>
     (case read_separator CHR ''.'' 3 read_octet s3 of None \<Rightarrow> None | Some (d, s4) \<Rightarrow>
        Some ((of_nat a, of_nat b, of_nat c, of_nat d), s4)))))"

definition read_group :: "nat reader" where
  "read_group = read_number hex_value 16 (Some 4) True 65535"

text \<open>
  The groups of an IPv6 address from index \<open>i\<close> on, of at most \<open>limit\<close>, and whether they end in
  an embedded IPv4 address, which needs two groups.
\<close>

function read_groups :: "nat \<Rightarrow> nat \<Rightarrow> string \<Rightarrow> u16 list \<times> bool \<times> string" where
  "read_groups limit i s =
     (if limit \<le> i then ([], False, s)
      else (case (if i + 1 < limit then read_separator CHR '':'' i read_ipv4_addr s else None) of
          Some ((a, b, c, d), rest) \<Rightarrow>
            ([ucast a * 256 + ucast b, ucast c * 256 + ucast d], True, rest)
        | None \<Rightarrow>
            (case read_separator CHR '':'' i read_group s of
               None \<Rightarrow> ([], False, s)
             | Some (g, rest) \<Rightarrow>
                 (case read_groups limit (Suc i) rest of
                    (gs, v4, rest') \<Rightarrow> (of_nat g # gs, v4, rest')))))"
  by pat_completeness auto
termination
  by (relation "measure (\<lambda>(limit, i, s). limit - i)") auto

declare read_groups.simps [simp del]

definition read_ipv6_addr :: "u16 list reader" where
  "read_ipv6_addr s =
     (case read_groups 8 0 s of (head, head_ipv4, s1) \<Rightarrow>
        if length head = 8 then Some (head, s1)
        else if head_ipv4 then None
        else (case read_given_char CHR '':'' s1 of None \<Rightarrow> None | Some (_, s2) \<Rightarrow>
             (case read_given_char CHR '':'' s2 of None \<Rightarrow> None | Some (_, s3) \<Rightarrow>
             (case read_groups (8 - (length head + 1)) 0 s3 of (tail, _, s4) \<Rightarrow>
                Some (head @ replicate (8 - length head - length tail) 0 @ tail, s4)))))"

definition read_ip_addr :: "ip_addr reader" where
  "read_ip_addr s =
     (case read_ipv4_addr s of
        Some ((a, b, c, d), rest) \<Rightarrow> Some (V4 a b c d, rest)
      | None \<Rightarrow> (case read_ipv6_addr s of Some (gs, rest) \<Rightarrow> Some (V6 gs, rest) | None \<Rightarrow> None))"

definition parse_with :: "'a reader \<Rightarrow> string \<Rightarrow> 'a option" where
  "parse_with r s = (case r s of Some (a, []) \<Rightarrow> Some a | _ \<Rightarrow> None)"

definition parse_ip_addr :: "string \<Rightarrow> ip_addr option" where
  "parse_ip_addr = parse_with read_ip_addr"

definition parse_ipv6_addr :: "string \<Rightarrow> u16 list option" where
  "parse_ipv6_addr = parse_with read_ipv6_addr"

definition read_port :: "nat reader" where
  "read_port s = (case read_given_char CHR '':'' s of None \<Rightarrow> None
     | Some (_, rest) \<Rightarrow> read_number digit_value 10 None True 65535 rest)"

definition read_scope_id :: "nat reader" where
  "read_scope_id s = (case read_given_char CHR ''%'' s of None \<Rightarrow> None
     | Some (_, rest) \<Rightarrow> read_number digit_value 10 None True 4294967295 rest)"

definition read_socket_addr :: "socket_addr reader" where
  "read_socket_addr s =
     (case (case read_ipv4_addr s of None \<Rightarrow> None | Some ((a, b, c, d), s1) \<Rightarrow>
           (case read_port s1 of None \<Rightarrow> None
            | Some (port, s2) \<Rightarrow> Some (socket_addr_new (V4 a b c d) (of_nat port), s2))) of
        Some r \<Rightarrow> Some r
      | None \<Rightarrow>
        (case read_given_char CHR ''['' s of None \<Rightarrow> None | Some (_, s1) \<Rightarrow>
        (case read_ipv6_addr s1 of None \<Rightarrow> None | Some (gs, s2) \<Rightarrow>
        (case (case read_scope_id s2 of None \<Rightarrow> (0, s2) | Some r \<Rightarrow> r) of (scope, s3) \<Rightarrow>
        (case read_given_char CHR '']'' s3 of None \<Rightarrow> None | Some (_, s4) \<Rightarrow>
        (case read_port s4 of None \<Rightarrow> None
         | Some (port, s5) \<Rightarrow>
             Some (\<lparr>sa_ip = V6 gs, sa_port = of_nat port, sa_scope = of_nat scope\<rparr>, s5)))))))"

definition parse_socket_addr :: "string \<Rightarrow> socket_addr option" where
  "parse_socket_addr = parse_with read_socket_addr"

section \<open>Printing\<close>

definition show_ipv4 :: "u8 \<Rightarrow> u8 \<Rightarrow> u8 \<Rightarrow> u8 \<Rightarrow> string" where
  "show_ipv4 a b c d = join ''.'' (map (\<lambda>x. show_nat (unat x)) [a, b, c, d])"

definition show_groups :: "u16 list \<Rightarrow> string" where
  "show_groups gs = join '':'' (map (\<lambda>g. show_hex (unat g)) gs)"

text \<open>The first longest run of zero groups, as its start and length.\<close>

fun zero_run :: "nat \<Rightarrow> nat \<times> nat \<Rightarrow> nat \<times> nat \<Rightarrow> u16 list \<Rightarrow> nat \<times> nat" where
  "zero_run i cur best [] = best"
| "zero_run i (start, len) best (g # gs) =
     (if g = 0
      then let cur' = (if len = 0 then (i, 1) else (start, Suc len))
           in zero_run (Suc i) cur' (if snd best < snd cur' then cur' else best) gs
      else zero_run (Suc i) (0, 0) best gs)"

definition show_ipv6 :: "u16 list \<Rightarrow> string" where
  "show_ipv6 gs =
     (if length gs = 8 \<and> take 6 gs = [0, 0, 0, 0, 0, 0xFFFF]
      then ''::ffff:'' @ show_ipv4 (ucast (drop_bit 8 (gs ! 6))) (ucast (gs ! 6))
                            (ucast (drop_bit 8 (gs ! 7))) (ucast (gs ! 7))
      else (case zero_run 0 (0, 0) (0, 0) gs of (start, len) \<Rightarrow>
         if 1 < len
         then show_groups (take start gs) @ ''::'' @ show_groups (drop (start + len) gs)
         else show_groups gs))"

fun show_ip_addr :: "ip_addr \<Rightarrow> string" where
  "show_ip_addr (V4 a b c d) = show_ipv4 a b c d"
| "show_ip_addr (V6 gs) = show_ipv6 gs"

definition show_socket_addr :: "socket_addr \<Rightarrow> string" where
  "show_socket_addr sa =
     (case sa_ip sa of
        V4 a b c d \<Rightarrow> show_ipv4 a b c d @ '':'' @ show_nat (unat (sa_port sa))
      | V6 gs \<Rightarrow> ''['' @ show_ipv6 gs @
          (if sa_scope sa = 0 then [] else ''%'' @ show_nat (unat (sa_scope sa))) @
          '']:'' @ show_nat (unat (sa_port sa)))"

section \<open>Facts\<close>

lemma replicate_numeral: "replicate (numeral k) x = x # replicate (pred_numeral k) x"
  by (simp add: numeral_eq_Suc)

lemmas net_eval = str_eval parse_ip_addr_def parse_ipv6_addr_def parse_with_def read_ip_addr_def
  read_ipv4_addr_def read_ipv6_addr_def read_octet_def read_group_def read_number_def
  number_of_def read_separator_def read_given_char_def read_groups.simps read_port_def
  read_scope_id_def read_socket_addr_def socket_addr_new_def parse_socket_addr_def
  replicate_numeral show_ipv4_def show_groups_def show_ipv6_def show_socket_addr_def

subsection \<open>Decimal numbers are read back\<close>

definition no_digit_next :: "string \<Rightarrow> bool" where
  "no_digit_next s \<longleftrightarrow> (case s of [] \<Rightarrow> True | c # _ \<Rightarrow> digit_value c = None)"

lemma take_digits_append:
  assumes "\<forall>c \<in> set s. is_ascii_digit c" and "no_digit_next rest"
  shows "take_digits digit_value (s @ rest) = (map (\<lambda>c. byte c - 48) s, rest)"
  using assms
proof (induction s)
  case Nil
  then show ?case by (cases rest) (auto simp: no_digit_next_def split: option.splits)
next
  case (Cons c s)
  then show ?case by (simp add: digit_value_def)
qed

lemma number_of_show_nat: "number_of 10 (map (\<lambda>c. byte c - 48) (show_nat n)) = n"
proof (induction n rule: show_nat.induct)
  case (1 n)
  then show ?case
    by (subst show_nat.simps) (simp add: number_of_def show_digit_def)
qed

lemma hd_show_nat: "0 < n \<Longrightarrow> byte (hd (show_nat n)) - 48 \<noteq> (0::nat)"
proof (induction n rule: show_nat.induct)
  case (1 n)
  show ?case
  proof (cases "n < 10")
    case True
    with 1 show ?thesis by (subst show_nat.simps) (simp add: show_digit_def)
  next
    case False
    with 1 have "byte (hd (show_nat (n div 10))) - 48 \<noteq> (0::nat)" by simp
    with False show ?thesis by (subst show_nat.simps) (simp add: hd_append)
  qed
qed

lemma length_show_nat_le: "n < 10 ^ k \<Longrightarrow> 0 < k \<Longrightarrow> length (show_nat n) \<le> k"
proof (induction k arbitrary: n)
  case (Suc k)
  show ?case
  proof (cases "n < 10")
    case True
    then show ?thesis by (subst show_nat.simps) simp
  next
    case False
    with Suc.prems have "n div 10 < 10 ^ k" "0 < k" by (auto intro: gr0I)
    then have "length (show_nat (n div 10)) \<le> k" by (rule Suc.IH)
    with False show ?thesis by (subst show_nat.simps) simp
  qed
qed simp

lemma read_number_show_nat:
  assumes "no_digit_next rest" and "n \<le> limit"
    and "case m of None \<Rightarrow> True | Some k \<Rightarrow> 0 < k \<and> n < 10 ^ k"
  shows "read_number digit_value 10 m z limit (show_nat n @ rest) = Some (n, rest)"
proof -
  have t: "take_digits digit_value (show_nat n @ rest) = (map (\<lambda>c. byte c - 48) (show_nat n), rest)"
    by (rule take_digits_append) (auto simp: assms dest: show_nat_digits)
  have l: "length (show_nat n) \<le> k" if "m = Some k" for k
    using assms(3) that by (auto intro: length_show_nat_le)
  have z: "\<not> (hd (map (\<lambda>c. byte c - 48) (show_nat n)) = (0::nat) \<and> 1 < length (show_nat n))"
  proof (cases "n = 0")
    case True
    then show ?thesis by (subst (2) show_nat.simps) simp
  next
    case False
    then show ?thesis using hd_show_nat [of n] by (simp add: hd_map)
  qed
  from t l z assms(2) show ?thesis
    by (auto simp: read_number_def number_of_show_nat split: option.splits)
qed

lemma no_digit_next_simps [simp]:
  "no_digit_next []" "digit_value c = None \<Longrightarrow> no_digit_next (c # cs)"
  by (simp_all add: no_digit_next_def)

lemma digit_value_punct [simp]:
  "digit_value CHR ''.'' = None" "digit_value CHR '':'' = None" "digit_value CHR '']'' = None"
  by (simp_all add: digit_value_def is_ascii_digit_def)

lemma read_octet_show:
  "no_digit_next rest \<Longrightarrow> read_octet (show_nat (unat (x::u8)) @ rest) = Some (unat x, rest)"
  unfolding read_octet_def
  using unsigned_less [where 'a = nat, of x] by (intro read_number_show_nat) auto

lemma read_ipv4_show:
  "no_digit_next rest \<Longrightarrow> read_ipv4_addr (show_ipv4 a b c d @ rest) = Some ((a, b, c, d), rest)"
  by (simp add: show_ipv4_def read_ipv4_addr_def read_separator_def read_given_char_def
      read_octet_show)

lemma parse_show_ipv4: "parse_ip_addr (show_ipv4 a b c d) = Some (V4 a b c d)"
  using read_ipv4_show [of "[]" a b c d]
  by (simp add: parse_ip_addr_def parse_with_def read_ip_addr_def)

lemma parse_show_socket_addr_v4:
  "parse_socket_addr (show_socket_addr (socket_addr_new (V4 a b c d) port)) =
     Some (socket_addr_new (V4 a b c d) port)"
proof -
  have p: "read_number digit_value 10 None True 65535 (show_nat (unat port)) = Some (unat port, [])"
    using read_number_show_nat [of "[]" "unat port" 65535 None True] unsigned_less [where 'a = nat, of port] by simp
  show ?thesis
    using read_ipv4_show [of "CHR '':'' # show_nat (unat port)" a b c d] p
    by (simp add: parse_socket_addr_def parse_with_def read_socket_addr_def show_socket_addr_def
        read_port_def read_given_char_def socket_addr_new_def)
qed

subsection \<open>Only IPv6 texts have colons\<close>

lemma colon_not_show_nat: "CHR '':'' \<notin> set (show_nat n)"
  using show_nat_digits [of "CHR '':''" n] by (auto simp: is_ascii_digit_def)

lemma colon_show_ipv4: "CHR '':'' \<notin> set (show_ipv4 a b c d)"
  by (simp add: show_ipv4_def colon_not_show_nat)

lemma colon_show_groups: "2 \<le> length gs \<Longrightarrow> CHR '':'' \<in> set (show_groups gs)"
  by (cases gs; cases "tl gs") (auto simp: show_groups_def)

lemma colon_show_ipv6: "length gs = 8 \<Longrightarrow> CHR '':'' \<in> set (show_ipv6 gs)"
  by (cases "zero_run 0 (0, 0) (0, 0) gs") (auto simp: show_ipv6_def colon_show_groups)

subsection \<open>Sizes\<close>

lemma read_groups_length: "read_groups limit i s = (gs, v4, rest) \<Longrightarrow> length gs \<le> limit - i"
proof (induction "limit - i" arbitrary: i s gs v4 rest rule: less_induct)
  case less
  have IH: "length gs' \<le> limit - Suc i"
    if "read_groups limit (Suc i) s' = (gs', v', r')" and "i < limit" for s' gs' v' r'
    using less.hyps [OF _ that(1)] that(2) by simp
  from less.prems show ?case
    by (subst (asm) read_groups.simps)
      (auto split: if_splits option.splits prod.splits dest: IH)
qed

lemma read_ipv6_length: "read_ipv6_addr s = Some (gs, rest) \<Longrightarrow> length gs = 8"
  by (auto simp: read_ipv6_addr_def split: prod.splits if_splits option.splits
      dest!: read_groups_length)

lemma parse_ip_addr_V6_length: "parse_ip_addr s = Some (V6 gs) \<Longrightarrow> length gs = 8"
  by (auto simp: parse_ip_addr_def parse_with_def read_ip_addr_def dest: read_ipv6_length
      split: option.splits prod.splits list.splits)

subsection \<open>The loopback address\<close>

lemma digit_chars: "show_digit 0 = CHR ''0''" "show_digit 1 = CHR ''1''" "show_digit 2 = CHR ''2''"
  "show_digit 4 = CHR ''4''" "show_digit 5 = CHR ''5''" "show_digit 7 = CHR ''7''"
  "show_digit 8 = CHR ''8''" "show_digit 9 = CHR ''9''"
  by (simp_all add: show_digit_def char_of_def bit_Suc_0_iff)

lemma loopback_text: "show_ipv4 127 0 0 1 = ''127.0.0.1''"
  by (simp add: show_ipv4_def show_nat.simps digit_chars digit_chars [simplified])

lemma loopback_ip: "parse_ip_addr ''127.0.0.1'' = Some (V4 127 0 0 1)"
  using parse_show_ipv4 [of 127 0 0 1] by (simp add: loopback_text)

lemma loopback_sockets:
  "parse_socket_addr ''127.0.0.1:9050'' = Some (socket_addr_new (V4 127 0 0 1) 9050)"
  "parse_socket_addr ''127.0.0.1:40000'' = Some (socket_addr_new (V4 127 0 0 1) 40000)"
  "parse_socket_addr ''127.0.0.1:1080'' = Some (socket_addr_new (V4 127 0 0 1) 1080)"
  using parse_show_socket_addr_v4 [of 127 0 0 1 9050] parse_show_socket_addr_v4 [of 127 0 0 1 40000]
    parse_show_socket_addr_v4 [of 127 0 0 1 1080]
  by (simp_all add: show_socket_addr_def socket_addr_new_def loopback_text show_nat.simps
      digit_chars digit_chars [simplified])

end
