(* ===== verification/Blocklist.thy ===== *)
theory Blocklist
  imports RustNet Machine AppError "HOL-Library.List_Lexorder"
begin

text \<open>
  \<open>src/blocklist.rs\<close>: the navigation policy's host set. A compiled list is an \<open>fst::Set\<close>, a
  third-party value the model sees through its three observations: membership, size and its
  keys in the order its stream gives them. The hit counter is an \<open>AtomicU64\<close>, so it wraps.

  Here are the functions about text (normalisation, hosts lines, lookup of a host and its parent
  domains), total and pure; those that read and publish files are in theory BlocklistFiles.
\<close>

record fst_set =
  fst_contains :: "string \<Rightarrow> bool"
  fst_len :: nat
  fst_keys :: "string list"

text \<open>\<open>Blocklist::default\<close> has no set; \<open>open\<close> gives \<open>Some\<close>.\<close>

type_synonym blocklist = "fst_set option"

definition normalize_host :: "string \<Rightarrow> string" where
  "normalize_host host = to_ascii_lowercase (trim_end_matches CHR ''.'' (trim host))"

definition valid_label :: "string \<Rightarrow> bool" where
  "valid_label label \<longleftrightarrow>
     label \<noteq> [] \<and> length label \<le> 63 \<and> is_ascii_alphanumeric (hd label) \<and>
     is_ascii_alphanumeric (last label) \<and>
     list_all (\<lambda>b. is_ascii_alphanumeric b \<or> b = CHR ''-'') label"

definition normalize_domain :: "string \<Rightarrow> string option" where
  "normalize_domain candidate =
     (let host = normalize_host candidate
      in if host = [] \<or> host = ''localhost'' \<or> CHR ''.'' \<notin> set host \<or> 253 < length host
            \<or> parse_ip_addr host \<noteq> None
         then None
         else if list_all valid_label (split_on CHR ''.'' host) then Some host else None)"

text \<open>The host names of one line: what stands before \<open>#\<close>, less a leading address.\<close>

definition line_content :: "string \<Rightarrow> string" where
  "line_content line = trim (hd (split_on CHR ''#'' line))"

definition line_candidates :: "string \<Rightarrow> string list" where
  "line_candidates content =
     (case split_whitespace content of [] \<Rightarrow> []
      | p # ps \<Rightarrow> if parse_ip_addr p \<noteq> None then ps else p # ps)"

definition parse_hosts_line :: "string \<Rightarrow> string list" where
  "parse_hosts_line line =
     (let content = line_content line
      in if content = [] then [] else List.map_filter normalize_domain (line_candidates content))"

text \<open>
  \<open>Blocklist::contains\<close>: the answer and the new value of the hit counter. The loop tries the
  host and then every parent domain, and stops at the first hit.
\<close>

fun any_suffix :: "(string \<Rightarrow> bool) \<Rightarrow> string list \<Rightarrow> bool" where
  "any_suffix P [] = False"
| "any_suffix P (l # ls) = (P (join ''.'' (l # ls)) \<or> any_suffix P ls)"

definition contains :: "blocklist \<Rightarrow> string \<Rightarrow> u64 \<Rightarrow> bool \<times> u64" where
  "contains bl host hits =
     (case bl of
        None \<Rightarrow> (False, hits)
      | Some keys \<Rightarrow>
          if any_suffix (fst_contains keys) (split_on CHR ''.'' (normalize_host host))
          then (True, hits + 1) else (False, hits))"

definition blocklist_len :: "blocklist \<Rightarrow> nat" where
  "blocklist_len bl = (case bl of None \<Rightarrow> 0 | Some keys \<Rightarrow> fst_len keys)"

definition blocklist_is_empty :: "blocklist \<Rightarrow> bool" where
  "blocklist_is_empty bl \<longleftrightarrow> blocklist_len bl = 0"

text \<open>\<open>BTreeSet<String>\<close> as its sorted list of keys; strings compare bytewise.\<close>

definition btree_insert :: "string \<Rightarrow> string list \<Rightarrow> string list" where
  "btree_insert = insort_insert"

fun insert_all :: "string list \<Rightarrow> string list \<Rightarrow> string list" where
  "insert_all [] acc = acc"
| "insert_all (k # ks) acc = insert_all ks (btree_insert k acc)"

text \<open>
  The loop of \<open>compile_hosts\<close> over the texts of its inputs; one that does not exist is skipped.
\<close>

fun compile_lines :: "string list \<Rightarrow> string list \<Rightarrow> string list" where
  "compile_lines [] acc = acc"
| "compile_lines (line # rest) acc = compile_lines rest (insert_all (parse_hosts_line line) acc)"

fun compile_inputs :: "string option list \<Rightarrow> string list \<Rightarrow> string list" where
  "compile_inputs [] acc = acc"
| "compile_inputs (None # rest) acc = compile_inputs rest acc"
| "compile_inputs (Some text # rest) acc = compile_inputs rest (compile_lines (rust_lines text) acc)"

text \<open>\<open>validate_hosts_file\<close>: strict, so one bad candidate or a line with only an address fails.\<close>

fun add_strict :: "string list \<Rightarrow> string list \<Rightarrow> string list option" where
  "add_strict [] acc = Some acc"
| "add_strict (c # cs) acc =
     (case normalize_domain c of None \<Rightarrow> None | Some d \<Rightarrow> add_strict cs (btree_insert d acc))"

fun validate_lines :: "path \<Rightarrow> nat \<Rightarrow> string list \<Rightarrow> string list \<Rightarrow> string + nat" where
  "validate_lines path index [] acc = Inr (length acc)"
| "validate_lines path index (line # rest) acc =
     (let content = line_content line
      in if content = [] then validate_lines path (Suc index) rest acc
         else let candidates = line_candidates content
              in if candidates = []
                 then Inl (path @ '':'' @ show_nat (index + 1) @ '' does not contain a hostname'')
                 else (case add_strict candidates acc of
                         None \<Rightarrow> Inl (path @ '':'' @ show_nat (index + 1) @
                                      '' contains an invalid hostname'')
                       | Some acc' \<Rightarrow> validate_lines path (Suc index) rest acc'))"

section \<open>Facts\<close>

subsection \<open>Lookup\<close>

lemma any_suffix_iff: "any_suffix P ls \<longleftrightarrow> (\<exists>i < length ls. P (join ''.'' (drop i ls)))"
  by (induction ls) (auto simp: less_Suc_eq_0_disj)

definition covers :: "(string \<Rightarrow> bool) \<Rightarrow> string \<Rightarrow> bool" where
  "covers P host \<longleftrightarrow> (\<exists>d. P d \<and> (host = d \<or> suffix (CHR ''.'' # d) host))"

lemma any_suffix_covers: "any_suffix P (split_on CHR ''.'' host) \<longleftrightarrow> covers P host"
proof -
  have "any_suffix P (split_on CHR ''.'' host) \<longleftrightarrow>
      (\<exists>d. P d \<and> (\<exists>i < length (split_on CHR ''.'' host). d = join ''.'' (drop i (split_on CHR ''.'' host))))"
    by (auto simp: any_suffix_iff)
  then show ?thesis
    unfolding split_on_suffixes covers_def by (auto simp: suffix_def)
qed

lemma contains_eq:
  "contains (Some keys) host hits =
     (if covers (fst_contains keys) (normalize_host host) then (True, hits + 1) else (False, hits))"
  by (simp add: contains_def any_suffix_covers)

lemma contains_None [simp]: "contains None host hits = (False, hits)"
  by (simp add: contains_def)

subsection \<open>Normal forms\<close>

lemma leading_None:
  "s \<noteq> [] \<Longrightarrow> \<forall>w \<in> set ws. w \<noteq> [] \<longrightarrow> hd w \<noteq> hd s \<Longrightarrow> leading ws s = None"
  unfolding leading_def find_None_iff by (cases s) (auto simp: neq_Nil_conv)

lemma strip_leading_None: "leading ws s = None \<Longrightarrow> strip_leading ws s = s"
  by (simp add: strip_leading.simps)

lemma alnum_not_space:
  assumes "is_ascii_alphanumeric c" and "w \<in> set white_space"
  shows "hd w \<noteq> c" and "last w \<noteq> c"
  using assms
  by (auto simp: white_space_def is_ascii_alphanumeric_def is_ascii_digit_def is_ascii_upper_def
      is_ascii_lower_def)

lemma trim_fix:
  assumes "s \<noteq> []" and "is_ascii_alphanumeric (hd s)" and "is_ascii_alphanumeric (last s)"
  shows "trim s = s"
proof -
  have "leading white_space s = None"
    using assms alnum_not_space(1) by (intro leading_None) auto
  then have start: "trim_start s = s"
    by (simp add: trim_start_def strip_leading_None)
  have "leading (map rev white_space) (rev s) = None"
    using assms alnum_not_space(2) by (intro leading_None) (auto simp: hd_rev)
  then show ?thesis
    by (simp add: trim_def start trim_end_def strip_leading_None)
qed

lemma trim_end_matches_fix: "s \<noteq> [] \<Longrightarrow> last s \<noteq> c \<Longrightarrow> trim_end_matches c s = s"
proof -
  assume "s \<noteq> []" "last s \<noteq> c"
  then obtain x xs where "rev s = x # xs" "x \<noteq> c"
    by (cases "rev s") (auto simp: last_rev [symmetric])
  then have "rev (dropWhile (\<lambda>x. x = c) (rev s)) = rev (x # xs)" by simp
  with \<open>rev s = x # xs\<close> show ?thesis
    by (metis rev_rev_ident trim_end_matches_def)
qed

lemma hd_join: "ps \<noteq> [] \<Longrightarrow> hd ps \<noteq> [] \<Longrightarrow> hd (join sep ps) = hd (hd ps)"
  by (cases "tl ps"; cases ps) auto

lemma last_join: "ps \<noteq> [] \<Longrightarrow> last ps \<noteq> [] \<Longrightarrow> join sep ps \<noteq> [] \<and> last (join sep ps) = last (last ps)"
  by (induction ps rule: induct_list012) (auto simp: last_append)

lemma valid_host_ends:
  assumes "list_all valid_label (split_on CHR ''.'' d)"
  shows "d \<noteq> []" and "is_ascii_alphanumeric (hd d)" and "is_ascii_alphanumeric (last d)"
proof -
  let ?ps = "split_on CHR ''.'' d"
  have "valid_label (hd ?ps)" "valid_label (last ?ps)"
    using assms by (auto simp: list_all_iff)
  then show "d \<noteq> []" "is_ascii_alphanumeric (hd d)" "is_ascii_alphanumeric (last d)"
    using hd_join [of ?ps "''.''"] last_join [of ?ps "''.''"] by (auto simp: valid_label_def)
qed

lemma normalize_domain_Some:
  "normalize_domain c = Some d \<longleftrightarrow>
     d = normalize_host c \<and> d \<noteq> ''localhost'' \<and> CHR ''.'' \<in> set d \<and> length d \<le> 253
     \<and> parse_ip_addr d = None \<and> list_all valid_label (split_on CHR ''.'' d)"
  by (auto simp: normalize_domain_def Let_def)

lemma normalize_host_fix:
  assumes "normalize_domain c = Some d"
  shows "normalize_host d = d"
proof -
  from assms have v: "list_all valid_label (split_on CHR ''.'' d)" and d: "d = normalize_host c"
    unfolding normalize_domain_Some by blast+
  note ends = valid_host_ends [OF v]
  have "last d \<noteq> CHR ''.''"
    using ends(3) by (auto simp: is_ascii_alphanumeric_def is_ascii_digit_def is_ascii_upper_def is_ascii_lower_def)
  with ends have "trim_end_matches CHR ''.'' (trim d) = d"
    by (simp add: trim_fix trim_end_matches_fix)
  moreover have "to_ascii_lowercase d = d"
    by (simp add: d normalize_host_def)
  ultimately show ?thesis by (simp add: normalize_host_def)
qed

lemma normalize_domain_idem: "normalize_domain c = Some d \<Longrightarrow> normalize_domain d = Some d"
  by (metis normalize_domain_Some normalize_host_fix)

subsection \<open>Compilation\<close>

lemma set_btree_insert [simp]: "set (btree_insert k ks) = insert k (set ks)"
  by (simp add: btree_insert_def set_insort_insert)

definition btree_ok :: "string list \<Rightarrow> bool" where
  "btree_ok ks \<longleftrightarrow> sorted ks \<and> distinct ks"

lemma btree_ok_Nil [simp]: "btree_ok []"
  by (simp add: btree_ok_def)

lemma btree_ok_insert [simp]: "btree_ok ks \<Longrightarrow> btree_ok (btree_insert k ks)"
  by (simp add: btree_ok_def btree_insert_def sorted_insort_insert distinct_insort_insert)

lemma insert_all_props [simp]:
  "set (insert_all ks acc) = set ks \<union> set acc" "btree_ok acc \<Longrightarrow> btree_ok (insert_all ks acc)"
  by (induction ks arbitrary: acc) auto

lemma compile_lines_props [simp]:
  "set (compile_lines ls acc) = (\<Union>l \<in> set ls. set (parse_hosts_line l)) \<union> set acc"
  "btree_ok acc \<Longrightarrow> btree_ok (compile_lines ls acc)"
  by (induction ls arbitrary: acc) auto

definition input_hosts :: "string option list \<Rightarrow> string set" where
  "input_hosts inputs = {d. \<exists>text l. Some text \<in> set inputs \<and> l \<in> set (rust_lines text) \<and>
     d \<in> set (parse_hosts_line l)}"

lemma compile_inputs_props:
  "set (compile_inputs inputs acc) = input_hosts inputs \<union> set acc"
  "btree_ok acc \<Longrightarrow> btree_ok (compile_inputs inputs acc)"
  by (induction inputs acc rule: compile_inputs.induct) (auto simp: input_hosts_def)

lemma parse_hosts_line_domain:
  "d \<in> set (parse_hosts_line l) \<Longrightarrow> \<exists>c. normalize_domain c = Some d"
  by (auto simp: parse_hosts_line_def Let_def map_filter_def split: if_splits)

lemma add_strict_eq:
  "add_strict cs acc = Some acc' \<Longrightarrow> acc' = insert_all (List.map_filter normalize_domain cs) acc"
  by (induction cs arbitrary: acc) (auto simp: map_filter_simps split: option.splits)

lemma validate_lines_eq:
  "validate_lines path i ls acc = Inr n \<Longrightarrow> n = length (compile_lines ls acc)"
proof (induction ls arbitrary: i acc)
  case (Cons l ls)
  show ?case
  proof (cases "line_content l = []")
    case True
    with Cons show ?thesis by (simp add: parse_hosts_line_def)
  next
    case False
    with Cons.prems obtain acc' where
      "add_strict (line_candidates (line_content l)) acc = Some acc'"
      "validate_lines path (Suc i) ls acc' = Inr n"
      by (auto simp: Let_def split: if_splits option.splits)
    with False Cons.IH show ?thesis
      by (auto simp: parse_hosts_line_def dest: add_strict_eq)
  qed
qed simp

section \<open>Properties\<close>

text \<open>A set's observations agree on the keys it holds.\<close>

definition fst_holds :: "fst_set \<Rightarrow> string list \<Rightarrow> bool" where
  "fst_holds S ks \<longleftrightarrow> fst_contains S = (\<lambda>k. k \<in> set ks) \<and> fst_len S = length ks \<and> fst_keys S = ks"

definition list_fst :: "string list \<Rightarrow> fst_set" where
  "list_fst ks = \<lparr>fst_contains = (\<lambda>k. k \<in> set ks), fst_len = length ks, fst_keys = ks\<rparr>"

lemma list_fst_holds: "fst_holds (list_fst ks) ks"
  by (simp add: fst_holds_def list_fst_def)

lemma length_btree: "btree_ok ks \<Longrightarrow> length ks = card (set ks)"
  by (simp add: btree_ok_def distinct_card)

text \<open>
  C34. A host is blocked exactly when its normal form, or a parent domain of it, is a key of the
  compiled set; a hit counts once (wrapping at 64 bits) and a miss leaves the counter alone.
\<close>

theorem lookup_hits_host_and_subdomains:
  "contains (Some S) host hits =
     (if (\<exists>d. fst_contains S d \<and>
            (normalize_host host = d \<or> suffix (CHR ''.'' # d) (normalize_host host)))
      then (True, hits + 1) else (False, hits))"
  by (simp add: contains_eq covers_def)

lemma example_content: "line_content ''0.0.0.0 Ads.example.com # x'' = ''0.0.0.0 Ads.example.com''"
  by (simp add: line_content_def str_eval)
lemma example_words: "split_whitespace ''0.0.0.0 Ads.example.com'' = [''0.0.0.0'', ''Ads.example.com'']"
  by (simp add: str_eval)
lemma example_zero_addr: "parse_ip_addr ''0.0.0.0'' = Some (V4 0 0 0 0)"
  by (simp add: net_eval)
lemma example_candidates: "line_candidates ''0.0.0.0 Ads.example.com'' = [''Ads.example.com'']"
  by (simp add: line_candidates_def example_words example_zero_addr)
lemma example_host: "normalize_host ''Ads.example.com'' = ''ads.example.com''"
  by (simp add: normalize_host_def str_eval)
lemma example_no_addr: "parse_ip_addr ''ads.example.com'' = None"
  by (simp add: net_eval)
lemma example_domain: "normalize_domain ''Ads.example.com'' = Some ''ads.example.com''"
  by (simp add: normalize_domain_def example_host example_no_addr valid_label_def is_ascii_alphanumeric_def
      is_ascii_digit_def is_ascii_upper_def is_ascii_lower_def)
lemma example_line: "parse_hosts_line ''0.0.0.0 Ads.example.com # x'' = [''ads.example.com'']"
  by (simp add: parse_hosts_line_def example_content example_candidates example_domain map_filter_def)

text \<open>
  A name accepted from a hosts line is already in normal form: looking it up finds it as it
  stands, and accepting it again gives it back.
\<close>

theorem accepted_name_is_normal:
  "normalize_domain c = Some d \<Longrightarrow> normalize_host d = d \<and> normalize_domain d = Some d"
  by (simp add: normalize_host_fix normalize_domain_idem)

theorem accepted_name_is_normal_witness:
  "normalize_domain ''Ads.example.com'' = Some ''ads.example.com'' \<and>
   normalize_host ''ads.example.com'' = ''ads.example.com''"
  using accepted_name_is_normal [OF example_domain] example_domain by blast

end
