(* ===== verification/Session.thy ===== *)
theory Session
  imports Backend Blocklist
begin

text \<open>
  \<open>src/session.rs\<close>: the one disposable browsing session. \<open>'b sess\<close> is everything the manager
  shares: the machine, the data behind its lock, the published events and the block counter.
  An operation of the model is the whole body of a method, run with the lifecycle lock of
  \<open>AppState\<close> held, which the daemon's callers of start, burn, navigate and switch_egress do.
  Both backends are arbitrary operations on the machine unless a theorem says more.
\<close>

section \<open>State\<close>

record history_entry =
  he_url :: url
  he_visited_at :: nat

record session_data =
  sd_snapshot :: session_snapshot
  sd_controller :: "uuid option"
  sd_history :: "history_entry list"
  sd_last_activity :: nat

record server_event =
  ev_event :: string
  ev_at :: nat
  ev_session :: session_snapshot

record 'b session_manager =
  sm_browser :: "'b browser_backend"
  sm_egress :: "'b egress_backend"
  sm_runtime_dir :: path
  sm_initial_egress :: egress_mode
  sm_initial_profile :: stream_profile
  sm_initial_auto_burn :: u64
  sm_blocklist :: blocklist

record 'b sess =
  ss_mach :: "'b machine"
  ss_data :: session_data
  ss_events :: "server_event list"
  ss_hits :: u64

definition initial_snapshot :: "'b session_manager \<Rightarrow> session_snapshot" where
  "initial_snapshot m = snapshot_default\<lparr>sn_egress := sm_initial_egress m,
     sn_stream_profile := sm_initial_profile m, sn_auto_burn_seconds := sm_initial_auto_burn m\<rparr>"

definition session_new :: "'b session_manager \<Rightarrow> 'b machine \<Rightarrow> 'b sess" where
  "session_new m h = \<lparr>ss_mach = h,
     ss_data = \<lparr>sd_snapshot = initial_snapshot m, sd_controller = None, sd_history = [],
                sd_last_activity = m_instant h\<rparr>,
     ss_events = [], ss_hits = 0\<rparr>"

definition session_op :: "('b machine, 'e, 'a) op \<Rightarrow> ('b sess, 'e, 'a) op" where
  "session_op m s = (case m (ss_mach s) of (r, h) \<Rightarrow> (r, s\<lparr>ss_mach := h\<rparr>))"

definition update_data :: "(session_data \<Rightarrow> session_data) \<Rightarrow> ('b sess, 'e, unit) op" where
  "update_data f = modify (\<lambda>s. s\<lparr>ss_data := f (ss_data s)\<rparr>)"

definition update_snapshot :: "(session_snapshot \<Rightarrow> session_snapshot) \<Rightarrow> ('b sess, 'e, unit) op" where
  "update_snapshot f = update_data (\<lambda>d. d\<lparr>sd_snapshot := f (sd_snapshot d)\<rparr>)"

definition get_snapshot :: "('b sess, 'e, session_snapshot) op" where
  "get_snapshot = gets (\<lambda>s. sd_snapshot (ss_data s))"

definition touch :: "('b sess, 'e, unit) op" where
  "touch = modify (\<lambda>s. s\<lparr>ss_data := (ss_data s)\<lparr>sd_last_activity := m_instant (ss_mach s)\<rparr>\<rparr>)"

definition stamp_started :: "('b sess, 'e, unit) op" where
  "stamp_started = modify (\<lambda>s. s\<lparr>ss_data := (ss_data s)\<lparr>sd_snapshot :=
     (sd_snapshot (ss_data s))\<lparr>sn_started_at := Some (m_utc (ss_mach s))\<rparr>\<rparr>\<rparr>)"

text \<open>\<open>EventBus::publish\<close> with the current snapshot.\<close>

definition publish :: "string \<Rightarrow> ('b sess, 'e, unit) op" where
  "publish event = modify (\<lambda>s. s\<lparr>ss_events := ss_events s @ [\<lparr>ev_event = event,
     ev_at = m_utc (ss_mach s), ev_session = sd_snapshot (ss_data s)\<rparr>]\<rparr>)"

section \<open>Leases, history and the navigation filter\<close>

definition acquire_lease :: "uuid \<Rightarrow> session_data \<Rightarrow> session_data res" where
  "acquire_lease client d =
     (if (case sd_controller d of None \<Rightarrow> False | Some current \<Rightarrow> current \<noteq> client)
      then Inl LeaseConflict else Inr (d\<lparr>sd_controller := Some client\<rparr>))"

definition ensure_lease :: "uuid \<Rightarrow> session_data \<Rightarrow> unit res" where
  "ensure_lease client d = (if sd_controller d = Some client then Inr () else Inl LeaseConflict)"

definition ensure_active_lease :: "uuid \<Rightarrow> session_data \<Rightarrow> unit res" where
  "ensure_active_lease client d =
     (case ensure_lease client d of
        Inl e \<Rightarrow> Inl e
      | Inr _ \<Rightarrow> if sn_phase (sd_snapshot d) \<noteq> Active then Inl SessionNotActive else Inr ())"

definition history_capacity :: nat where "history_capacity = 128"

definition push_entry :: "history_entry \<Rightarrow> history_entry list \<Rightarrow> history_entry list" where
  "push_entry e h = (if length h = history_capacity then tl h else h) @ [e]"

definition push_history :: "url \<Rightarrow> ('b sess, 'e, unit) op" where
  "push_history u = modify (\<lambda>s. s\<lparr>ss_data := (ss_data s)\<lparr>sd_history :=
     push_entry \<lparr>he_url = u, he_visited_at = m_utc (ss_mach s)\<rparr> (sd_history (ss_data s))\<rparr>\<rparr>)"

definition ensure_navigation_allowed ::
  "'b session_manager \<Rightarrow> url \<Rightarrow> bool \<Rightarrow> ('b sess, app_error, unit) op" where
  "ensure_navigation_allowed m u enabled =
     (if enabled \<and> (url_scheme u = ''http'' \<or> url_scheme u = ''https'')
      then (case url_host_str u of
              None \<Rightarrow> ret ()
            | Some host \<Rightarrow> (\<lambda>s. case contains (sm_blocklist m) host (ss_hits s) of (hit, hits) \<Rightarrow>
                (if hit then Inl NavigationBlocked else Inr (), s\<lparr>ss_hits := hits\<rparr>)))
      else ret ())"

section \<open>The runtime directory\<close>

definition unsafe_runtime_path :: "path \<Rightarrow> bool" where
  "unsafe_runtime_path p \<longleftrightarrow>
     \<not> is_absolute p \<or> components p = [RootDir] \<or> length (components p) < 3 \<or>
     list_ex (\<lambda>c. c = ParentDir \<or> c = CurDir) (components p)"

definition clear_entry :: "path_component list \<Rightarrow> ('b machine, string, unit) op" where
  "clear_entry q =
     and_then (entry_type q) (\<lambda>n.
       case n of DirNode \<Rightarrow> remove_dir_all q | _ \<Rightarrow> remove_file q)"

definition clear_runtime_dir :: "path \<Rightarrow> ('b machine, string, unit) op" where
  "clear_runtime_dir p =
     (if unsafe_runtime_path p
      then raise (''refusing to clear unsafe runtime path '' @ p)
      else
        let dir = components p
        in and_then (create_dir_all dir) (\<lambda>_.
           and_then (symlink_metadata dir) (\<lambda>n.
             case n of
               LinkNode _ \<Rightarrow> raise (''refusing to clear symlinked runtime path '' @ p)
             | _ \<Rightarrow> and_then (read_dir dir) (\<lambda>entries. steps (map clear_entry entries)))))"

section \<open>Operations\<close>

text \<open>
  The message of a cleanup step that failed, for the failure texts the methods collect: an
  empty list when it did not.
\<close>

definition failure_of :: "string \<Rightarrow> ('b sess, string, 'a) op \<Rightarrow> ('b sess, 'e, string list) op" where
  "failure_of label m =
     and_then (attempt m) (\<lambda>r. ret (case r of Inl e \<Rightarrow> [label @ '': '' @ e] | Inr _ \<Rightarrow> []))"

definition stop_browser :: "'b session_manager \<Rightarrow> ('b sess, 'e, string list) op" where
  "stop_browser m =
     failure_of ''browser stop'' (map_err error_text (session_op (br_stop (sm_browser m))))"

definition reset_egress :: "'b session_manager \<Rightarrow> ('b sess, 'e, string list) op" where
  "reset_egress m =
     failure_of ''egress reset'' (map_err error_text (session_op (eg_reset (sm_egress m))))"

definition clean_session :: "'b session_manager \<Rightarrow> ('b sess, 'e, string list) op" where
  "clean_session m =
     failure_of ''session cleanup'' (session_op (clear_runtime_dir (sm_runtime_dir m)))"

definition fail :: "string \<Rightarrow> ('b sess, app_error, 'a) op" where
  "fail message =
     and_then (update_snapshot (\<lambda>n. n\<lparr>sn_phase := Failed, sn_failure := Some message\<rparr>)) (\<lambda>_.
     and_then (publish ''session.failed'') (\<lambda>_. raise (ServiceUnavailable message)))"

definition begin_start ::
  "'b session_manager \<Rightarrow> uuid \<Rightarrow> url \<Rightarrow> ('b sess, app_error, uuid \<times> stream_profile \<times> egress_mode) op" where
  "begin_start m client u =
     and_then get_snapshot (\<lambda>n.
       if sn_phase n \<noteq> Idle \<and> sn_phase n \<noteq> Failed then raise InvalidTransition
       else
         and_then (ensure_navigation_allowed m u (sn_blocklist_enabled n)) (\<lambda>_.
         and_then (gets ss_data) (\<lambda>d.
         and_then (from_result (acquire_lease client d)) (\<lambda>d'.
         and_then (update_data (\<lambda>_. d')) (\<lambda>_.
         and_then (session_op new_v4) (\<lambda>id.
         and_then (update_snapshot (\<lambda>n. n\<lparr>sn_id := Some id, sn_phase := Starting, sn_url := Some u\<rparr>)) (\<lambda>_.
         and_then stamp_started (\<lambda>_.
         and_then (update_snapshot (\<lambda>n. n\<lparr>sn_failure := None, sn_controller_attached := True\<rparr>)) (\<lambda>_.
         and_then touch (\<lambda>_.
         and_then get_snapshot (\<lambda>n. ret (id, sn_stream_profile n, sn_egress n))))))))))))"

definition start ::
  "'b session_manager \<Rightarrow> uuid \<Rightarrow> url \<Rightarrow> ('b sess, app_error, session_snapshot) op" where
  "start m client u =
     and_then (begin_start m client u) (\<lambda>(id, profile, egress).
     and_then (publish ''session.starting'') (\<lambda>_.
     and_then (attempt (session_op (eg_apply (sm_egress m) egress))) (\<lambda>applied.
       case applied of
         Inl e \<Rightarrow>
           and_then (reset_egress m) (\<lambda>f1.
           and_then (clean_session m) (\<lambda>f2.
             fail (join ''; '' ((''egress apply: '' @ error_text e) # f1 @ f2))))
       | Inr _ \<Rightarrow>
           and_then (attempt (session_op (br_start (sm_browser m) id u profile egress))) (\<lambda>started.
             case started of
               Inl e \<Rightarrow>
                 and_then (stop_browser m) (\<lambda>f1.
                 and_then (reset_egress m) (\<lambda>f2.
                 and_then (clean_session m) (\<lambda>f3.
                   fail (join ''; '' ((''browser start: '' @ error_text e) # f1 @ f2 @ f3)))))
             | Inr _ \<Rightarrow>
                 and_then (update_snapshot (\<lambda>n. n\<lparr>sn_phase := Active\<rparr>)) (\<lambda>_.
                 and_then (push_history u) (\<lambda>_.
                 and_then (publish ''session.active'') (\<lambda>_. get_snapshot)))))))"

definition burn_unchecked :: "'b session_manager \<Rightarrow> ('b sess, app_error, session_snapshot) op" where
  "burn_unchecked m =
     and_then get_snapshot (\<lambda>n.
       if sn_phase n = Idle then ret n
       else
         and_then (update_snapshot (\<lambda>n. n\<lparr>sn_phase := Burning\<rparr>)) (\<lambda>_.
         and_then (publish ''session.burning'') (\<lambda>_.
         and_then (stop_browser m) (\<lambda>f1.
         and_then (reset_egress m) (\<lambda>f2.
         and_then (clean_session m) (\<lambda>f3.
         and_then (update_data (\<lambda>d. d\<lparr>sd_snapshot := initial_snapshot m, sd_controller := None,
                                      sd_history := []\<rparr>)) (\<lambda>_.
         and_then touch (\<lambda>_.
           let failures = f1 @ f2 @ f3; message = join ''; '' failures
           in if failures \<noteq> []
              then
                and_then (update_snapshot (\<lambda>n. n\<lparr>sn_phase := Failed, sn_failure := Some message\<rparr>)) (\<lambda>_.
                and_then (publish ''session.burn_failed'') (\<lambda>_.
                  raise (ServiceUnavailable message)))
              else and_then (publish ''session.idle'') (\<lambda>_. get_snapshot)))))))))"

definition burn :: "'b session_manager \<Rightarrow> uuid \<Rightarrow> ('b sess, app_error, session_snapshot) op" where
  "burn m client =
     and_then (gets ss_data) (\<lambda>d.
     and_then (from_result (ensure_lease client d)) (\<lambda>_. burn_unchecked m))"

definition force_burn :: "'b session_manager \<Rightarrow> ('b sess, app_error, session_snapshot) op" where
  "force_burn m = burn_unchecked m"

definition ensure_controller :: "uuid \<Rightarrow> ('b sess, app_error, unit) op" where
  "ensure_controller client =
     and_then (gets ss_data) (\<lambda>d. from_result (ensure_active_lease client d))"

definition navigate ::
  "'b session_manager \<Rightarrow> uuid \<Rightarrow> navigation_command \<Rightarrow> ('b sess, app_error, session_snapshot) op" where
  "navigate m client command =
     and_then (ensure_controller client) (\<lambda>_.
     and_then touch (\<lambda>_.
     and_then get_snapshot (\<lambda>n.
     and_then (case command of
                 Navigate u \<Rightarrow> ensure_navigation_allowed m u (sn_blocklist_enabled n)
               | _ \<Rightarrow> ret ()) (\<lambda>_.
     and_then (session_op (br_navigate (sm_browser m) command)) (\<lambda>_.
     and_then (case command of
                 Navigate u \<Rightarrow>
                   and_then (update_snapshot (\<lambda>n. n\<lparr>sn_url := Some u\<rparr>)) (\<lambda>_. push_history u)
               | _ \<Rightarrow> ret ()) (\<lambda>_.
     and_then (publish ''session.navigation'') (\<lambda>_. get_snapshot)))))))"

text \<open>The three settings share their shape: lease, one field, activity, event.\<close>

definition change_setting ::
  "uuid \<Rightarrow> (session_snapshot \<Rightarrow> session_snapshot) \<Rightarrow> string \<Rightarrow> ('b sess, app_error, session_snapshot) op" where
  "change_setting client f event =
     and_then (ensure_controller client) (\<lambda>_.
     and_then (update_snapshot f) (\<lambda>_.
     and_then touch (\<lambda>_.
     and_then (publish event) (\<lambda>_. get_snapshot))))"

definition set_stream_profile ::
  "uuid \<Rightarrow> stream_profile \<Rightarrow> ('b sess, app_error, session_snapshot) op" where
  "set_stream_profile client profile =
     change_setting client (\<lambda>n. n\<lparr>sn_stream_profile := profile\<rparr>) ''stream.profile''"

definition set_blocklist_enabled ::
  "uuid \<Rightarrow> bool \<Rightarrow> ('b sess, app_error, session_snapshot) op" where
  "set_blocklist_enabled client enabled =
     change_setting client (\<lambda>n. n\<lparr>sn_blocklist_enabled := enabled\<rparr>) ''blocklist.setting''"

definition set_auto_burn_seconds ::
  "uuid \<Rightarrow> u64 \<Rightarrow> ('b sess, app_error, session_snapshot) op" where
  "set_auto_burn_seconds client seconds =
     (if 86400 < seconds
      then raise (InvalidRequest ''auto-burn must be zero or no more than 86400 seconds'')
      else change_setting client (\<lambda>n. n\<lparr>sn_auto_burn_seconds := seconds\<rparr>) ''auto_burn.setting'')"

text \<open>
  \<open>switch_egress\<close> stops the browser, resets and cleans, and starts again under the new policy;
  when any step fails it does the same for the previous policy.
\<close>

definition clear_session_dir :: "'b session_manager \<Rightarrow> string \<Rightarrow> ('b sess, app_error, unit) op" where
  "clear_session_dir m label =
     map_err (\<lambda>e. ServiceUnavailable (label @ '': '' @ e))
       (session_op (clear_runtime_dir (sm_runtime_dir m)))"

definition try_switch ::
  "'b session_manager \<Rightarrow> uuid \<Rightarrow> url \<Rightarrow> stream_profile \<Rightarrow> egress_mode \<Rightarrow> ('b sess, app_error, unit) op" where
  "try_switch m new_id u profile mode =
     and_then (session_op (br_stop (sm_browser m))) (\<lambda>_.
     and_then (session_op (eg_reset (sm_egress m))) (\<lambda>_.
     and_then (clear_session_dir m ''session cleanup'') (\<lambda>_.
     and_then (session_op (eg_apply (sm_egress m) mode)) (\<lambda>_.
       session_op (br_start (sm_browser m) new_id u profile mode)))))"

definition try_rollback ::
  "'b session_manager \<Rightarrow> uuid \<Rightarrow> url \<Rightarrow> stream_profile \<Rightarrow> egress_mode \<Rightarrow> ('b sess, app_error, unit) op" where
  "try_rollback m rollback_id u profile previous =
     and_then (attempt (session_op (br_stop (sm_browser m)))) (\<lambda>_.
     and_then (session_op (eg_reset (sm_egress m))) (\<lambda>_.
     and_then (clear_session_dir m ''rollback cleanup'') (\<lambda>_.
     and_then (session_op (eg_apply (sm_egress m) previous)) (\<lambda>_.
       session_op (br_start (sm_browser m) rollback_id u profile previous)))))"

definition clear_history :: "('b sess, 'e, unit) op" where
  "clear_history = update_data (\<lambda>d. d\<lparr>sd_history := []\<rparr>)"

definition finish_rollback ::
  "'b session_manager \<Rightarrow> url \<Rightarrow> stream_profile \<Rightarrow> egress_mode \<Rightarrow> app_error \<Rightarrow>
     ('b sess, app_error, session_snapshot) op" where
  "finish_rollback m u profile previous switch_error =
     and_then (session_op new_v4) (\<lambda>rollback_id.
     and_then (attempt (try_rollback m rollback_id u profile previous)) (\<lambda>rolled.
     and_then clear_history (\<lambda>_.
       case rolled of
         Inl rollback_error \<Rightarrow>
           let message = ''egress switch failed: '' @ error_text switch_error @
             ''; rollback failed: '' @ error_text rollback_error
           in and_then (update_snapshot (\<lambda>n. n\<lparr>sn_phase := Failed, sn_failure := Some message\<rparr>)) (\<lambda>_.
              and_then (publish ''egress.failed'') (\<lambda>_. raise (ServiceUnavailable message)))
       | Inr _ \<Rightarrow>
           and_then (update_snapshot (\<lambda>n. n\<lparr>sn_id := Some rollback_id, sn_phase := Active,
                                            sn_egress := previous\<rparr>)) (\<lambda>_.
           and_then stamp_started (\<lambda>_.
           and_then (update_snapshot (\<lambda>n. n\<lparr>sn_failure := None\<rparr>)) (\<lambda>_.
           and_then (push_history u) (\<lambda>_.
           and_then touch (\<lambda>_.
           and_then (publish ''egress.rolled_back'') (\<lambda>_.
             raise (ServiceUnavailable (''egress switch failed and was rolled back: '' @
               error_text switch_error)))))))))))"

definition switch_egress ::
  "'b session_manager \<Rightarrow> uuid \<Rightarrow> egress_mode \<Rightarrow> ('b sess, app_error, session_snapshot) op" where
  "switch_egress m client mode =
     and_then (ensure_controller client) (\<lambda>_.
     and_then (update_snapshot (\<lambda>n. n\<lparr>sn_phase := Burning\<rparr>)) (\<lambda>_.
     and_then get_snapshot (\<lambda>n.
     and_then (case sn_url n of None \<Rightarrow> raise SessionNotActive | Some u \<Rightarrow> ret u) (\<lambda>u.
     and_then (publish ''egress.switching'') (\<lambda>_.
     and_then (session_op new_v4) (\<lambda>new_id.
     and_then (attempt (try_switch m new_id u (sn_stream_profile n) mode)) (\<lambda>switched.
       case switched of
         Inl switch_error \<Rightarrow> finish_rollback m u (sn_stream_profile n) (sn_egress n) switch_error
       | Inr _ \<Rightarrow>
           and_then (update_snapshot (\<lambda>n. n\<lparr>sn_id := Some new_id, sn_egress := mode,
                                            sn_phase := Active\<rparr>)) (\<lambda>_.
           and_then stamp_started (\<lambda>_.
           and_then clear_history (\<lambda>_.
           and_then (push_history u) (\<lambda>_.
           and_then touch (\<lambda>_.
           and_then (publish ''egress.active'') (\<lambda>_. get_snapshot)))))))))))))"

definition idle_for :: "('b sess, 'e, nat) op" where
  "idle_for = gets (\<lambda>s. m_instant (ss_mach s) - sd_last_activity (ss_data s))"

section \<open>Facts\<close>

subsection \<open>Running the operations\<close>

lemma wp_session_op [wp_rules]:
  "wp (session_op m) Q s = Q (fst (m (ss_mach s))) (s\<lparr>ss_mach := snd (m (ss_mach s))\<rparr>)"
  by (simp add: wp_def session_op_def split: prod.splits)

declare new_v4_def [wp_rules]

definition failures :: "string \<Rightarrow> string + 'a \<Rightarrow> string list" where
  "failures label r = (case r of Inl e \<Rightarrow> [label @ '': '' @ e] | Inr _ \<Rightarrow> [])"

lemma failures_Nil [simp]: "failures label r = [] \<longleftrightarrow> (\<exists>a. r = Inr a)"
  by (cases r) (simp_all add: failures_def)

lemma wp_failure_of [wp_rules]:
  "wp (failure_of label m) Q s = wp m (\<lambda>r. Q (Inr (failures label r))) s"
  by (simp add: failure_of_def failures_def wp_def attempt_def and_then_def ret_def
      split: prod.splits)

definition as_text :: "app_error + 'a \<Rightarrow> string + 'a" where
  "as_text r = (case r of Inl e \<Rightarrow> Inl (error_text e) | Inr a \<Rightarrow> Inr a)"

lemma as_text_Inr [simp]: "as_text r = Inr a \<longleftrightarrow> r = Inr a"
  by (cases r) (simp_all add: as_text_def)

lemma wp_stop_browser [wp_rules]:
  "wp (stop_browser m) Q s = (let (r, h) = br_stop (sm_browser m) (ss_mach s)
     in Q (Inr (failures ''browser stop'' (as_text r))) (s\<lparr>ss_mach := h\<rparr>))"
  by (auto simp: stop_browser_def wp_rules as_text_def split: prod.splits sum.splits)

lemma wp_reset_egress [wp_rules]:
  "wp (reset_egress m) Q s = (let (r, h) = eg_reset (sm_egress m) (ss_mach s)
     in Q (Inr (failures ''egress reset'' (as_text r))) (s\<lparr>ss_mach := h\<rparr>))"
  by (auto simp: reset_egress_def wp_rules as_text_def split: prod.splits sum.splits)

lemma wp_clean_session [wp_rules]:
  "wp (clean_session m) Q s = (let (r, h) = clear_runtime_dir (sm_runtime_dir m) (ss_mach s)
     in Q (Inr (failures ''session cleanup'' r)) (s\<lparr>ss_mach := h\<rparr>))"
  by (auto simp: clean_session_def wp_rules split: prod.splits)

text \<open>The navigation filter as a condition.\<close>

definition blocked :: "'b session_manager \<Rightarrow> url \<Rightarrow> bool \<Rightarrow> bool" where
  "blocked m u enabled \<longleftrightarrow> enabled \<and> (url_scheme u = ''http'' \<or> url_scheme u = ''https'') \<and>
     (case url_host_str u of None \<Rightarrow> False | Some host \<Rightarrow> fst (contains (sm_blocklist m) host 0))"

lemma contains_pair: "contains bl host hits =
    (fst (contains bl host 0), if fst (contains bl host 0) then hits + 1 else hits)"
  by (simp add: contains_def split: option.splits)

lemma wp_ensure_navigation_allowed [wp_rules]:
  "wp (ensure_navigation_allowed m u enabled) Q s =
     (if blocked m u enabled then Q (Inl NavigationBlocked) (s\<lparr>ss_hits := ss_hits s + 1\<rparr>)
      else Q (Inr ()) s)"
  using contains_pair [of "sm_blocklist m" "the (url_host_str u)" "ss_hits s"]
  by (auto simp: ensure_navigation_allowed_def blocked_def wp_def ret_def split: option.splits)

definition lease_free :: "uuid \<Rightarrow> session_data \<Rightarrow> bool" where
  "lease_free c d \<longleftrightarrow> sd_controller d = None \<or> sd_controller d = Some c"

lemma acquire_lease_eq: "acquire_lease c d =
    (if lease_free c d then Inr (d\<lparr>sd_controller := Some c\<rparr>) else Inl LeaseConflict)"
  by (auto simp: acquire_lease_def lease_free_def split: option.splits)

definition holds_active :: "uuid \<Rightarrow> session_data \<Rightarrow> bool" where
  "holds_active c d \<longleftrightarrow> sd_controller d = Some c \<and> sn_phase (sd_snapshot d) = Active"

lemma ensure_active_lease_eq: "ensure_active_lease c d =
    (if holds_active c d then Inr ()
     else Inl (if sd_controller d = Some c then SessionNotActive else LeaseConflict))"
  by (auto simp: ensure_active_lease_def ensure_lease_def holds_active_def)

lemma wp_ensure_controller [wp_rules]:
  "wp (ensure_controller c) Q s =
     (if holds_active c (ss_data s) then Q (Inr ()) s
      else Q (Inl (if sd_controller (ss_data s) = Some c then SessionNotActive else LeaseConflict)) s)"
  by (simp add: ensure_controller_def wp_and_then wp_gets wp_from_result ensure_active_lease_eq)

lemmas session_prims [wp_rules] = update_data_def update_snapshot_def get_snapshot_def touch_def
  stamp_started_def publish_def push_history_def clear_history_def fail_def clear_session_dir_def

subsection \<open>The invariant\<close>

text \<open>
  Between two operations the session is idle (and then exactly as a new one), active (with a
  lease, an identity and a history that ends in the shown URL), or failed (with its reason and
  no history). It is never left starting or burning, and one with an identity has a lease.
\<close>

definition session_inv :: "'b session_manager \<Rightarrow> session_data \<Rightarrow> bool" where
  "session_inv m d \<longleftrightarrow>
     (case sn_phase (sd_snapshot d) of
        Idle \<Rightarrow> sd_snapshot d = initial_snapshot m \<and> sd_controller d = None \<and> sd_history d = []
      | Active \<Rightarrow> sn_id (sd_snapshot d) \<noteq> None \<and> sn_started_at (sd_snapshot d) \<noteq> None \<and>
          sn_failure (sd_snapshot d) = None \<and> sn_controller_attached (sd_snapshot d) \<and>
          sd_controller d \<noteq> None \<and> sd_history d \<noteq> [] \<and>
          sn_url (sd_snapshot d) = Some (he_url (last (sd_history d)))
      | Failed \<Rightarrow> sn_failure (sd_snapshot d) \<noteq> None \<and> sd_history d = []
      | Starting \<Rightarrow> False
      | Burning \<Rightarrow> False) \<and>
     length (sd_history d) \<le> history_capacity \<and>
     (sn_id (sd_snapshot d) \<noteq> None \<longrightarrow> sd_controller d \<noteq> None)"

lemma push_entry_simps [simp]:
  "push_entry e h \<noteq> []" "last (push_entry e h) = e"
  by (simp_all add: push_entry_def)

lemma length_push_entry: "length h \<le> history_capacity \<Longrightarrow> length (push_entry e h) \<le> history_capacity"
  by (simp add: push_entry_def history_capacity_def)

lemma push_entry_Nil [simp]: "push_entry e [] = [e]"
  by (simp add: push_entry_def history_capacity_def)

lemma phase_initial [simp]: "sn_phase (initial_snapshot m) = Idle" "sn_id (initial_snapshot m) = None"
  by (simp_all add: initial_snapshot_def snapshot_default_def)

lemma wp_True: "wp m (\<lambda>r s. True) s"
  by (simp add: wp_def split: prod.splits)

definition starting :: "uuid \<Rightarrow> uuid \<Rightarrow> url \<Rightarrow> 'b machine \<Rightarrow> session_data \<Rightarrow> session_data" where
  "starting sid c u h d = d\<lparr>
     sd_controller := Some c,
     sd_snapshot := (sd_snapshot d)\<lparr>sn_id := Some sid, sn_phase := Starting, sn_url := Some u,
       sn_started_at := Some (m_utc h), sn_failure := None, sn_controller_attached := True\<rparr>,
     sd_last_activity := m_instant h\<rparr>"

lemma wp_begin_start [wp_rules]:
  "wp (begin_start m c u) Q s =
     (let n = sd_snapshot (ss_data s); h = ss_mach s; sid = m_uuid h (m_uuids h)
      in if sn_phase n \<noteq> Idle \<and> sn_phase n \<noteq> Failed then Q (Inl InvalidTransition) s
         else if blocked m u (sn_blocklist_enabled n)
         then Q (Inl NavigationBlocked) (s\<lparr>ss_hits := ss_hits s + 1\<rparr>)
         else if \<not> lease_free c (ss_data s) then Q (Inl LeaseConflict) s
         else Q (Inr (sid, sn_stream_profile n, sn_egress n))
                (s\<lparr>ss_mach := h\<lparr>m_uuids := Suc (m_uuids h)\<rparr>,
                  ss_data := starting sid c u h (ss_data s)\<rparr>))"
  by (simp add: begin_start_def wp_rules acquire_lease_eq starting_def Let_def)

lemma session_inv_start:
  "session_inv m (ss_data s) \<Longrightarrow> wp (start m c u) (\<lambda>r s'. session_inv m (ss_data s')) s"
  unfolding start_def
  by (auto simp: wp_rules Let_def session_inv_def starting_def length_push_entry
      split: sum.splits prod.splits)

lemma session_inv_initial: "session_inv m \<lparr>sd_snapshot = initial_snapshot m,
    sd_controller = None, sd_history = [], sd_last_activity = t\<rparr>"
  by (simp add: session_inv_def)

lemma session_inv_burn:
  "session_inv m (ss_data s) \<Longrightarrow> wp (burn_unchecked m) (\<lambda>r s'. session_inv m (ss_data s')) s"
  unfolding burn_unchecked_def
  by (auto simp: wp_rules Let_def session_inv_def split: sum.splits prod.splits)

lemma session_inv_navigate:
  "session_inv m (ss_data s) \<Longrightarrow> wp (navigate m c cmd) (\<lambda>r s'. session_inv m (ss_data s')) s"
  unfolding navigate_def
  by (cases cmd) (auto simp: wp_rules holds_active_def session_inv_def length_push_entry
      split: sum.splits)

lemma session_inv_setting:
  assumes inv: "session_inv m (ss_data s)"
    and f: "\<And>n. sn_id (f n) = sn_id n" "\<And>n. sn_phase (f n) = sn_phase n"
      "\<And>n. sn_url (f n) = sn_url n" "\<And>n. sn_started_at (f n) = sn_started_at n"
      "\<And>n. sn_failure (f n) = sn_failure n"
      "\<And>n. sn_controller_attached (f n) = sn_controller_attached n"
  shows "wp (change_setting c f ev) (\<lambda>r s'. session_inv m (ss_data s')) s"
  using inv by (auto simp: change_setting_def wp_rules holds_active_def session_inv_def f)

text \<open>Operations that only run on the machine.\<close>

definition machine_only :: "('b sess, 'e, 'a) op \<Rightarrow> bool" where
  "machine_only m \<longleftrightarrow> (\<forall>s. \<exists>r h. m s = (r, s\<lparr>ss_mach := h\<rparr>))"

lemma machine_only_session_op [keeps_rules]: "machine_only (session_op m)"
  by (auto simp: machine_only_def session_op_def split: prod.splits)

lemma machine_only_and_then [keeps_rules]:
  assumes "machine_only m" and "\<And>a. machine_only (f a)"
  shows "machine_only (and_then m f)"
  unfolding machine_only_def
proof
  fix s
  obtain r h where m: "m s = (r, s\<lparr>ss_mach := h\<rparr>)" using assms(1) unfolding machine_only_def by blast
  show "\<exists>r h. and_then m f s = (r, s\<lparr>ss_mach := h\<rparr>)"
  proof (cases r)
    case (Inl e) with m show ?thesis by (auto simp: and_then_def)
  next
    case (Inr a)
    obtain r' h' where "f a (s\<lparr>ss_mach := h\<rparr>) = (r', s\<lparr>ss_mach := h\<rparr>\<lparr>ss_mach := h'\<rparr>)"
      using assms(2) unfolding machine_only_def by blast
    with m Inr show ?thesis by (auto simp: and_then_def)
  qed
qed

lemma machine_only_attempt [keeps_rules]: "machine_only m \<Longrightarrow> machine_only (attempt m)"
  unfolding machine_only_def attempt_def by (metis (mono_tags) case_prod_conv)

lemma machine_only_map_err [keeps_rules]:
  assumes "machine_only m" shows "machine_only (map_err f m)"
  unfolding machine_only_def
proof
  fix s
  obtain r h where m: "m s = (r, s\<lparr>ss_mach := h\<rparr>)" using assms(1) unfolding machine_only_def by blast
  then show "\<exists>r h. map_err f m s = (r, s\<lparr>ss_mach := h\<rparr>)" by (cases r) (auto simp: map_err_def)
qed

lemma machine_only_try_switch: "machine_only (try_switch m i u p e)"
  unfolding try_switch_def clear_session_dir_def by (intro keeps_rules)

lemma machine_only_try_rollback: "machine_only (try_rollback m i u p e)"
  unfolding try_rollback_def clear_session_dir_def by (intro keeps_rules)

lemma wp_machine_only:
  assumes "machine_only m" and "\<And>r h. m s = (r, s\<lparr>ss_mach := h\<rparr>) \<Longrightarrow> Q r (s\<lparr>ss_mach := h\<rparr>)"
  shows "wp m Q s"
  using assms unfolding machine_only_def wp_def by (metis case_prod_conv)

text \<open>The data after a switch, after a rolled back one and after one that could not be.\<close>

definition resumed :: "uuid \<Rightarrow> url \<Rightarrow> egress_mode \<Rightarrow> bool \<Rightarrow> session_data \<Rightarrow> 'b machine \<Rightarrow> session_data" where
  "resumed sid u mode clear d h = d\<lparr>sd_snapshot := (sd_snapshot d)\<lparr>sn_id := Some sid,
       sn_phase := Active, sn_egress := mode, sn_started_at := Some (m_utc h),
       sn_failure := (if clear then None else sn_failure (sd_snapshot d))\<rparr>,
     sd_history := [\<lparr>he_url = u, he_visited_at = m_utc h\<rparr>],
     sd_last_activity := m_instant h\<rparr>"

lemma finish_rollback_data:
  "wp (finish_rollback m u p previous e) (\<lambda>r s'.
     (\<exists>sid. ss_data s' = resumed sid u previous True (ss_data s) (ss_mach s') \<and>
        try_rollback m sid u p previous
          (s\<lparr>ss_mach := (ss_mach s)\<lparr>m_uuids := Suc (m_uuids (ss_mach s))\<rparr>\<rparr>) =
        (Inr (), s\<lparr>ss_mach := ss_mach s'\<rparr>) \<and>
        r = Inl (ServiceUnavailable (''egress switch failed and was rolled back: '' @ error_text e))) \<or>
     (\<exists>x. ss_data s' = (ss_data s)\<lparr>sd_snapshot := (sd_snapshot (ss_data s))\<lparr>sn_phase := Failed,
        sn_failure := Some x\<rparr>, sd_history := []\<rparr> \<and> r = Inl (ServiceUnavailable x))) s"
  unfolding finish_rollback_def
  by (simp add: wp_rules, rule wp_machine_only [OF machine_only_try_rollback])
    (auto simp: wp_rules Let_def resumed_def split: sum.splits)

lemma switch_egress_data:
  "wp (switch_egress m c mode) (\<lambda>r s'.
     (ss_data s' = ss_data s \<and> \<not> holds_active c (ss_data s) \<and> s' = s \<and>
        r = Inl (if sd_controller (ss_data s) = Some c then SessionNotActive else LeaseConflict)) \<or>
     (holds_active c (ss_data s) \<and> sn_url (sd_snapshot (ss_data s)) = None \<and>
        ss_data s' = (ss_data s)\<lparr>sd_snapshot := (sd_snapshot (ss_data s))\<lparr>sn_phase := Burning\<rparr>\<rparr> \<and>
        r = Inl SessionNotActive) \<or>
     (\<exists>u sid. holds_active c (ss_data s) \<and> sn_url (sd_snapshot (ss_data s)) = Some u \<and>
        ss_data s' = resumed sid u mode False (ss_data s) (ss_mach s') \<and>
        r = Inr (sd_snapshot (ss_data s'))) \<or>
     (\<exists>u sid e. holds_active c (ss_data s) \<and> sn_url (sd_snapshot (ss_data s)) = Some u \<and>
        ss_data s' = resumed sid u (sn_egress (sd_snapshot (ss_data s))) True (ss_data s) (ss_mach s') \<and>
        r = Inl (ServiceUnavailable (''egress switch failed and was rolled back: '' @ error_text e))) \<or>
     (\<exists>x. holds_active c (ss_data s) \<and> ss_data s' = (ss_data s)\<lparr>sd_snapshot :=
        (sd_snapshot (ss_data s))\<lparr>sn_phase := Failed, sn_failure := Some x\<rparr>, sd_history := []\<rparr> \<and>
        r = Inl (ServiceUnavailable x))) s"
proof (cases "holds_active c (ss_data s)")
  case False
  then show ?thesis by (simp add: switch_egress_def wp_rules)
next
  case act: True
  show ?thesis
  proof (cases "sn_url (sd_snapshot (ss_data s))")
    case None
    with act show ?thesis by (simp add: switch_egress_def wp_rules)
  next
    case (Some u)
    let ?n = "sd_snapshot (ss_data s)"
    show ?thesis
      using act Some unfolding switch_egress_def
      apply (simp add: wp_rules)
      apply (rule wp_machine_only [OF machine_only_try_switch])
      apply (simp add: wp_rules split: sum.splits)
      apply (intro conjI allI impI)
      subgoal for r h x by (rule wp_mono [OF finish_rollback_data]) (auto simp: resumed_def)
      subgoal
        by (rule exI [of _ "m_uuid (ss_mach s) (m_uuids (ss_mach s))"])
          (auto simp: resumed_def intro!: session_data.equality session_snapshot.equality)
      done
  qed
qed

lemma session_inv_switch:
  assumes "session_inv m (ss_data s)"
  shows "wp (switch_egress m c mode) (\<lambda>r s'. session_inv m (ss_data s')) s"
  by (rule wp_mono [OF switch_egress_data])
    (use assms in \<open>auto simp: session_inv_def resumed_def holds_active_def history_capacity_def\<close>)

subsection \<open>Call sequences\<close>

text \<open>
  Every method, and the machine changing by itself (the helpers, the files, the clocks) between
  two calls.
\<close>

datatype 'b session_call =
    SStart uuid url
  | SBurn uuid
  | SForceBurn
  | SNavigate uuid navigation_command
  | SSetProfile uuid stream_profile
  | SSetBlocklist uuid bool
  | SSetAutoBurn uuid u64
  | SSwitchEgress uuid egress_mode
  | SMachine "'b machine"

fun session_exec :: "'b session_manager \<Rightarrow> 'b session_call \<Rightarrow> 'b sess \<Rightarrow> 'b sess" where
  "session_exec m (SStart c u) s = snd (start m c u s)"
| "session_exec m (SBurn c) s = snd (burn m c s)"
| "session_exec m SForceBurn s = snd (force_burn m s)"
| "session_exec m (SNavigate c cmd) s = snd (navigate m c cmd s)"
| "session_exec m (SSetProfile c p) s = snd (set_stream_profile c p s)"
| "session_exec m (SSetBlocklist c b) s = snd (set_blocklist_enabled c b s)"
| "session_exec m (SSetAutoBurn c n) s = snd (set_auto_burn_seconds c n s)"
| "session_exec m (SSwitchEgress c e) s = snd (switch_egress m c e s)"
| "session_exec m (SMachine h) s = s\<lparr>ss_mach := h\<rparr>"

inductive session_reachable :: "'b session_manager \<Rightarrow> 'b sess \<Rightarrow> bool" for m where
  fresh: "session_reachable m (session_new m h)"
| call: "session_reachable m s \<Longrightarrow> session_reachable m (session_exec m c s)"

lemma wp_snd: "wp m (\<lambda>r s'. P s') s \<longleftrightarrow> P (snd (m s))"
  by (simp add: wp_def split: prod.splits)

lemma wp_burn [wp_rules]:
  "wp (burn m c) Q s =
     (if sd_controller (ss_data s) = Some c then wp (burn_unchecked m) Q s else Q (Inl LeaseConflict) s)"
  by (simp add: burn_def wp_and_then wp_gets wp_from_result ensure_lease_def)

lemma session_inv_exec:
  assumes "session_inv m (ss_data s)"
  shows "session_inv m (ss_data (session_exec m c s))"
proof (cases c)
  case (SStart cl u)
  with session_inv_start [OF assms, of cl u] show ?thesis by (simp add: wp_snd)
next
  case (SBurn cl)
  have "wp (burn m cl) (\<lambda>r s'. session_inv m (ss_data s')) s"
    using session_inv_burn [OF assms] assms by (simp add: wp_burn)
  with SBurn show ?thesis by (simp add: wp_snd)
next
  case SForceBurn
  with session_inv_burn [OF assms] show ?thesis by (simp add: force_burn_def wp_snd)
next
  case (SNavigate cl cmd)
  with session_inv_navigate [OF assms, of cl cmd] show ?thesis by (simp add: wp_snd)
next
  case (SSetProfile cl p)
  have "wp (set_stream_profile cl p) (\<lambda>r s'. session_inv m (ss_data s')) s"
    unfolding set_stream_profile_def by (rule session_inv_setting [OF assms]) simp_all
  with SSetProfile show ?thesis by (simp add: wp_snd)
next
  case (SSetBlocklist cl b)
  have "wp (set_blocklist_enabled cl b) (\<lambda>r s'. session_inv m (ss_data s')) s"
    unfolding set_blocklist_enabled_def by (rule session_inv_setting [OF assms]) simp_all
  with SSetBlocklist show ?thesis by (simp add: wp_snd)
next
  case (SSetAutoBurn cl n)
  have "wp (change_setting cl (\<lambda>x. x\<lparr>sn_auto_burn_seconds := n\<rparr>) ''auto_burn.setting'')
      (\<lambda>r s'. session_inv m (ss_data s')) s"
    by (rule session_inv_setting [OF assms]) simp_all
  with assms SSetAutoBurn show ?thesis by (simp add: set_auto_burn_seconds_def raise_def wp_snd)
next
  case (SSwitchEgress cl e)
  with session_inv_switch [OF assms, of cl e] show ?thesis by (simp add: wp_snd)
qed (use assms in simp)

lemma session_reachable_inv: "session_reachable m s \<Longrightarrow> session_inv m (ss_data s)"
  by (induction rule: session_reachable.induct)
    (simp_all add: session_inv_exec session_new_def session_inv_initial)

subsection \<open>Clearing the runtime directory\<close>

definition fs_shrinks :: "path_component list \<Rightarrow> 'b machine \<Rightarrow> 'b machine \<Rightarrow> bool" where
  "fs_shrinks dir h h' \<longleftrightarrow> (\<exists>f. h' = h\<lparr>m_fs := f\<rparr>) \<and>
     (\<forall>q. fs_node (m_fs h') q = fs_node (m_fs h) q \<or>
          strict_prefix dir q \<and> fs_node (m_fs h') q = None)"

lemma fs_shrinks_refl [simp]: "fs_shrinks dir h h"
  by (auto simp: fs_shrinks_def intro: exI [of _ "m_fs h"])

lemma fs_shrinks_trans: "fs_shrinks dir h h1 \<Longrightarrow> fs_shrinks dir h1 h2 \<Longrightarrow> fs_shrinks dir h h2"
  unfolding fs_shrinks_def by auto metis+

lemma clear_entry_shrinks:
  assumes "clear_entry q h = (r, h')" and "strict_prefix dir q"
  shows "fs_shrinks dir h h' \<and> (r = Inr () \<longrightarrow> fs_node (m_fs h') q = None)"
  using assms
  by (auto simp: clear_entry_def and_then_def entry_type_def remove_dir_all_def remove_file_def
      faultable_def modify_def fs_shrinks_def
      split: option.splits fnode.splits sum.splits if_splits
      intro: exI [of _ "m_fs h"] prefix_order.less_le_trans)

lemma clear_entries_shrinks:
  assumes "steps (map clear_entry qs) h = (r, h')" and "\<forall>q \<in> set qs. strict_prefix dir q"
  shows "fs_shrinks dir h h' \<and> (r = Inr () \<longrightarrow> (\<forall>q \<in> set qs. fs_node (m_fs h') q = None))"
  using assms
proof (induction qs arbitrary: h)
  case Nil
  then show ?case by (simp add: ret_def)
next
  case (Cons q qs)
  obtain r1 h1 where c: "clear_entry q h = (r1, h1)" by fastforce
  have q: "fs_shrinks dir h h1 \<and> (r1 = Inr () \<longrightarrow> fs_node (m_fs h1) q = None)"
    using clear_entry_shrinks [OF c, of dir] Cons.prems(2) by simp
  show ?case
  proof (cases r1)
    case (Inl e)
    with Cons.prems(1) c q show ?thesis by (auto simp: and_then_def)
  next
    case (Inr x)
    with Cons.prems(1) c have "steps (map clear_entry qs) h1 = (r, h')" by (simp add: and_then_def)
    with Cons.IH [of h1] Cons.prems(2)
    have t: "fs_shrinks dir h1 h' \<and> (r = Inr () \<longrightarrow> (\<forall>q \<in> set qs. fs_node (m_fs h') q = None))"
      by simp
    have "fs_node (m_fs h') q = None"
      using t q Inr unfolding fs_shrinks_def by (metis (full_types) old.unit.exhaust)
    with t q fs_shrinks_trans show ?thesis by auto
  qed
qed

lemma fs_child_below: "q \<in> set (fs_children f p) \<Longrightarrow> strict_prefix p q"
  by (metis append_butlast_last_id set_fs_children strict_prefixI')

text \<open>
  What a call of \<open>clear_runtime_dir\<close> does, whether it succeeds or not: only files change, nothing
  that existed outside the directory changes, and after success the directory lists nothing.
\<close>

lemma clear_runtime_dir_effect:
  assumes "clear_runtime_dir p h = (r, h')"
  shows "(\<exists>f. h' = h\<lparr>m_fs := f\<rparr>) \<and>
    (\<forall>q. fs_node (m_fs h) q \<noteq> None \<longrightarrow> \<not> strict_prefix (components p) q \<longrightarrow>
       fs_node (m_fs h') q = fs_node (m_fs h) q) \<and>
    (r = Inr () \<longrightarrow> \<not> unsafe_runtime_path p \<and> fs_children (m_fs h') (components p) = [])"
proof (cases "unsafe_runtime_path p")
  case True
  with assms show ?thesis
    by (auto simp: clear_runtime_dir_def raise_def intro: exI [of _ "m_fs h"])
next
  case False
  let ?d = "components p"
  obtain r1 h1 where c: "create_dir_all ?d h = (r1, h1)" by fastforce
  have keep: "fs_node (m_fs h1) q = fs_node (m_fs h) q" if "fs_node (m_fs h) q \<noteq> None" for q
    using create_dir_all_keeps [OF c, of q] that by auto
  have only: "\<exists>f. h1 = h\<lparr>m_fs := f\<rparr>" by (rule create_dir_all_only_fs [OF c])
  consider "h' = h1" "r \<noteq> Inr ()"
    | "steps (map clear_entry (fs_children (m_fs h1) ?d)) h1 = (r, h')"
    using assms c False
    by (auto simp: clear_runtime_dir_def and_then_def symlink_metadata_def read_dir_def raise_def
        faultable_def Let_def split: option.splits fnode.splits sum.splits if_splits)
  then show ?thesis
  proof cases
    case 1
    with keep only show ?thesis by simp
  next
    case 2
    have s: "fs_shrinks ?d h1 h' \<and>
        (r = Inr () \<longrightarrow> (\<forall>q \<in> set (fs_children (m_fs h1) ?d). fs_node (m_fs h') q = None))"
      by (rule clear_entries_shrinks [OF 2]) (simp add: fs_child_below)
    have "fs_children (m_fs h') ?d = []" if "r = Inr ()"
    proof (rule ccontr)
      assume "fs_children (m_fs h') ?d \<noteq> []"
      then obtain q where q: "q \<in> set (fs_children (m_fs h') ?d)" by (meson list.set_sel(1))
      then have "q \<notin> set (fs_children (m_fs h1) ?d)" using s that q by (metis set_fs_children)
      with q have "fs_node (m_fs h1) q = None" by (auto simp: set_fs_children)
      with s q show False unfolding fs_shrinks_def set_fs_children by metis
    qed
    moreover obtain f where "h1 = h\<lparr>m_fs := f\<rparr>" using only by blast
    moreover obtain g where "h' = h1\<lparr>m_fs := g\<rparr>" using s by (auto simp: fs_shrinks_def)
    moreover have "fs_node (m_fs h') q = fs_node (m_fs h) q"
      if "fs_node (m_fs h) q \<noteq> None" "\<not> strict_prefix ?d q" for q
      using s keep [OF that(1)] that(2) unfolding fs_shrinks_def by metis
    ultimately show ?thesis using False by auto
  qed
qed

lemma clear_runtime_dir_helpers [simp]:
  "m_helpers (snd (clear_runtime_dir p h)) = m_helpers h"
proof -
  obtain r h' where c: "clear_runtime_dir p h = (r, h')" by fastforce
  with clear_runtime_dir_effect [OF c] show ?thesis by auto
qed

lemma clear_symlink_refused:
  assumes "fs_node (m_fs h) (components p) = Some (LinkNode t)"
  shows "\<exists>e. fst (clear_runtime_dir p h) = Inl e \<and>
    (\<forall>q. fs_node (m_fs h) q \<noteq> None \<longrightarrow>
       fs_node (m_fs (snd (clear_runtime_dir p h))) q = fs_node (m_fs h) q)"
proof (cases "unsafe_runtime_path p")
  case True
  then show ?thesis by (simp add: clear_runtime_dir_def raise_def)
next
  case False
  obtain r1 h1 where c: "create_dir_all (components p) h = (r1, h1)" by fastforce
  have keep: "fs_node (m_fs h1) q = fs_node (m_fs h) q" if "fs_node (m_fs h) q \<noteq> None" for q
    using create_dir_all_keeps [OF c, of q] that by auto
  then have "fs_node (m_fs h1) (components p) = Some (LinkNode t)" using assms by simp
  with False c keep show ?thesis
    by (auto simp: clear_runtime_dir_def and_then_def symlink_metadata_def raise_def
        faultable_def Let_def split: option.splits sum.splits)
qed

end
