(* ===== verification/Auth.thy ===== *)
theory Auth
  imports Model Machine "HOL-Library.AList"
begin

text \<open>
  \<open>src/auth.rs\<close>: zero-account pairing. One \<open>auth_state\<close> (behind the lock of \<open>AuthManager\<close>) holds
  the two hashes of the current pairing material, the controller sessions, the one-time tickets,
  the failure counter with its lockout, and the generation. Every method is one operation over
  the machine and that state, since each takes the lock once. The two hash maps are association
  lists keyed by digest. BLAKE3 and the two encoders are third-party and parameters.
\<close>

section \<open>State\<close>

type_synonym digest = "256 word"

datatype ticket_purpose = Events | Signaling

record auth_session =
  as_client_id :: uuid
  as_csrf_hash :: digest
  as_expires_at :: nat
  as_generation :: u64

record ticket =
  tk_client_id :: uuid
  tk_expires_at :: nat
  tk_generation :: u64
  tk_purpose :: ticket_purpose

record auth_state =
  pairing_hash :: "digest option"
  manual_pairing_hash :: "digest option"
  sessions :: "(digest \<times> auth_session) list"
  tickets :: "(digest \<times> ticket) list"
  failed_pairings :: u32
  locked_until :: "nat option"
  generation :: u64

record auth_context =
  cx_client_id :: uuid
  cx_generation :: u64

record pairing_material =
  pm_secret :: string
  pm_manual_code :: string

record exchange_result =
  er_session_token :: string
  er_csrf_token :: string
  er_client_id :: uuid
  er_expires_in_seconds :: nat

record crypto =
  cr_blake3 :: "string \<Rightarrow> digest"
  cr_base64url :: "u8 list \<Rightarrow> string"
  cr_base32 :: "u8 list \<Rightarrow> string"

record auth_manager =
  am_auth_ttl :: nat
  am_ticket_ttl :: nat
  am_crypto :: crypto

record 'b auth_host =
  ah_mach :: "'b machine"
  ah_auth :: auth_state

definition second :: nat where "second = 1000000000"
definition max_pair_failures :: u32 where "max_pair_failures = 5"
definition pair_lockout :: nat where "pair_lockout = 30 * second"

definition auth_state_new :: auth_state where
  "auth_state_new = \<lparr>pairing_hash = None, manual_pairing_hash = None, sessions = [],
     tickets = [], failed_pairings = 0, locked_until = None, generation = 0\<rparr>"

definition mach_op :: "('b machine, 'e, 'a) op \<Rightarrow> ('b auth_host, 'e, 'a) op" where
  "mach_op m s = (case m (ah_mach s) of (r, h) \<Rightarrow> (r, s\<lparr>ah_mach := h\<rparr>))"

definition update_auth :: "(auth_state \<Rightarrow> auth_state) \<Rightarrow> ('b auth_host, 'e, unit) op" where
  "update_auth f = modify (\<lambda>s. s\<lparr>ah_auth := f (ah_auth s)\<rparr>)"

definition instant_now :: "('b auth_host, 'e, nat) op" where
  "instant_now = gets (\<lambda>s. m_instant (ah_mach s))"

section \<open>Helpers\<close>

definition hash_of :: "auth_manager \<Rightarrow> string \<Rightarrow> digest" where
  "hash_of am = cr_blake3 (am_crypto am)"

fun chunks4 :: "string \<Rightarrow> string list" where
  "chunks4 (a # b # c # d # rest) = [a, b, c, d] # chunks4 rest"
| "chunks4 [] = []"
| "chunks4 s = [s]"

definition group_manual_code :: "crypto \<Rightarrow> u8 list \<Rightarrow> string" where
  "group_manual_code cr bytes = join ''-'' (chunks4 (cr_base32 cr bytes))"

definition random_token :: "crypto \<Rightarrow> ('b machine, string, string) op" where
  "random_token cr = and_then getrandom (\<lambda>bytes. ret (cr_base64url cr bytes))"

definition prune_expired :: "nat \<Rightarrow> auth_state \<Rightarrow> auth_state" where
  "prune_expired now st = st\<lparr>
     sessions := filter (\<lambda>(_, x). now < as_expires_at x \<and> as_generation x = generation st) (sessions st),
     tickets := filter (\<lambda>(_, x). now < tk_expires_at x \<and> tk_generation x = generation st) (tickets st)\<rparr>"

definition saturating_succ :: "u32 \<Rightarrow> u32" where
  "saturating_succ n = (if n = - 1 then n else n + 1)"

section \<open>Operations\<close>

definition rotate_pairing :: "auth_manager \<Rightarrow> ('b auth_host, string, pairing_material) op" where
  "rotate_pairing am =
     and_then (mach_op getrandom) (\<lambda>raw.
       let secret = cr_base64url (am_crypto am) raw;
           manual_code = group_manual_code (am_crypto am) raw
       in and_then (update_auth (\<lambda>st. st\<lparr>
            generation := generation st + 1,
            pairing_hash := Some (hash_of am secret),
            manual_pairing_hash := Some (hash_of am manual_code),
            sessions := [], tickets := [], failed_pairings := 0, locked_until := None\<rparr>)) (\<lambda>_.
          ret \<lparr>pm_secret = secret, pm_manual_code = manual_code\<rparr>))"

definition pairing_body :: "pairing_material \<Rightarrow> string \<Rightarrow> string" where
  "pairing_body material public_base_url =
     ''PAIRING_URL='' @ trim_end_matches CHR ''/'' public_base_url @ ''#pair='' @
     pm_secret material @ [newline] @ ''MANUAL_CODE='' @ pm_manual_code material @ [newline]"

definition write_pairing_file ::
  "pairing_material \<Rightarrow> path \<Rightarrow> string \<Rightarrow> ('b machine, string, unit) op" where
  "write_pairing_file material path public_base_url =
     (let target = components path; temporary = with_extension ''tmp'' target
      in steps
        [(case parent_components path of None \<Rightarrow> ret () | Some parent \<Rightarrow> create_dir_all parent),
         open_truncate temporary,
         write_all temporary (pairing_body material public_base_url),
         sync_all temporary,
         rename temporary target])"

definition record_failure :: "nat \<Rightarrow> auth_state \<Rightarrow> auth_state" where
  "record_failure now st =
     (let n = saturating_succ (failed_pairings st)
      in if max_pair_failures \<le> n
         then st\<lparr>failed_pairings := 0, locked_until := Some (now + pair_lockout)\<rparr>
         else st\<lparr>failed_pairings := n\<rparr>)"

definition exchange_pairing ::
  "auth_manager \<Rightarrow> string \<Rightarrow> ('b auth_host, app_error, exchange_result) op" where
  "exchange_pairing am presented =
     and_then instant_now (\<lambda>now.
     and_then (gets ah_auth) (\<lambda>st.
       if (case locked_until st of None \<Rightarrow> False | Some until \<Rightarrow> now < until)
       then raise InvalidPairing
       else
         and_then (update_auth (\<lambda>st. st\<lparr>locked_until := None\<rparr>)) (\<lambda>_.
         let presented_hash = hash_of am presented;
             secret_valid = (pairing_hash st = Some presented_hash);
             manual_valid = (manual_pairing_hash st = Some presented_hash)
         in if \<not> (secret_valid \<or> manual_valid)
            then and_then (update_auth (record_failure now)) (\<lambda>_. raise InvalidPairing)
            else
              and_then (update_auth (\<lambda>st. st\<lparr>pairing_hash := None, manual_pairing_hash := None,
                                              failed_pairings := 0\<rparr>)) (\<lambda>_.
              and_then (map_err (\<lambda>_. Internal) (mach_op (random_token (am_crypto am)))) (\<lambda>session_token.
              and_then (map_err (\<lambda>_. Internal) (mach_op (random_token (am_crypto am)))) (\<lambda>csrf_token.
              and_then (mach_op new_v4) (\<lambda>client_id.
              and_then (update_auth (\<lambda>st. st\<lparr>sessions :=
                  AList.update (hash_of am session_token)
                    \<lparr>as_client_id = client_id, as_csrf_hash = hash_of am csrf_token,
                     as_expires_at = now + am_auth_ttl am, as_generation = generation st\<rparr>
                    (sessions st)\<rparr>)) (\<lambda>_.
                ret \<lparr>er_session_token = session_token, er_csrf_token = csrf_token,
                     er_client_id = client_id,
                     er_expires_in_seconds = am_auth_ttl am div second\<rparr>))))))))"

definition authenticate ::
  "auth_manager \<Rightarrow> string option \<Rightarrow> string option \<Rightarrow> bool \<Rightarrow> ('b auth_host, app_error, auth_context) op" where
  "authenticate am session_token csrf_token require_csrf =
     (case session_token of
        None \<Rightarrow> raise Unauthorized
      | Some token \<Rightarrow>
        and_then instant_now (\<lambda>now.
        and_then (update_auth (prune_expired now)) (\<lambda>_.
        and_then (gets ah_auth) (\<lambda>st.
          case map_of (sessions st) (hash_of am token) of
            None \<Rightarrow> raise Unauthorized
          | Some session \<Rightarrow>
              if require_csrf
              then (case csrf_token of
                      None \<Rightarrow> raise InvalidCsrf
                    | Some presented \<Rightarrow>
                        if as_csrf_hash session \<noteq> hash_of am presented then raise InvalidCsrf
                        else ret \<lparr>cx_client_id = as_client_id session,
                                  cx_generation = as_generation session\<rparr>)
              else ret \<lparr>cx_client_id = as_client_id session,
                        cx_generation = as_generation session\<rparr>))))"

definition live_session :: "auth_context \<Rightarrow> nat \<Rightarrow> auth_state \<Rightarrow> bool" where
  "live_session context now st \<longleftrightarrow>
     cx_generation context = generation st \<and>
     list_ex (\<lambda>(_, x). as_client_id x = cx_client_id context \<and>
       as_generation x = cx_generation context \<and> now < as_expires_at x) (sessions st)"

definition validate_context :: "auth_context \<Rightarrow> ('b auth_host, app_error, unit) op" where
  "validate_context context =
     and_then instant_now (\<lambda>now.
     and_then (update_auth (prune_expired now)) (\<lambda>_.
     and_then (gets ah_auth) (\<lambda>st.
       if live_session context now st then ret () else raise Unauthorized)))"

definition issue_ticket ::
  "auth_manager \<Rightarrow> auth_context \<Rightarrow> ticket_purpose \<Rightarrow> ('b auth_host, app_error, string) op" where
  "issue_ticket am context purpose =
     and_then (map_err (\<lambda>_. Internal) (mach_op (random_token (am_crypto am)))) (\<lambda>token.
     and_then instant_now (\<lambda>now.
     and_then (update_auth (prune_expired now)) (\<lambda>_.
     and_then (gets ah_auth) (\<lambda>st.
       if \<not> live_session context now st then raise Unauthorized
       else
         and_then (update_auth (\<lambda>st. st\<lparr>tickets :=
             AList.update (hash_of am token)
               \<lparr>tk_client_id = cx_client_id context, tk_expires_at = now + am_ticket_ttl am,
                tk_generation = generation st, tk_purpose = purpose\<rparr> (tickets st)\<rparr>)) (\<lambda>_.
           ret token)))))"

definition consume_ticket ::
  "auth_manager \<Rightarrow> string \<Rightarrow> ticket_purpose \<Rightarrow> ('b auth_host, app_error, auth_context) op" where
  "consume_ticket am token expected_purpose =
     and_then (gets ah_auth) (\<lambda>st.
       case map_of (tickets st) (hash_of am token) of
         None \<Rightarrow> raise Unauthorized
       | Some ticket \<Rightarrow>
           and_then (update_auth (\<lambda>st. st\<lparr>tickets := AList.delete (hash_of am token) (tickets st)\<rparr>)) (\<lambda>_.
           and_then instant_now (\<lambda>now.
             if tk_expires_at ticket \<le> now \<or> tk_generation ticket \<noteq> generation st
                \<or> tk_purpose ticket \<noteq> expected_purpose
             then raise Unauthorized
             else ret \<lparr>cx_client_id = tk_client_id ticket, cx_generation = tk_generation ticket\<rparr>)))"

definition revoke_all :: "('b auth_host, 'e, unit) op" where
  "revoke_all = update_auth (\<lambda>st. st\<lparr>sessions := [], tickets := []\<rparr>)"

definition invalidate_unpublished_pairing :: "('b auth_host, 'e, unit) op" where
  "invalidate_unpublished_pairing = update_auth (\<lambda>st. st\<lparr>pairing_hash := None,
     manual_pairing_hash := None, sessions := [], tickets := []\<rparr>)"

definition pairing_recovery_required :: "('b auth_host, 'e, bool) op" where
  "pairing_recovery_required =
     and_then instant_now (\<lambda>now.
     and_then (update_auth (prune_expired now)) (\<lambda>_.
       gets (\<lambda>s. let st = ah_auth s
         in 0 < generation st \<and> pairing_hash st = None \<and> manual_pairing_hash st = None
            \<and> sessions st = [])))"

definition pairing_available :: "auth_state \<Rightarrow> bool" where
  "pairing_available st \<longleftrightarrow> pairing_hash st \<noteq> None \<or> manual_pairing_hash st \<noteq> None"

section \<open>Facts\<close>

subsection \<open>Running the operations\<close>

lemma getrandom_cases:
  obtains bytes where "getrandom h = (Inr bytes, h\<lparr>m_draws := Suc (m_draws h)\<rparr>)"
      "m_random h (m_draws h) = Some bytes"
  | "getrandom h = (Inl ''OS CSPRNG failed'', h\<lparr>m_draws := Suc (m_draws h)\<rparr>)"
      "m_random h (m_draws h) = None"
  by (cases "m_random h (m_draws h)") (auto simp: getrandom_def)

lemmas auth_op_defs = mach_op_def update_auth_def instant_now_def random_token_def new_v4_def
  and_then_def map_err_def ret_def raise_def modify_def gets_def Let_def

definition locked :: "nat \<Rightarrow> auth_state \<Rightarrow> bool" where
  "locked now st \<longleftrightarrow> (case locked_until st of None \<Rightarrow> False | Some until \<Rightarrow> now < until)"

definition accepts :: "auth_manager \<Rightarrow> auth_state \<Rightarrow> string \<Rightarrow> bool" where
  "accepts am st p \<longleftrightarrow> pairing_hash st = Some (hash_of am p) \<or>
     manual_pairing_hash st = Some (hash_of am p)"

definition consumed :: "auth_state \<Rightarrow> auth_state" where
  "consumed st = st\<lparr>locked_until := None, pairing_hash := None, manual_pairing_hash := None,
     failed_pairings := 0\<rparr>"

definition new_session :: "auth_manager \<Rightarrow> nat \<Rightarrow> exchange_result \<Rightarrow> auth_state \<Rightarrow> auth_session" where
  "new_session am now res st = \<lparr>as_client_id = er_client_id res,
     as_csrf_hash = hash_of am (er_csrf_token res), as_expires_at = now + am_auth_ttl am,
     as_generation = generation st\<rparr>"

lemma exchange_locked:
  "locked (m_instant (ah_mach s)) (ah_auth s) \<Longrightarrow> exchange_pairing am p s = (Inl InvalidPairing, s)"
  by (simp add: exchange_pairing_def locked_def auth_op_defs)

lemma exchange_wrong:
  "\<not> locked (m_instant (ah_mach s)) (ah_auth s) \<Longrightarrow> \<not> accepts am (ah_auth s) p \<Longrightarrow>
   exchange_pairing am p s = (Inl InvalidPairing, s\<lparr>ah_auth :=
     record_failure (m_instant (ah_mach s)) ((ah_auth s)\<lparr>locked_until := None\<rparr>)\<rparr>)"
  by (simp add: exchange_pairing_def locked_def accepts_def auth_op_defs)

lemma exchange_right:
  assumes "\<not> locked (m_instant (ah_mach s)) (ah_auth s)" and "accepts am (ah_auth s) p"
    and "exchange_pairing am p s = (r, s')"
  shows "(r = Inl Internal \<and> ah_auth s' = consumed (ah_auth s)) \<or>
    (\<exists>res. r = Inr res \<and> er_expires_in_seconds res = am_auth_ttl am div second \<and>
       ah_auth s' = (consumed (ah_auth s))\<lparr>sessions :=
         AList.update (hash_of am (er_session_token res))
           (new_session am (m_instant (ah_mach s)) res (ah_auth s)) (sessions (ah_auth s))\<rparr>)"
  using assms
  by (auto simp: exchange_pairing_def locked_def accepts_def auth_op_defs consumed_def
      new_session_def getrandom_def split: option.splits prod.splits sum.splits)

lemma exchange_cases:
  assumes "exchange_pairing am p s = (r, s')"
  obtains "locked (m_instant (ah_mach s)) (ah_auth s)" "r = Inl InvalidPairing" "s' = s"
  | "\<not> locked (m_instant (ah_mach s)) (ah_auth s)" "\<not> accepts am (ah_auth s) p"
    "r = Inl InvalidPairing" "s' = s\<lparr>ah_auth :=
     record_failure (m_instant (ah_mach s)) ((ah_auth s)\<lparr>locked_until := None\<rparr>)\<rparr>"
  | "\<not> locked (m_instant (ah_mach s)) (ah_auth s)" "accepts am (ah_auth s) p"
    "r = Inl Internal" "ah_auth s' = consumed (ah_auth s)"
  | res where "\<not> locked (m_instant (ah_mach s)) (ah_auth s)" "accepts am (ah_auth s) p" "r = Inr res"
    "ah_auth s' = (consumed (ah_auth s))\<lparr>sessions :=
         AList.update (hash_of am (er_session_token res))
           (new_session am (m_instant (ah_mach s)) res (ah_auth s)) (sessions (ah_auth s))\<rparr>"
  using assms exchange_locked [of s am p] exchange_wrong [of s am p] exchange_right [of s am p r s']
  by (cases "locked (m_instant (ah_mach s)) (ah_auth s)"; cases "accepts am (ah_auth s) p") auto

lemma authenticate_eq:
  "authenticate am (Some token) csrf require s =
     (let a = prune_expired (m_instant (ah_mach s)) (ah_auth s); s' = s\<lparr>ah_auth := a\<rparr>
      in case map_of (sessions a) (hash_of am token) of
           None \<Rightarrow> (Inl Unauthorized, s')
         | Some x \<Rightarrow>
             if require \<and> (case csrf of None \<Rightarrow> True | Some t \<Rightarrow> as_csrf_hash x \<noteq> hash_of am t)
             then (Inl InvalidCsrf, s')
             else (Inr \<lparr>cx_client_id = as_client_id x, cx_generation = as_generation x\<rparr>, s'))"
  by (auto simp: authenticate_def auth_op_defs split: option.splits)

lemma authenticate_None [simp]: "authenticate am None csrf require s = (Inl Unauthorized, s)"
  by (simp add: authenticate_def raise_def)

lemma validate_context_eq:
  "validate_context cx s =
     (let now = m_instant (ah_mach s); a = prune_expired now (ah_auth s)
      in (if live_session cx now a then Inr () else Inl Unauthorized, s\<lparr>ah_auth := a\<rparr>))"
  by (auto simp: validate_context_def auth_op_defs)

lemma consume_ticket_eq:
  "consume_ticket am token purpose s =
     (case map_of (tickets (ah_auth s)) (hash_of am token) of
        None \<Rightarrow> (Inl Unauthorized, s)
      | Some t \<Rightarrow>
          (if tk_expires_at t \<le> m_instant (ah_mach s) \<or> tk_generation t \<noteq> generation (ah_auth s)
              \<or> tk_purpose t \<noteq> purpose
           then Inl Unauthorized
           else Inr \<lparr>cx_client_id = tk_client_id t, cx_generation = tk_generation t\<rparr>,
           s\<lparr>ah_auth := (ah_auth s)\<lparr>tickets := AList.delete (hash_of am token) (tickets (ah_auth s))\<rparr>\<rparr>))"
  by (auto simp: consume_ticket_def auth_op_defs split: option.splits)

lemma issue_ticket_cases:
  assumes "issue_ticket am cx purpose s = (r, s')"
  obtains "r = Inl Internal" "ah_auth s' = ah_auth s"
  | "r = Inl Unauthorized" "ah_auth s' = prune_expired (m_instant (ah_mach s)) (ah_auth s)"
    "\<not> live_session cx (m_instant (ah_mach s)) (ah_auth s')"
  | token where "r = Inr token"
    "live_session cx (m_instant (ah_mach s)) (prune_expired (m_instant (ah_mach s)) (ah_auth s))"
    "ah_auth s' = (prune_expired (m_instant (ah_mach s)) (ah_auth s))\<lparr>tickets :=
       AList.update (hash_of am token)
         \<lparr>tk_client_id = cx_client_id cx, tk_expires_at = m_instant (ah_mach s) + am_ticket_ttl am,
          tk_generation = generation (ah_auth s), tk_purpose = purpose\<rparr>
         (tickets (prune_expired (m_instant (ah_mach s)) (ah_auth s)))\<rparr>"
  using assms
  by (auto simp: issue_ticket_def auth_op_defs getrandom_def prune_expired_def
      split: option.splits if_splits)

lemma rotate_pairing_cases:
  assumes "rotate_pairing am s = (r, s')"
  obtains e where "r = Inl e" "ah_auth s' = ah_auth s"
  | pm where "r = Inr pm" "ah_auth s' = (ah_auth s)\<lparr>generation := generation (ah_auth s) + 1,
      pairing_hash := Some (hash_of am (pm_secret pm)),
      manual_pairing_hash := Some (hash_of am (pm_manual_code pm)),
      sessions := [], tickets := [], failed_pairings := 0, locked_until := None\<rparr>"
  using assms by (auto simp: rotate_pairing_def auth_op_defs getrandom_def split: option.splits)

lemma pairing_recovery_required_eq:
  "pairing_recovery_required s =
     (let a = prune_expired (m_instant (ah_mach s)) (ah_auth s)
      in (Inr (0 < generation a \<and> pairing_hash a = None \<and> manual_pairing_hash a = None \<and>
               sessions a = []), s\<lparr>ah_auth := a\<rparr>))"
  by (simp add: pairing_recovery_required_def auth_op_defs)

lemma revoke_all_eq: "revoke_all s = (Inr (), s\<lparr>ah_auth := (ah_auth s)\<lparr>sessions := [], tickets := []\<rparr>\<rparr>)"
  by (simp add: revoke_all_def auth_op_defs)

lemma invalidate_eq:
  "invalidate_unpublished_pairing s = (Inr (), s\<lparr>ah_auth := (ah_auth s)\<lparr>pairing_hash := None,
     manual_pairing_hash := None, sessions := [], tickets := []\<rparr>\<rparr>)"
  by (simp add: invalidate_unpublished_pairing_def auth_op_defs)

subsection \<open>The invariant\<close>

text \<open>
  The session and ticket maps have distinct keys, everything in them is of the current
  generation, at most one session exists, it and all tickets belong to one client, and while
  pairing material is offered there is neither session nor ticket.
\<close>

definition auth_inv :: "auth_state \<Rightarrow> bool" where
  "auth_inv a \<longleftrightarrow>
     length (sessions a) \<le> 1 \<and> distinct (map fst (tickets a)) \<and>
     (\<forall>(k, x) \<in> set (sessions a). as_generation x = generation a) \<and>
     (\<forall>(k, t) \<in> set (tickets a). tk_generation t = generation a) \<and>
     (\<exists>c. (\<forall>(k, x) \<in> set (sessions a). as_client_id x = c) \<and>
          (\<forall>(k, t) \<in> set (tickets a). tk_client_id t = c)) \<and>
     (pairing_available a \<longrightarrow> sessions a = [] \<and> tickets a = []) \<and>
     failed_pairings a < max_pair_failures"

lemma set_alist_update: "set (AList.update k v xs) \<subseteq> insert (k, v) (set xs)"
  by (induction xs) auto

lemma auth_inv_new: "auth_inv auth_state_new"
  by (simp add: auth_inv_def auth_state_new_def max_pair_failures_def)

lemma auth_inv_prune: "auth_inv a \<Longrightarrow> auth_inv (prune_expired now a)"
  unfolding auth_inv_def prune_expired_def pairing_available_def
  by (auto simp: distinct_map_filter intro: le_trans [OF length_filter_le])

lemma record_failure_keeps [simp]:
  "sessions (record_failure now a) = sessions a" "tickets (record_failure now a) = tickets a"
  "generation (record_failure now a) = generation a"
  "pairing_hash (record_failure now a) = pairing_hash a"
  "manual_pairing_hash (record_failure now a) = manual_pairing_hash a"
  by (simp_all add: record_failure_def Let_def)

lemma record_failure_bound:
  "failed_pairings a < max_pair_failures \<Longrightarrow> failed_pairings (record_failure now a) < max_pair_failures"
  by (auto simp: record_failure_def Let_def max_pair_failures_def)

lemma auth_inv_record_failure: "auth_inv a \<Longrightarrow> auth_inv (record_failure now (a\<lparr>locked_until := u\<rparr>))"
  using record_failure_bound [of "a\<lparr>locked_until := u\<rparr>" now]
  by (auto simp: auth_inv_def record_failure_def Let_def pairing_available_def)

lemma auth_inv_consumed: "auth_inv a \<Longrightarrow> auth_inv (consumed a)"
  by (auto simp: auth_inv_def consumed_def pairing_available_def max_pair_failures_def)

lemma accepts_available: "accepts am a p \<Longrightarrow> pairing_available a"
  by (auto simp: accepts_def pairing_available_def)

lemma auth_inv_exchange:
  assumes "auth_inv (ah_auth s)" and "exchange_pairing am p s = (r, s')"
  shows "auth_inv (ah_auth s')"
  using assms(2)
proof (cases rule: exchange_cases)
  case (4 res)
  with assms(1) have "sessions (ah_auth s) = []" "tickets (ah_auth s) = []"
    using accepts_available by (auto simp: auth_inv_def)
  then show ?thesis
    by (simp add: 4(4) auth_inv_def consumed_def new_session_def pairing_available_def
        max_pair_failures_def)
qed (use assms(1) in \<open>auto simp: auth_inv_record_failure auth_inv_consumed\<close>)

lemma live_session_In:
  "live_session cx now a \<Longrightarrow> \<exists>k x. (k, x) \<in> set (sessions a) \<and> as_client_id x = cx_client_id cx"
  by (auto simp: live_session_def list_ex_iff)

lemma ball_alist_update:
  "\<forall>(k, t) \<in> set xs. P k t \<Longrightarrow> P k v \<Longrightarrow> \<forall>(k, t) \<in> set (AList.update k v xs). P k t"
  using set_alist_update [of k v xs] by fast

lemma auth_inv_ticket:
  assumes inv: "auth_inv a" and x: "(k, x) \<in> set (sessions a)" "as_client_id x = tk_client_id t"
    and g: "tk_generation t = generation a"
  shows "auth_inv (a\<lparr>tickets := AList.update h t (tickets a)\<rparr>)"
proof -
  obtain c where c: "\<forall>(k, x) \<in> set (sessions a). as_client_id x = c"
      "\<forall>(k, t) \<in> set (tickets a). tk_client_id t = c"
    using inv by (auto simp: auth_inv_def)
  have tc: "tk_client_id t = c" using c(1) x by fastforce
  have 1: "\<forall>(k, t) \<in> set (AList.update h t (tickets a)). tk_client_id t = c"
    by (rule ball_alist_update) (use c tc in simp_all)
  have 2: "\<forall>(k, t) \<in> set (AList.update h t (tickets a)). tk_generation t = generation a"
    by (rule ball_alist_update) (use inv g in \<open>simp_all add: auth_inv_def\<close>)
  have 3: "\<not> pairing_available a" using inv x(1) by (auto simp: auth_inv_def)
  have 4: "distinct (map fst (AList.update h t (tickets a)))"
    using inv by (simp add: auth_inv_def distinct_update)
  show ?thesis
    unfolding auth_inv_def using inv c(1) 1 2 3 4
    by (intro conjI) (auto simp: auth_inv_def pairing_available_def)
qed

lemma auth_inv_issue:
  assumes "auth_inv (ah_auth s)" and "issue_ticket am cx purpose s = (r, s')"
  shows "auth_inv (ah_auth s')"
  using assms(2)
proof (cases rule: issue_ticket_cases)
  case (3 token)
  let ?a = "prune_expired (m_instant (ah_mach s)) (ah_auth s)"
  obtain k x where x: "(k, x) \<in> set (sessions ?a)" "as_client_id x = cx_client_id cx"
    using live_session_In [OF 3(2)] by blast
  show ?thesis
    unfolding 3(3) by (rule auth_inv_ticket [OF auth_inv_prune [OF assms(1)] x(1)])
      (simp_all add: x(2) prune_expired_def)
qed (use assms(1) in \<open>auto simp: auth_inv_prune\<close>)

lemma auth_inv_rotate:
  assumes "auth_inv (ah_auth s)" and "rotate_pairing am s = (r, s')"
  shows "auth_inv (ah_auth s')"
  using assms(2) by (cases rule: rotate_pairing_cases)
    (use assms(1) in \<open>auto simp: auth_inv_def max_pair_failures_def\<close>)

lemma auth_inv_revoke: "auth_inv a \<Longrightarrow> auth_inv (a\<lparr>sessions := [], tickets := []\<rparr>)"
  by (simp add: auth_inv_def pairing_available_def)

lemma auth_inv_invalidate: "auth_inv a \<Longrightarrow> auth_inv (a\<lparr>pairing_hash := None,
     manual_pairing_hash := None, sessions := [], tickets := []\<rparr>)"
  by (simp add: auth_inv_def pairing_available_def)

lemma in_alist_delete: "x \<in> set (AList.delete k xs) \<Longrightarrow> x \<in> set xs"
  unfolding AList.delete_eq by simp

lemma auth_inv_delete:
  assumes "auth_inv a"
  shows "auth_inv (a\<lparr>tickets := AList.delete k (tickets a)\<rparr>)"
proof -
  have "set (AList.delete k (tickets a)) \<subseteq> set (tickets a)"
    unfolding AList.delete_eq by auto
  moreover have "distinct (map fst (AList.delete k (tickets a)))"
    using assms by (simp add: auth_inv_def AList.distinct_delete)
  ultimately show ?thesis
    using assms unfolding auth_inv_def pairing_available_def
    by (auto 0 3)
qed

lemma auth_inv_consume:
  "auth_inv (ah_auth s) \<Longrightarrow> consume_ticket am token purpose s = (r, s') \<Longrightarrow> auth_inv (ah_auth s')"
  by (auto simp: consume_ticket_eq auth_inv_delete split: option.splits if_splits)

lemma auth_inv_authenticate:
  "auth_inv (ah_auth s) \<Longrightarrow> authenticate am token csrf require s = (r, s') \<Longrightarrow> auth_inv (ah_auth s')"
  by (cases token) (auto simp: authenticate_eq Let_def auth_inv_prune split: option.splits if_splits)

lemma auth_inv_validate:
  "auth_inv (ah_auth s) \<Longrightarrow> validate_context cx s = (r, s') \<Longrightarrow> auth_inv (ah_auth s')"
  by (auto simp: validate_context_eq Let_def auth_inv_prune)

end
