(* ===== verification/AuthTrace.thy ===== *)
theory AuthTrace
  imports Auth
begin

text \<open>
  Sequences of calls on the pairing state of \<open>src/auth.rs\<close>. Between two calls the rest of the
  machine may do anything except turn the monotonic clock back. The properties here are about
  every such sequence: what one pairing secret can be used for, how often it can be guessed, who
  holds control in one generation, and what a ticket is good for.
\<close>

section \<open>Call sequences\<close>

datatype 'b auth_call =
    RotatePairing
  | ExchangePairing string
  | Authenticate "string option" "string option" bool
  | ValidateContext auth_context
  | IssueTicket auth_context ticket_purpose
  | ConsumeTicket string ticket_purpose
  | RevokeAll
  | InvalidateUnpublished
  | RecoveryRequired
  | Environment "'b machine"

definition environment :: "'b machine \<Rightarrow> 'b auth_host \<Rightarrow> 'b auth_host" where
  "environment h s = s\<lparr>ah_mach := h\<lparr>m_instant := max (m_instant h) (m_instant (ah_mach s))\<rparr>\<rparr>"

fun auth_exec :: "auth_manager \<Rightarrow> 'b auth_call \<Rightarrow> 'b auth_host \<Rightarrow> 'b auth_host" where
  "auth_exec am RotatePairing s = snd (rotate_pairing am s)"
| "auth_exec am (ExchangePairing p) s = snd (exchange_pairing am p s)"
| "auth_exec am (Authenticate t c r) s = snd (authenticate am t c r s)"
| "auth_exec am (ValidateContext cx) s = snd (validate_context cx s)"
| "auth_exec am (IssueTicket cx p) s = snd (issue_ticket am cx p s)"
| "auth_exec am (ConsumeTicket t p) s = snd (consume_ticket am t p s)"
| "auth_exec am RevokeAll s = snd (revoke_all s :: (unit + unit) \<times> 'b auth_host)"
| "auth_exec am InvalidateUnpublished s =
     snd (invalidate_unpublished_pairing s :: (unit + unit) \<times> 'b auth_host)"
| "auth_exec am RecoveryRequired s =
     snd (pairing_recovery_required s :: (unit + bool) \<times> 'b auth_host)"
| "auth_exec am (Environment h) s = environment h s"

primrec auth_run :: "auth_manager \<Rightarrow> 'b auth_call list \<Rightarrow> 'b auth_host \<Rightarrow> 'b auth_host" where
  "auth_run am [] s = s"
| "auth_run am (c # cs) s = auth_run am cs (auth_exec am c s)"

inductive auth_reachable :: "auth_manager \<Rightarrow> 'b auth_host \<Rightarrow> bool" for am where
  auth_start: "ah_auth s = auth_state_new \<Longrightarrow> auth_reachable am s"
| auth_next: "auth_reachable am s \<Longrightarrow> auth_reachable am (auth_exec am c s)"

lemma auth_run_append: "auth_run am (cs @ ds) s = auth_run am ds (auth_run am cs s)"
  by (induction cs arbitrary: s) simp_all

text \<open>The two ways a request proves control: a cookie (with its CSRF token) or a ticket.\<close>

inductive accepted_context :: "auth_manager \<Rightarrow> 'b auth_host \<Rightarrow> auth_context \<Rightarrow> bool" for am s where
  by_cookie: "authenticate am t c r s = (Inr cx, s') \<Longrightarrow> accepted_context am s cx"
| by_ticket: "consume_ticket am t p s = (Inr cx, s') \<Longrightarrow> accepted_context am s cx"

section \<open>Invariants of a sequence\<close>

text \<open>An exhaustive view of one call by its effect on the pairing state.\<close>

lemma auth_inv_exec:
  assumes "auth_inv (ah_auth s)"
  shows "auth_inv (ah_auth (auth_exec am c s))"
proof (cases c)
  case RotatePairing
  then show ?thesis using auth_inv_rotate [OF assms] by (metis auth_exec.simps(1) prod.collapse)
next
  case (ExchangePairing p)
  then show ?thesis using auth_inv_exchange [OF assms] by (metis auth_exec.simps(2) prod.collapse)
next
  case (Authenticate t x r)
  then show ?thesis using auth_inv_authenticate [OF assms] by (metis auth_exec.simps(3) prod.collapse)
next
  case (ValidateContext cx)
  then show ?thesis using auth_inv_validate [OF assms] by (metis auth_exec.simps(4) prod.collapse)
next
  case (IssueTicket cx p)
  then show ?thesis using auth_inv_issue [OF assms] by (metis auth_exec.simps(5) prod.collapse)
next
  case (ConsumeTicket t p)
  then show ?thesis using auth_inv_consume [OF assms] by (metis auth_exec.simps(6) prod.collapse)
qed (use assms in \<open>simp_all add: revoke_all_eq invalidate_eq pairing_recovery_required_eq Let_def
    environment_def auth_inv_revoke auth_inv_invalidate auth_inv_prune\<close>)

lemma auth_reachable_inv: "auth_reachable am s \<Longrightarrow> auth_inv (ah_auth s)"
  by (induction rule: auth_reachable.induct) (simp_all add: auth_inv_new auth_inv_exec)

lemma auth_reachable_run: "auth_reachable am s \<Longrightarrow> auth_reachable am (auth_run am cs s)"
  by (induction cs arbitrary: s) (simp_all add: auth_reachable.auth_next)

text \<open>
  \<open>bound_to c a\<close>: the pairing material is used up and everything issued from it is client \<open>c\<close>'s.
  Only a rotation leaves such a state.
\<close>

definition bound_to :: "uuid \<Rightarrow> auth_state \<Rightarrow> bool" where
  "bound_to c a \<longleftrightarrow> \<not> pairing_available a \<and>
     (\<forall>(k, x) \<in> set (sessions a). as_client_id x = c) \<and>
     (\<forall>(k, t) \<in> set (tickets a). tk_client_id t = c)"

lemma bound_prune: "bound_to c a \<Longrightarrow> bound_to c (prune_expired now a)"
  by (auto simp: bound_to_def prune_expired_def pairing_available_def)

lemma bound_exec:
  assumes "bound_to c (ah_auth s)" and "call \<noteq> RotatePairing"
  shows "bound_to c (ah_auth (auth_exec am call s)) \<and>
    generation (ah_auth (auth_exec am call s)) = generation (ah_auth s)"
proof (cases call)
  case (ExchangePairing p)
  have "\<not> accepts am (ah_auth s) p" using assms(1) accepts_available by (auto simp: bound_to_def)
  moreover obtain r s' where "exchange_pairing am p s = (r, s')" by fastforce
  ultimately show ?thesis
    using assms(1) unfolding ExchangePairing
    by (auto simp: bound_to_def pairing_available_def elim!: exchange_cases)
next
  case (Authenticate t x r)
  show ?thesis unfolding Authenticate using bound_prune [OF assms(1)] assms(1)
    by (cases t) (auto simp: authenticate_eq Let_def prune_expired_def split: option.splits)
next
  case (ValidateContext cx)
  then show ?thesis using bound_prune [OF assms(1)]
    by (simp add: validate_context_eq Let_def) (simp add: prune_expired_def)
next
  case (IssueTicket cx p)
  obtain r s' where r: "issue_ticket am cx p s = (r, s')" by fastforce
  let ?a = "prune_expired (m_instant (ah_mach s)) (ah_auth s)"
  have b: "bound_to c ?a" and g: "generation ?a = generation (ah_auth s)"
    using bound_prune [OF assms(1)] by (simp_all add: prune_expired_def)
  from r show ?thesis
  proof (cases rule: issue_ticket_cases)
    case (3 token)
    let ?t = "\<lparr>tk_client_id = cx_client_id cx,
      tk_expires_at = m_instant (ah_mach s) + am_ticket_ttl am,
      tk_generation = generation (ah_auth s), tk_purpose = p\<rparr>"
    have "cx_client_id cx = c"
      using live_session_In [OF 3(2)] b by (fastforce simp: bound_to_def)
    then have "\<forall>(k, t) \<in> set (AList.update (hash_of am token) ?t (tickets ?a)). tk_client_id t = c"
      by (intro ball_alist_update) (use b in \<open>simp_all add: bound_to_def\<close>)
    then show ?thesis
      using b g r by (simp add: IssueTicket 3(3) bound_to_def pairing_available_def)
  qed (use r b g assms(1) IssueTicket in auto)
next
  case (ConsumeTicket t p)
  show ?thesis
    using assms(1) unfolding ConsumeTicket
    by (auto simp: consume_ticket_eq bound_to_def pairing_available_def dest!: in_alist_delete
        split: option.splits)
next
  case RecoveryRequired
  then show ?thesis using bound_prune [OF assms(1)]
    by (simp add: pairing_recovery_required_eq Let_def) (simp add: prune_expired_def)
qed (use assms in \<open>auto simp: revoke_all_eq invalidate_eq environment_def bound_to_def
    pairing_available_def\<close>)

lemma bound_run:
  assumes "bound_to c (ah_auth s)" and "RotatePairing \<notin> set cs"
  shows "bound_to c (ah_auth (auth_run am cs s)) \<and>
    generation (ah_auth (auth_run am cs s)) = generation (ah_auth s)"
  using assms
proof (induction cs arbitrary: s)
  case (Cons call cs)
  then have "call \<noteq> RotatePairing" by auto
  from bound_exec [OF Cons.prems(1) this] Cons show ?case by simp
qed simp

lemma inv_bound:
  assumes "auth_inv a" and "\<not> pairing_available a"
  obtains c where "bound_to c a"
  using assms by (auto simp: auth_inv_def bound_to_def)

lemma accepted_bound:
  assumes "accepted_context am s cx" and "auth_inv (ah_auth s)" and "bound_to c (ah_auth s)"
  shows "cx = \<lparr>cx_client_id = c, cx_generation = generation (ah_auth s)\<rparr>"
  using assms(1)
proof cases
  case (by_cookie t x r s')
  then obtain token where "t = Some token" by (cases t) auto
  with by_cookie assms(2, 3) show ?thesis
    by (fastforce simp: authenticate_eq Let_def prune_expired_def bound_to_def auth_inv_def
        dest!: map_of_SomeD split: option.splits if_splits)
next
  case (by_ticket t p s')
  with assms(2, 3) show ?thesis
    by (fastforce simp: consume_ticket_eq bound_to_def dest!: map_of_SomeD
        split: option.splits if_splits)
qed

lemma accepted_not_available:
  assumes "accepted_context am s cx" and "auth_inv (ah_auth s)"
  shows "\<not> pairing_available (ah_auth s)"
  using assms(1)
proof cases
  case (by_cookie t x r s')
  then obtain token where "t = Some token" by (cases t) auto
  with by_cookie assms(2) show ?thesis
    by (fastforce simp: authenticate_eq Let_def prune_expired_def auth_inv_def
        split: option.splits if_splits)
next
  case (by_ticket t p s')
  with assms(2) show ?thesis
    by (fastforce simp: consume_ticket_eq auth_inv_def split: option.splits if_splits)
qed

section \<open>Facts for the properties\<close>

lemma stale_exec:
  assumes "\<not> pairing_available (ah_auth s)" and "call \<noteq> RotatePairing"
  shows "\<not> pairing_available (ah_auth (auth_exec am call s)) \<and>
    set (sessions (ah_auth (auth_exec am call s))) \<subseteq> set (sessions (ah_auth s))"
proof (cases call)
  case (ExchangePairing p)
  have "\<not> accepts am (ah_auth s) p" using assms(1) accepts_available by blast
  moreover obtain r s' where "exchange_pairing am p s = (r, s')" by fastforce
  ultimately show ?thesis
    using assms(1) unfolding ExchangePairing
    by (auto simp: pairing_available_def elim!: exchange_cases)
next
  case (Authenticate t x r)
  show ?thesis unfolding Authenticate using assms(1)
    by (cases t) (auto simp: authenticate_eq Let_def prune_expired_def pairing_available_def
        split: option.splits)
next
  case (IssueTicket cx p)
  obtain r s' where r: "issue_ticket am cx p s = (r, s')" by fastforce
  then show ?thesis unfolding IssueTicket using assms(1)
    by (auto simp: prune_expired_def pairing_available_def elim!: issue_ticket_cases)
qed (use assms in \<open>auto simp: revoke_all_eq invalidate_eq environment_def pairing_available_def
    validate_context_eq pairing_recovery_required_eq consume_ticket_eq Let_def prune_expired_def
    split: option.splits\<close>)

lemma stale_run:
  assumes "\<not> pairing_available (ah_auth s)" and "RotatePairing \<notin> set cs"
  shows "\<not> pairing_available (ah_auth (auth_run am cs s)) \<and>
    set (sessions (ah_auth (auth_run am cs s))) \<subseteq> set (sessions (ah_auth s))"
  using assms
proof (induction cs arbitrary: s)
  case (Cons call cs)
  then have "call \<noteq> RotatePairing" by auto
  from stale_exec [OF Cons.prems(1) this] Cons show ?case by fastforce
qed simp

lemma unavailable_refuses:
  assumes "\<not> pairing_available (ah_auth s)"
  shows "fst (exchange_pairing am q s) = Inl InvalidPairing"
proof -
  have "\<not> accepts am (ah_auth s) q" using assms accepts_available by blast
  then show ?thesis
    by (cases "locked (m_instant (ah_mach s)) (ah_auth s)")
      (simp_all add: exchange_locked exchange_wrong)
qed

lemma exchange_ok_unavailable:
  "exchange_pairing am p s = (Inr res, s') \<Longrightarrow> \<not> pairing_available (ah_auth s')"
  by (erule exchange_cases) (simp_all add: consumed_def pairing_available_def)

lemma no_session_no_cookie:
  "sessions (ah_auth s) = [] \<Longrightarrow> fst (authenticate am t c r s) = Inl Unauthorized"
  by (cases t) (simp_all add: authenticate_eq Let_def prune_expired_def)

lemma accepted_generation:
  assumes "accepted_context am s cx"
  shows "cx_generation cx = generation (ah_auth s)"
  using assms
proof cases
  case (by_cookie t x r s')
  then obtain token where "t = Some token" by (cases t) auto
  with by_cookie show ?thesis
    by (auto simp: authenticate_eq Let_def prune_expired_def dest!: map_of_SomeD
        split: option.splits if_splits)
next
  case (by_ticket t p s')
  then show ?thesis by (auto simp: consume_ticket_eq split: option.splits if_splits)
qed

lemma generation_exec:
  "generation (ah_auth (auth_exec am call s)) = generation (ah_auth s) \<or>
   call = RotatePairing \<and> generation (ah_auth (auth_exec am call s)) = generation (ah_auth s) + 1"
proof (cases call)
  case RotatePairing
  obtain r s' where "rotate_pairing am s = (r, s')" by fastforce
  then show ?thesis unfolding RotatePairing by (auto elim!: rotate_pairing_cases)
next
  case (ExchangePairing p)
  obtain r s' where "exchange_pairing am p s = (r, s')" by fastforce
  then show ?thesis unfolding ExchangePairing by (auto simp: consumed_def elim!: exchange_cases)
next
  case (Authenticate t x r)
  show ?thesis unfolding Authenticate
    by (cases t) (auto simp: authenticate_eq Let_def prune_expired_def split: option.splits)
next
  case (IssueTicket cx p)
  obtain r s' where "issue_ticket am cx p s = (r, s')" by fastforce
  then show ?thesis unfolding IssueTicket
    by (auto simp: prune_expired_def elim!: issue_ticket_cases)
qed (auto simp: revoke_all_eq invalidate_eq environment_def
    validate_context_eq pairing_recovery_required_eq consume_ticket_eq Let_def prune_expired_def
    split: option.splits)

lemma generation_run:
  "\<exists>n \<le> count_list cs RotatePairing.
     generation (ah_auth (auth_run am cs s)) = generation (ah_auth s) + of_nat n"
proof (induction cs arbitrary: s)
  case (Cons c cs)
  obtain n where n: "n \<le> count_list cs RotatePairing"
    "generation (ah_auth (auth_run am cs (auth_exec am c s))) =
       generation (ah_auth (auth_exec am c s)) + of_nat n"
    using Cons by blast
  from generation_exec [of am c s] show ?case
  proof
    assume "generation (ah_auth (auth_exec am c s)) = generation (ah_auth s)"
    with n show ?thesis by (intro exI [of _ n]) auto
  next
    assume "c = RotatePairing \<and>
      generation (ah_auth (auth_exec am c s)) = generation (ah_auth s) + 1"
    with n show ?thesis by (intro exI [of _ "Suc n"]) auto
  qed
qed simp

lemma word_add_small_neq:
  assumes "0 < n" and "n < 2 ^ 64"
  shows "(g :: u64) + of_nat n \<noteq> g"
proof
  assume "g + of_nat n = g"
  then have "(of_nat n :: u64) = 0" by simp
  then have "unat (of_nat n :: u64) = 0" by simp
  with assms show False by (simp add: unat_of_nat take_bit_eq_mod)
qed

subsection \<open>Guessing\<close>

definition later :: "nat \<Rightarrow> 'b auth_host \<Rightarrow> 'b auth_host" where
  "later d s = s\<lparr>ah_mach := (ah_mach s)\<lparr>m_instant := m_instant (ah_mach s) + d\<rparr>\<rparr>"

fun guess_run :: "auth_manager \<Rightarrow> (nat \<times> string) list \<Rightarrow> 'b auth_host \<Rightarrow> 'b auth_host" where
  "guess_run am [] s = s"
| "guess_run am ((d, p) # gs) s = guess_run am gs (snd (exchange_pairing am p (later d s)))"

text \<open>The guesses that were compared with the pairing material, and the time the attack took.\<close>

fun guesses_examined :: "auth_manager \<Rightarrow> (nat \<times> string) list \<Rightarrow> 'b auth_host \<Rightarrow> nat" where
  "guesses_examined am [] s = 0"
| "guesses_examined am ((d, p) # gs) s =
     (if locked (m_instant (ah_mach (later d s))) (ah_auth s) then 0 else 1) +
     guesses_examined am gs (snd (exchange_pairing am p (later d s)))"

definition elapsed :: "(nat \<times> string) list \<Rightarrow> nat" where
  "elapsed gs = sum_list (map fst gs)"

definition lock_left :: "'b auth_host \<Rightarrow> nat" where
  "lock_left s = (case locked_until (ah_auth s) of None \<Rightarrow> 0
     | Some u \<Rightarrow> u - m_instant (ah_mach s))"

lemma elapsed_Cons [simp]: "elapsed ((d, p) # gs) = d + elapsed gs"
  by (simp add: elapsed_def)

lemma later_simps [simp]:
  "ah_auth (later d s) = ah_auth s" "m_instant (ah_mach (later d s)) = m_instant (ah_mach s) + d"
  by (simp_all add: later_def)

lemma locked_lock_left: "locked (m_instant (ah_mach s)) (ah_auth s) \<longleftrightarrow> 0 < lock_left s"
  by (simp add: locked_def lock_left_def split: option.splits)

lemma lock_left_later: "lock_left (later d s) = lock_left s - d"
  by (simp add: lock_left_def split: option.splits)

lemma wrong_guess_effect:
  assumes "\<not> locked (m_instant (ah_mach s)) (ah_auth s)" and "\<not> accepts am (ah_auth s) p"
    and "failed_pairings (ah_auth s) < max_pair_failures"
    and "s' = snd (exchange_pairing am p s)"
  shows "m_instant (ah_mach s') = m_instant (ah_mach s) \<and>
    (\<forall>q. accepts am (ah_auth s') q \<longleftrightarrow> accepts am (ah_auth s) q) \<and>
    (if unat (failed_pairings (ah_auth s)) < 4
     then unat (failed_pairings (ah_auth s')) = Suc (unat (failed_pairings (ah_auth s))) \<and>
       lock_left s' = 0
     else failed_pairings (ah_auth s') = 0 \<and> lock_left s' = pair_lockout)"
proof -
  have b: "unat (failed_pairings (ah_auth s)) < 5"
    using assms(3) by (simp add: max_pair_failures_def word_less_nat_alt)
  then have "failed_pairings (ah_auth s) \<noteq> - 1"
    by (metis max_pair_failures_def assms(3) word_less_1 not_less word_n1_ge)
  moreover have "unat (failed_pairings (ah_auth s) + 1) = Suc (unat (failed_pairings (ah_auth s)))"
    using b by (simp add: unat_word_ariths)
  ultimately show ?thesis
    using b assms(1, 2) unfolding assms(4)
    by (auto simp: exchange_wrong record_failure_def saturating_succ_def Let_def accepts_def
        lock_left_def max_pair_failures_def word_le_nat_alt)
qed

lemma guess_bound_aux:
  assumes "failed_pairings (ah_auth s) < max_pair_failures"
    and "\<forall>(d, p) \<in> set gs. \<not> accepts am (ah_auth s) p"
  shows "if elapsed gs < lock_left s then guesses_examined am gs s = 0
    else guesses_examined am gs s + unat (failed_pairings (ah_auth s)) \<le>
      5 * ((elapsed gs - lock_left s) div pair_lockout + 1)"
  using assms
proof (induction gs arbitrary: s)
  case Nil
  then have "unat (failed_pairings (ah_auth s)) < 5"
    by (simp add: max_pair_failures_def word_less_nat_alt)
  then show ?case by (simp add: elapsed_def)
next
  case (Cons g gs)
  obtain d p where g: "g = (d, p)" by fastforce
  let ?s1 = "later d s" and ?s2 = "snd (exchange_pairing am p (later d s))"
  have e: "elapsed (g # gs) = d + elapsed gs" by (simp add: elapsed_def g)
  show ?case
  proof (cases "locked (m_instant (ah_mach ?s1)) (ah_auth ?s1)")
    case True
    then have s2: "?s2 = ?s1" by (simp add: exchange_locked)
    have d: "d < lock_left s" using True unfolding locked_lock_left lock_left_later by simp
    have t: "elapsed gs < lock_left s - d \<longleftrightarrow> d + elapsed gs < lock_left s"
      "elapsed gs - (lock_left s - d) = d + elapsed gs - lock_left s" using d by auto
    have "guesses_examined am (g # gs) s = guesses_examined am gs ?s1"
      using True s2 by (simp add: g)
    with Cons.IH [of ?s1] Cons.prems show ?thesis
      unfolding e lock_left_later t by (auto split: if_splits)
  next
    case False
    then have d: "lock_left s \<le> d" unfolding locked_lock_left lock_left_later by simp
    have na: "\<not> accepts am (ah_auth ?s1) p" using Cons.prems(2) by (simp add: g)
    have f: "failed_pairings (ah_auth ?s1) < max_pair_failures" using Cons.prems(1) by simp
    note eff = wrong_guess_effect [OF False na f refl]
    have f2: "failed_pairings (ah_auth ?s2) < max_pair_failures"
      using eff by (auto simp: max_pair_failures_def word_less_nat_alt split: if_splits)
    have a2: "\<forall>(d, p) \<in> set gs. \<not> accepts am (ah_auth ?s2) p"
      using eff Cons.prems(2) by auto
    have ih: "if elapsed gs < lock_left ?s2 then guesses_examined am gs ?s2 = 0
      else guesses_examined am gs ?s2 + unat (failed_pairings (ah_auth ?s2)) \<le>
        5 * ((elapsed gs - lock_left ?s2) div pair_lockout + 1)"
      by (rule Cons.IH [OF f2 a2])
    have b: "unat (failed_pairings (ah_auth s)) < 5"
      using Cons.prems(1) by (simp add: max_pair_failures_def word_less_nat_alt)
    have mono: "elapsed gs div pair_lockout \<le> (d + elapsed gs - lock_left s) div pair_lockout"
      using d by (intro div_le_mono) simp
    have L: "0 < pair_lockout" by (simp add: pair_lockout_def second_def)
    have step: "guesses_examined am (g # gs) s = Suc (guesses_examined am gs ?s2)"
      using False by (simp add: g)
    have "guesses_examined am (g # gs) s + unat (failed_pairings (ah_auth s)) \<le>
        5 * (elapsed gs div pair_lockout + 1)"
    proof (cases "unat (failed_pairings (ah_auth s)) < 4")
      case True
      with eff ih show ?thesis unfolding step by simp
    next
      case False
      with b have f4: "unat (failed_pairings (ah_auth s)) = 4" by simp
      with eff have "failed_pairings (ah_auth ?s2) = 0" "lock_left ?s2 = pair_lockout" by auto
      with ih f4 L show ?thesis unfolding step
        by (auto simp: le_div_geq split: if_splits)
    qed
    with mono d e show ?thesis by simp
  qed
qed

section \<open>Example values\<close>

text \<open>A machine and a crypto provider on which the witnesses run the operations.\<close>

definition demo_crypto :: crypto where
  "demo_crypto = \<lparr>cr_blake3 = (\<lambda>s. of_nat (length s)),
     cr_base64url = map (\<lambda>_. CHR ''A''), cr_base32 = (\<lambda>_. replicate 9 CHR ''M'')\<rparr>"

definition demo_manager :: auth_manager where
  "demo_manager = \<lparr>am_auth_ttl = 60 * second, am_ticket_ttl = 5 * second, am_crypto = demo_crypto\<rparr>"

definition demo_machine :: "unit machine" where
  "demo_machine = \<lparr>m_instant = 0, m_utc = 0, m_random = (\<lambda>n. Some (replicate (Suc n) 7)),
     m_draws = 0, m_uuid = (\<lambda>n. of_nat n + 1), m_uuids = 0, m_fs = [], m_fault = (\<lambda>_. None),
     m_helpers = ()\<rparr>"

definition demo_host :: "unit auth_host" where
  "demo_host = \<lparr>ah_mach = demo_machine, ah_auth = auth_state_new\<rparr>"

definition demo_ready :: "unit auth_host" where
  "demo_ready = snd (rotate_pairing demo_manager demo_host)"

definition demo_paired :: "unit auth_host" where
  "demo_paired = snd (exchange_pairing demo_manager ''A'' demo_ready)"

definition demo_context :: auth_context where
  "demo_context = \<lparr>cx_client_id = 1, cx_generation = 1\<rparr>"

lemmas demo_defs = demo_crypto_def demo_manager_def demo_machine_def demo_host_def

lemma demo_rotate: "rotate_pairing demo_manager demo_host =
    (Inr \<lparr>pm_secret = ''A'', pm_manual_code = ''MMMM-MMMM-M''\<rparr>, demo_ready)"
  by (simp add: demo_ready_def rotate_pairing_def auth_op_defs demo_defs getrandom_def
      group_manual_code_def join.simps numeral_eq_Suc)

lemma demo_ready_eq: "demo_ready = \<lparr>ah_mach = demo_machine\<lparr>m_draws := 1\<rparr>,
    ah_auth = auth_state_new\<lparr>generation := 1, pairing_hash := Some 1,
      manual_pairing_hash := Some 11\<rparr>\<rparr>"
  by (simp add: demo_ready_def rotate_pairing_def auth_op_defs demo_defs getrandom_def
      group_manual_code_def join.simps numeral_eq_Suc auth_state_new_def hash_of_def)

lemma demo_exchange: "exchange_pairing demo_manager ''A'' demo_ready =
    (Inr \<lparr>er_session_token = ''AA'', er_csrf_token = ''AAA'', er_client_id = 1,
          er_expires_in_seconds = 60\<rparr>, demo_paired)"
  by (simp add: demo_paired_def demo_ready_eq exchange_pairing_def auth_op_defs demo_defs
      getrandom_def auth_state_new_def hash_of_def second_def)

lemma demo_paired_eq: "demo_paired = \<lparr>ah_mach = demo_machine\<lparr>m_draws := 3, m_uuids := 1\<rparr>,
    ah_auth = auth_state_new\<lparr>generation := 1, sessions := [(2, \<lparr>as_client_id = 1,
      as_csrf_hash = 3, as_expires_at = 60 * second, as_generation = 1\<rparr>)]\<rparr>\<rparr>"
  by (simp add: demo_paired_def demo_ready_eq exchange_pairing_def auth_op_defs demo_defs
      getrandom_def auth_state_new_def hash_of_def second_def)

lemma demo_ready_reachable: "auth_reachable demo_manager demo_ready"
  using auth_reachable.auth_next [OF auth_reachable.auth_start, of demo_host demo_manager RotatePairing]
  by (simp add: demo_ready_def demo_host_def)

lemma demo_paired_reachable: "auth_reachable demo_manager demo_paired"
  using auth_reachable.auth_next [OF demo_ready_reachable, of "ExchangePairing ''A''"]
  by (simp add: demo_paired_def)

lemma demo_authenticate: "authenticate demo_manager (Some ''AA'') (Some ''AAA'') True demo_paired =
    (Inr demo_context, demo_paired)"
  by (simp add: authenticate_eq demo_paired_eq demo_defs Let_def prune_expired_def
      auth_state_new_def hash_of_def second_def demo_context_def)

lemma demo_accepted: "accepted_context demo_manager demo_paired demo_context"
  by (rule accepted_context.by_cookie [OF demo_authenticate])

section \<open>Properties\<close>

text \<open>
  C29. A pairing secret is single-use: once an exchange has succeeded, no exchange with any
  presented string succeeds until the pairing material is rotated, whatever calls are made and
  whatever the machine does in between.
\<close>

theorem pairing_is_single_use:
  assumes "exchange_pairing am p s = (Inr res, s')" and "RotatePairing \<notin> set cs"
  shows "fst (exchange_pairing am q (auth_run am cs s')) = Inl InvalidPairing"
  using stale_run [OF exchange_ok_unavailable [OF assms(1)] assms(2)] unavailable_refuses by blast

theorem pairing_is_single_use_witness:
  "fst (exchange_pairing demo_manager ''A'' (auth_run demo_manager [RevokeAll] demo_paired)) =
     Inl InvalidPairing"
  by (rule pairing_is_single_use [OF demo_exchange]) simp

text \<open>
  C30. In one generation at most one client is ever in control: two contexts accepted at any two
  moments of a run without a rotation between them, by cookie or by ticket, are the same.
\<close>

theorem one_controller_per_generation:
  assumes "auth_reachable am s" and "accepted_context am s cx"
    and "RotatePairing \<notin> set cs" and "accepted_context am (auth_run am cs s) cx'"
  shows "cx' = cx"
proof -
  have inv: "auth_inv (ah_auth s)" by (rule auth_reachable_inv [OF assms(1)])
  obtain c where c: "bound_to c (ah_auth s)"
    using inv_bound [OF inv accepted_not_available [OF assms(2) inv]] by blast
  have inv': "auth_inv (ah_auth (auth_run am cs s))"
    by (rule auth_reachable_inv [OF auth_reachable_run [OF assms(1)]])
  show ?thesis
    using accepted_bound [OF assms(2) inv c] accepted_bound [OF assms(4) inv']
      bound_run [OF c assms(3)] by metis
qed

theorem one_controller_per_generation_witness:
  "{cx. accepted_context demo_manager (auth_run demo_manager [] demo_paired) cx} = {demo_context}"
  using one_controller_per_generation [OF demo_paired_reachable demo_accepted, of "[]"]
    demo_accepted by auto

text \<open>
  A successful rotation ends every control granted before it: a context accepted before is
  neither accepted by cookie or ticket nor validated again, for all runs with fewer than
  \<open>2^64 - 1\<close> further rotations (the generation is a wrapping u64).
\<close>

theorem rotation_ends_control:
  assumes "accepted_context am s cx" and "rotate_pairing am s = (Inr pm, s')"
    and "count_list cs RotatePairing < 2 ^ 64 - 1"
  shows "\<not> accepted_context am (auth_run am cs s') cx \<and>
    fst (validate_context cx (auth_run am cs s')) = Inl Unauthorized"
proof -
  obtain n where n: "n \<le> count_list cs RotatePairing"
    "generation (ah_auth (auth_run am cs s')) = generation (ah_auth s') + of_nat n"
    using generation_run by blast
  have "generation (ah_auth s') = generation (ah_auth s) + 1"
    using assms(2) by (auto elim!: rotate_pairing_cases)
  with n have "generation (ah_auth (auth_run am cs s')) = generation (ah_auth s) + of_nat (Suc n)"
    by simp
  then have "generation (ah_auth (auth_run am cs s')) \<noteq> cx_generation cx"
    using word_add_small_neq [of "Suc n"] n(1) assms(3) accepted_generation [OF assms(1)] by simp
  then show ?thesis
    using accepted_generation [of am "auth_run am cs s'" cx]
    by (auto simp: validate_context_eq Let_def live_session_def prune_expired_def)
qed

theorem rotation_ends_control_witness:
  "\<exists>pm s'. rotate_pairing demo_manager demo_paired = (Inr pm, s') \<and>
     fst (validate_context demo_context (auth_run demo_manager [RevokeAll] s')) = Inl Unauthorized"
proof -
  obtain pm s' where r: "rotate_pairing demo_manager demo_paired = (Inr pm, s')"
    by (auto simp: rotate_pairing_def auth_op_defs demo_paired_eq demo_defs getrandom_def)
  show ?thesis
    using r rotation_ends_control [OF demo_accepted r, of "[RevokeAll]"] by auto
qed

text \<open>
  C31. Guessing is rate limited: however an attacker spaces wrong guesses, at most five are ever
  compared with the pairing material in the first lockout period and five more in each further
  30 seconds; the rest are refused unseen.
\<close>

theorem guess_rate_bounded:
  assumes "auth_reachable am s"
    and "\<forall>(d, p) \<in> set gs. \<not> accepts am (ah_auth s) p"
  shows "guesses_examined am gs s \<le> 5 * (elapsed gs div pair_lockout + 1)"
proof -
  have "failed_pairings (ah_auth s) < max_pair_failures"
    using auth_reachable_inv [OF assms(1)] by (simp add: auth_inv_def)
  note b = guess_bound_aux [OF this assms(2)]
  have "(elapsed gs - lock_left s) div pair_lockout \<le> elapsed gs div pair_lockout"
    by (intro div_le_mono) simp
  with b show ?thesis by (auto split: if_splits)
qed

theorem guess_rate_bounded_witness:
  "guesses_examined demo_manager (replicate 9 (second, ''zz'')) demo_ready \<le> 5"
proof -
  have "guesses_examined demo_manager (replicate 9 (second, ''zz'')) demo_ready \<le>
      5 * (elapsed (replicate 9 (second, ''zz'')) div pair_lockout + 1)"
    by (rule guess_rate_bounded [OF demo_ready_reachable])
      (simp add: accepts_def demo_ready_eq demo_defs hash_of_def auth_state_new_def)
  then show ?thesis
    by (simp add: elapsed_def pair_lockout_def second_def sum_list_replicate)
qed

text \<open>
  A ticket carries the context it was issued for and is spent by the first use: within its
  lifetime, with the purpose it was issued for, it yields exactly that context; with the other
  purpose it yields nothing; and after either use it is gone.
\<close>

theorem ticket_roundtrip:
  assumes "issue_ticket am cx purpose s = (Inr token, s1)"
    and "m_instant h < m_instant (ah_mach s) + am_ticket_ttl am"
    and "consume_ticket am token used (s1\<lparr>ah_mach := h\<rparr>) = (r, s2)"
  shows "r = (if used = purpose then Inr cx else Inl Unauthorized) \<and>
    map_of (tickets (ah_auth s2)) (hash_of am token) = None"
proof -
  have live: "live_session cx (m_instant (ah_mach s))
      (prune_expired (m_instant (ah_mach s)) (ah_auth s))"
    and a: "ah_auth s1 = (prune_expired (m_instant (ah_mach s)) (ah_auth s))\<lparr>tickets :=
       AList.update (hash_of am token)
         \<lparr>tk_client_id = cx_client_id cx, tk_expires_at = m_instant (ah_mach s) + am_ticket_ttl am,
          tk_generation = generation (ah_auth s), tk_purpose = purpose\<rparr>
         (tickets (prune_expired (m_instant (ah_mach s)) (ah_auth s)))\<rparr>"
    using assms(1) by (auto elim!: issue_ticket_cases)
  have "cx_generation cx = generation (ah_auth s)"
    using live by (simp add: live_session_def prune_expired_def)
  then show ?thesis
    using assms(2, 3) by (auto simp: consume_ticket_eq a AList.update_conv' AList.delete_conv'
        prune_expired_def split: if_splits)
qed

theorem ticket_roundtrip_witness:
  "\<exists>s1 s2. issue_ticket demo_manager demo_context Events demo_paired = (Inr ''AAAA'', s1) \<and>
     consume_ticket demo_manager ''AAAA'' Events (s1\<lparr>ah_mach := demo_machine\<rparr>) =
       (Inr demo_context, s2)"
proof -
  have aaa: "replicate 3 CHR ''A'' = ''AAA''" by (simp add: numeral_eq_Suc)
  obtain s1 where i: "issue_ticket demo_manager demo_context Events demo_paired = (Inr ''AAAA'', s1)"
    by (auto simp: issue_ticket_def auth_op_defs demo_paired_eq demo_defs getrandom_def
        live_session_def prune_expired_def auth_state_new_def demo_context_def second_def
        aaa)
  obtain r s2 where c: "consume_ticket demo_manager ''AAAA'' Events (s1\<lparr>ah_mach := demo_machine\<rparr>) =
      (r, s2)" by fastforce
  have "m_instant demo_machine < m_instant (ah_mach demo_paired) + am_ticket_ttl demo_manager"
    by (simp add: demo_paired_eq demo_defs second_def)
  from ticket_roundtrip [OF i this c] i c show ?thesis by auto
qed

text \<open>
  The recovery flag is raised exactly when the published pairing material is used up and no
  session is left, and then nobody can gain control before a rotation: in every later run
  without one, no exchange succeeds and no cookie is accepted.
\<close>

theorem recovery_flag_means_stranded:
  assumes "pairing_recovery_required s = (Inr True, s')" and "RotatePairing \<notin> set cs"
  shows "fst (exchange_pairing am q (auth_run am cs s')) = Inl InvalidPairing \<and>
    fst (authenticate am t c r (auth_run am cs s')) = Inl Unauthorized"
proof -
  have n: "\<not> pairing_available (ah_auth s')" and e: "sessions (ah_auth s') = []"
    using assms(1) by (auto simp: pairing_recovery_required_eq Let_def pairing_available_def)
  from stale_run [OF n assms(2)] e show ?thesis
    by (simp add: unavailable_refuses no_session_no_cookie)
qed

theorem recovery_flag_means_stranded_witness:
  "fst (authenticate demo_manager (Some ''AA'') (Some ''AAA'') True
      (auth_run demo_manager [RecoveryRequired]
        (snd (pairing_recovery_required (environment
          (demo_machine\<lparr>m_instant := 61 * second\<rparr>) demo_paired)
            :: (unit + bool) \<times> unit auth_host)))) = Inl Unauthorized"
proof -
  let ?s = "environment (demo_machine\<lparr>m_instant := 61 * second\<rparr>) demo_paired"
  have "(pairing_recovery_required ?s :: (unit + bool) \<times> unit auth_host) =
      (Inr True, snd (pairing_recovery_required ?s :: (unit + bool) \<times> unit auth_host))"
    by (simp add: pairing_recovery_required_eq Let_def environment_def demo_paired_eq
        prune_expired_def demo_defs auth_state_new_def second_def)
  from recovery_flag_means_stranded [OF this, of "[RecoveryRequired]"] show ?thesis by simp
qed

text \<open>
  Authentication, exactly: a cookie is accepted if and only if its digest has a session of
  the current generation that has not expired and, for a state-changing request, the presented
  CSRF token has the digest stored beside it; the context is that session's.
\<close>

theorem authenticate_exactly:
  assumes "auth_reachable am s"
  shows "fst (authenticate am (Some token) csrf require s) = Inr cx \<longleftrightarrow>
    (\<exists>x. map_of (sessions (ah_auth s)) (hash_of am token) = Some x \<and>
      m_instant (ah_mach s) < as_expires_at x \<and>
      (\<not> require \<or> (\<exists>t. csrf = Some t \<and> as_csrf_hash x = hash_of am t)) \<and>
      cx = \<lparr>cx_client_id = as_client_id x, cx_generation = generation (ah_auth s)\<rparr>)"
proof -
  have inv: "auth_inv (ah_auth s)" by (rule auth_reachable_inv [OF assms])
  then have len: "length (sessions (ah_auth s)) \<le> 1" by (simp add: auth_inv_def)
  then have d: "distinct (map fst (sessions (ah_auth s)))"
    by (cases "sessions (ah_auth s)") auto
  have g: "as_generation x = generation (ah_auth s)"
    if "map_of (sessions (ah_auth s)) k = Some x" for k x
    using that inv by (fastforce simp: auth_inv_def dest: map_of_SomeD)
  show ?thesis
    by (cases csrf) (auto simp: authenticate_eq Let_def prune_expired_def
        map_of_filter_key [OF d, of "\<lambda>_ x. m_instant (ah_mach s) < as_expires_at x \<and>
          as_generation x = generation (ah_auth s)"] g split: option.splits)
qed

theorem authenticate_exactly_witness:
  "\<exists>x. map_of (sessions (ah_auth demo_paired)) (hash_of demo_manager ''AA'') = Some x \<and>
      m_instant (ah_mach demo_paired) < as_expires_at x"
  using authenticate_exactly [OF demo_paired_reachable, of "''AA''" "Some ''AAA''" True demo_context]
  by (auto simp: demo_authenticate)

section \<open>The pairing file\<close>

lemma parent_prefix:
  assumes "parent_components path = Some q"
  shows "\<exists>c. components path = q @ [c]"
  using assms unfolding parent_components_def parent_of_def
  by (auto split: list.splits path_component.splits)

lemma publish_steps:
  assumes "steps [open_truncate u, write_all u body, sync_all u, rename u t] h = (r, h')" "u \<noteq> t"
  shows "(case r of Inl e \<Rightarrow> fs_node (m_fs h') t = fs_node (m_fs h) t
      | Inr _ \<Rightarrow> fs_node (m_fs h') t = Some (FileNode body)) \<and>
    (q \<noteq> t \<longrightarrow> q \<noteq> u \<longrightarrow> fs_node (m_fs h') q = fs_node (m_fs h) q)"
proof -
  have "wp (steps [open_truncate u, write_all u body, sync_all u, rename u t]) (\<lambda>r h'.
      (case r of Inl e \<Rightarrow> fs_node (m_fs h') t = fs_node (m_fs h) t
        | Inr _ \<Rightarrow> fs_node (m_fs h') t = Some (FileNode body)) \<and>
      (q \<noteq> t \<longrightarrow> q \<noteq> u \<longrightarrow> fs_node (m_fs h') q = fs_node (m_fs h) q)) h"
    using assms(2) by (auto simp: wp_rules split: option.splits)
  from wpD [OF this assms(1)] show ?thesis .
qed

lemma write_pairing_file_effect:
  assumes "write_pairing_file material path url h = (r, h')"
    and "with_extension ''tmp'' (components path) \<noteq> components path"
  shows "(case r of
      Inl e \<Rightarrow> fs_node (m_fs h') (components path) = fs_node (m_fs h) (components path)
    | Inr _ \<Rightarrow> fs_node (m_fs h') (components path) = Some (FileNode (pairing_body material url))) \<and>
    {q. q \<noteq> components path \<and> q \<noteq> with_extension ''tmp'' (components path) \<and>
        fs_node (m_fs h) q \<noteq> None \<and> fs_node (m_fs h') q \<noteq> fs_node (m_fs h) q} = {}"
proof -
  let ?t = "components path" and ?u = "with_extension ''tmp'' (components path)"
  define mk :: "('a machine, string, unit) op" where
    "mk = (case parent_components path of None \<Rightarrow> ret () | Some parent \<Rightarrow> create_dir_all parent)"
  obtain r1 h1 where mk: "mk h = (r1, h1)" by fastforce
  have keep: "fs_node (m_fs h1) ?t = fs_node (m_fs h) ?t \<and>
      (\<forall>q. fs_node (m_fs h) q \<noteq> None \<longrightarrow> fs_node (m_fs h1) q = fs_node (m_fs h) q)"
  proof (cases "parent_components path")
    case (Some p)
    then have "\<not> prefix ?t p" using parent_prefix by fastforce
    have "create_dir_all p h = (r1, h1)" using mk Some by (simp add: mk_def)
    note k = create_dir_all_keeps [OF this]
    from k [of ?t] \<open>\<not> prefix ?t p\<close> have "fs_node (m_fs h1) ?t = fs_node (m_fs h) ?t" by blast
    with k show ?thesis by auto
  qed (use mk in \<open>simp add: mk_def ret_def\<close>)
  have run: "write_pairing_file material path url h =
      (case r1 of Inl e \<Rightarrow> (Inl e, h1) | Inr _ \<Rightarrow>
        steps [open_truncate ?u, write_all ?u (pairing_body material url), sync_all ?u,
          rename ?u ?t] h1)"
    by (simp add: write_pairing_file_def Let_def mk_def [symmetric] and_then_def mk
        split: sum.splits)
  show ?thesis
  proof (cases r1)
    case (Inl e)
    with run assms(1) have "r = Inl e" "h' = h1" by simp_all
    with keep show ?thesis by auto
  next
    case (Inr x)
    have "steps [open_truncate ?u, write_all ?u (pairing_body material url), sync_all ?u,
          rename ?u ?t] h1 = (r, h')" using run assms(1) Inr by simp
    note p = publish_steps [OF this assms(2)]
    from p [of ?t] keep show ?thesis
      by (cases r) (use p keep in auto)
  qed
qed

text \<open>
  Publishing is atomic: whatever call fails, the published pairing file is either untouched
  or holds exactly the new link and code; it is the latter if and only if the operation succeeds;
  and no other existing file is changed, apart from the temporary one beside it.
\<close>

theorem pairing_file_published_atomically:
  assumes "write_pairing_file material path url h = (r, h')"
    and "with_extension ''tmp'' (components path) \<noteq> components path"
  shows "(case r of
      Inl e \<Rightarrow> fs_node (m_fs h') (components path) = fs_node (m_fs h) (components path)
    | Inr _ \<Rightarrow> fs_node (m_fs h') (components path) = Some (FileNode (pairing_body material url))) \<and>
    {q. q \<noteq> components path \<and> q \<noteq> with_extension ''tmp'' (components path) \<and>
        fs_node (m_fs h) q \<noteq> None \<and> fs_node (m_fs h') q \<noteq> fs_node (m_fs h) q} = {}"
  using assms by (rule write_pairing_file_effect)

theorem pairing_file_published_atomically_witness:
  "\<exists>h'. write_pairing_file \<lparr>pm_secret = ''A'', pm_manual_code = ''M''\<rparr> ''p'' ''u/'' demo_machine =
      (Inr (), h') \<and>
    fs_node (m_fs h') [Normal ''p''] =
      Some (FileNode (pairing_body \<lparr>pm_secret = ''A'', pm_manual_code = ''M''\<rparr> ''u/''))"
proof -
  let ?m = "\<lparr>pm_secret = ''A'', pm_manual_code = ''M''\<rparr>"
  have c: "components ''p'' = [Normal ''p'']"
    by (simp add: components_def is_absolute_def Let_def List.map_filter_def)
  have x: "with_extension ''tmp'' [Normal ''p''] = [Normal ''p.tmp'']"
    by (simp add: with_extension_def file_stem_def rsplit_once_def)
  have pc: "parent_components ''p'' = Some []" by (simp add: parent_components_def parent_of_def c)
  obtain h' where w: "write_pairing_file ?m ''p'' ''u/'' demo_machine = (Inr (), h')"
    by (auto simp: write_pairing_file_def Let_def c x pc and_then_def fs_op_defs fs_node_def fs_put_def create_dir_all_def
        demo_machine_def prefixes_def)
  have "with_extension ''tmp'' (components ''p'') \<noteq> components ''p''" by (simp add: c x)
  from pairing_file_published_atomically [OF w this] w c show ?thesis by simp
qed

end
