(* ===== verification/AppLifecycle.thy ===== *)
theory AppLifecycle
  imports Session AuthTrace
begin

text \<open>
  \<open>src/lib.rs\<close>: \<open>AppState\<close> joins the pairing state and the session under one lifecycle lock, and
  the watchdog loop of \<open>src/main.rs\<close> calls its two recovery methods every five seconds. One
  machine is shared: an operation of either part runs on it through \<open>with_auth\<close> or \<open>with_session\<close>.
\<close>

section \<open>State\<close>

record 'b app =
  ap_sess :: "'b sess"
  ap_auth :: auth_state

record 'b app_state =
  as_auth :: auth_manager
  as_sessions :: "'b session_manager"
  as_pairing_file :: path
  as_public_base_url :: string

definition with_session :: "('b sess, 'e, 'a) op \<Rightarrow> ('b app, 'e, 'a) op" where
  "with_session m s = (case m (ap_sess s) of (r, t) \<Rightarrow> (r, s\<lparr>ap_sess := t\<rparr>))"

definition auth_view :: "'b app \<Rightarrow> 'b auth_host" where
  "auth_view s = \<lparr>ah_mach = ss_mach (ap_sess s), ah_auth = ap_auth s\<rparr>"

definition with_auth :: "('b auth_host, 'e, 'a) op \<Rightarrow> ('b app, 'e, 'a) op" where
  "with_auth m s = (case m (auth_view s) of (r, t) \<Rightarrow>
     (r, s\<lparr>ap_sess := (ap_sess s)\<lparr>ss_mach := ah_mach t\<rparr>, ap_auth := ah_auth t\<rparr>))"

section \<open>Operations\<close>

definition require_session_id :: "uuid \<Rightarrow> ('b app, app_error, unit) op" where
  "require_session_id expected =
     and_then (with_session get_snapshot) (\<lambda>n.
       if sn_id n = Some expected then ret () else raise NotFound)"

definition rotate_pairing_material :: "'b app_state \<Rightarrow> ('b app, app_error, unit) op" where
  "rotate_pairing_material a =
     and_then (map_err (\<lambda>_. Internal) (with_auth (rotate_pairing (as_auth a)))) (\<lambda>pairing.
     and_then (attempt (with_auth (mach_op
         (write_pairing_file pairing (as_pairing_file a) (as_public_base_url a))))) (\<lambda>written.
       case written of
         Inl _ \<Rightarrow> and_then (with_auth invalidate_unpublished_pairing) (\<lambda>_. raise Internal)
       | Inr _ \<Rightarrow> ret ()))"

definition start_session ::
  "'b app_state \<Rightarrow> auth_context \<Rightarrow> url \<Rightarrow> ('b app, app_error, session_snapshot) op" where
  "start_session a context u =
     and_then (with_auth (validate_context context)) (\<lambda>_.
       with_session (start (as_sessions a) (cx_client_id context) u))"

definition navigate_session ::
  "'b app_state \<Rightarrow> auth_context \<Rightarrow> uuid \<Rightarrow> navigation_command \<Rightarrow> ('b app, app_error, session_snapshot) op" where
  "navigate_session a context expected command =
     and_then (with_auth (validate_context context)) (\<lambda>_.
     and_then (require_session_id expected) (\<lambda>_.
       with_session (navigate (as_sessions a) (cx_client_id context) command)))"

definition switch_session_egress ::
  "'b app_state \<Rightarrow> auth_context \<Rightarrow> uuid \<Rightarrow> egress_mode \<Rightarrow> ('b app, app_error, session_snapshot) op" where
  "switch_session_egress a context expected mode =
     and_then (with_auth (validate_context context)) (\<lambda>_.
     and_then (require_session_id expected) (\<lambda>_.
       with_session (switch_egress (as_sessions a) (cx_client_id context) mode)))"

definition burn_and_rotate ::
  "'b app_state \<Rightarrow> uuid option \<Rightarrow> ('b app, app_error, session_snapshot) op" where
  "burn_and_rotate a controller =
     and_then (attempt (with_session (case controller of
         Some client \<Rightarrow> burn (as_sessions a) client
       | None \<Rightarrow> force_burn (as_sessions a)))) (\<lambda>burn_result.
     and_then (with_auth revoke_all) (\<lambda>_.
     and_then (attempt (rotate_pairing_material a)) (\<lambda>pairing_result.
     and_then (from_result burn_result) (\<lambda>snapshot.
     and_then (from_result pairing_result) (\<lambda>_. ret snapshot)))))"

definition burn_controller_session ::
  "'b app_state \<Rightarrow> auth_context \<Rightarrow> uuid \<Rightarrow> ('b app, app_error, session_snapshot) op" where
  "burn_controller_session a context expected =
     and_then (with_auth (validate_context context)) (\<lambda>_.
     and_then (require_session_id expected) (\<lambda>_.
       burn_and_rotate a (Some (cx_client_id context))))"

definition auto_burn_if_due :: "'b app_state \<Rightarrow> ('b app, app_error, bool) op" where
  "auto_burn_if_due a =
     and_then (with_session get_snapshot) (\<lambda>n.
     and_then (with_session idle_for) (\<lambda>idle.
       let threshold = unat (sn_auto_burn_seconds n) * second
       in if sn_phase n \<noteq> Active \<or> threshold = 0 \<or> idle < threshold then ret False
          else and_then (burn_and_rotate a None) (\<lambda>_. ret True)))"

definition recover_expired_auth :: "'b app_state \<Rightarrow> ('b app, app_error, bool) op" where
  "recover_expired_auth a =
     and_then (with_auth pairing_recovery_required) (\<lambda>required.
       if \<not> required then ret False
       else
         and_then (with_session get_snapshot) (\<lambda>n.
         and_then (attempt (if sn_phase n = Idle then ret n
                            else with_session (force_burn (as_sessions a)))) (\<lambda>burn_result.
         and_then (with_auth revoke_all) (\<lambda>_.
         and_then (attempt (rotate_pairing_material a)) (\<lambda>pairing_result.
         and_then (from_result burn_result) (\<lambda>_.
         and_then (from_result pairing_result) (\<lambda>_. ret True)))))))"

section \<open>The daemon's start and its watchdog\<close>

text \<open>\<open>ensure_runtime_blocklist\<close>; \<open>insecure\<close> is \<open>config.server.allow_insecure_http\<close>.\<close>

definition ensure_runtime_blocklist :: "bool \<Rightarrow> blocklist \<Rightarrow> string + unit" where
  "ensure_runtime_blocklist insecure bl =
     (if \<not> insecure \<and> blocklist_is_empty bl
      then Inl ''production blocklist must exist and contain at least one hostname''
      else Inr ())"

text \<open>
  The part of \<open>main\<close> between the configuration and the listener: the block list guard, a fresh
  session manager, and the first pairing material, published or the daemon does not come up.
\<close>

definition bring_up :: "'b app_state \<Rightarrow> bool \<Rightarrow> 'b machine \<Rightarrow> string + 'b app" where
  "bring_up a insecure h =
     (case ensure_runtime_blocklist insecure (sm_blocklist (as_sessions a)) of
        Inl e \<Rightarrow> Inl e
      | Inr _ \<Rightarrow>
          let s = \<lparr>ap_sess = session_new (as_sessions a) h, ap_auth = auth_state_new\<rparr>
          in case and_then (with_auth (rotate_pairing (as_auth a))) (\<lambda>pairing.
                    with_auth (mach_op (write_pairing_file pairing (as_pairing_file a)
                      (as_public_base_url a)))) s of
               (Inl e, _) \<Rightarrow> Inl e
             | (Inr _, s') \<Rightarrow> Inr s')"

text \<open>One turn of the loop in \<open>spawn_lifecycle_watchdog\<close>: both results are only logged.\<close>

definition watchdog_tick :: "'b app_state \<Rightarrow> ('b app, app_error, unit) op" where
  "watchdog_tick a =
     and_then (attempt (recover_expired_auth a)) (\<lambda>_.
     and_then (attempt (auto_burn_if_due a)) (\<lambda>_. ret ()))"

section \<open>Facts\<close>

lemma wp_with_session [wp_rules]:
  "wp (with_session m) Q s = wp m (\<lambda>r t. Q r (s\<lparr>ap_sess := t\<rparr>)) (ap_sess s)"
  by (simp add: wp_def with_session_def split: prod.splits)

lemma wp_with_auth [wp_rules]:
  "wp (with_auth m) Q s = wp m (\<lambda>r t. Q r (s\<lparr>ap_sess := (ap_sess s)\<lparr>ss_mach := ah_mach t\<rparr>,
     ap_auth := ah_auth t\<rparr>)) (auth_view s)"
  by (simp add: wp_def with_auth_def split: prod.splits)

lemma auth_view_simps [simp]:
  "ah_mach (auth_view s) = ss_mach (ap_sess s)" "ah_auth (auth_view s) = ap_auth s"
  by (simp_all add: auth_view_def)

lemma wp_mach_op [wp_rules]:
  "wp (mach_op m) Q s = wp m (\<lambda>r h. Q r (s\<lparr>ah_mach := h\<rparr>)) (ah_mach s)"
  by (simp add: wp_def mach_op_def split: prod.splits)

lemma wp_validate_context [wp_rules]:
  "wp (validate_context cx) Q s = (let now = m_instant (ah_mach s); a = prune_expired now (ah_auth s)
     in Q (if live_session cx now a then Inr () else Inl Unauthorized) (s\<lparr>ah_auth := a\<rparr>))"
  by (simp add: wp_def validate_context_eq Let_def)

lemma wp_recovery_required [wp_rules]:
  "wp pairing_recovery_required Q s = (let a = prune_expired (m_instant (ah_mach s)) (ah_auth s)
     in Q (Inr (0 < generation a \<and> \<not> pairing_available a \<and> sessions a = [])) (s\<lparr>ah_auth := a\<rparr>))"
  by (simp add: wp_def pairing_recovery_required_eq Let_def pairing_available_def)

lemma wp_revoke_all [wp_rules]:
  "wp revoke_all Q s = Q (Inr ()) (s\<lparr>ah_auth := (ah_auth s)\<lparr>sessions := [], tickets := []\<rparr>\<rparr>)"
  by (simp add: wp_def revoke_all_eq)

lemma wp_invalidate [wp_rules]:
  "wp invalidate_unpublished_pairing Q s = Q (Inr ()) (s\<lparr>ah_auth := (ah_auth s)\<lparr>pairing_hash := None,
     manual_pairing_hash := None, sessions := [], tickets := []\<rparr>\<rparr>)"
  by (simp add: wp_def invalidate_eq)

definition rotated :: "auth_manager \<Rightarrow> pairing_material \<Rightarrow> auth_state \<Rightarrow> auth_state" where
  "rotated am pm st = st\<lparr>generation := generation st + 1,
     pairing_hash := Some (hash_of am (pm_secret pm)),
     manual_pairing_hash := Some (hash_of am (pm_manual_code pm)),
     sessions := [], tickets := [], failed_pairings := 0, locked_until := None\<rparr>"

lemma wp_rotate_pairing [wp_rules]:
  "wp (rotate_pairing am) Q s =
     (let h = ah_mach s; h' = h\<lparr>m_draws := Suc (m_draws h)\<rparr>
      in case m_random h (m_draws h) of
           None \<Rightarrow> Q (Inl ''OS CSPRNG failed'') (s\<lparr>ah_mach := h'\<rparr>)
         | Some raw \<Rightarrow>
             let pm = \<lparr>pm_secret = cr_base64url (am_crypto am) raw,
                       pm_manual_code = group_manual_code (am_crypto am) raw\<rparr>
             in Q (Inr pm) (s\<lparr>ah_mach := h', ah_auth := rotated am pm (ah_auth s)\<rparr>))"
  by (simp add: wp_def rotate_pairing_def auth_op_defs getrandom_def rotated_def split: option.splits)

text \<open>Publishing changes only the file system of the machine.\<close>

lemma wp_only_fs:
  assumes "write_pairing_file pm path url h = (r, h')"
  shows "\<exists>f. h' = h\<lparr>m_fs := f\<rparr>"
proof -
  have "wp (write_pairing_file pm path url) (\<lambda>r h'. \<exists>f. h' = h\<lparr>m_fs := f\<rparr>) h"
  proof (cases "parent_components path")
    case None
    then show ?thesis
      by (auto simp: write_pairing_file_def Let_def wp_rules wp_def and_then_def fs_op_defs
          split: option.splits intro: exI [of _ "m_fs h"])
  next
    case (Some p)
    obtain r1 h1 where c: "create_dir_all p h = (r1, h1)" by fastforce
    then obtain f where "h1 = h\<lparr>m_fs := f\<rparr>" using create_dir_all_only_fs by blast
    with Some c show ?thesis
      by (cases r1) (auto simp: write_pairing_file_def Let_def wp_def and_then_def fs_op_defs
          split: option.splits)
  qed
  with assms show ?thesis by (simp add: wp_def)
qed

lemma rotate_material_outcome:
  assumes "with_extension ''tmp'' (components (as_pairing_file a)) \<noteq> components (as_pairing_file a)"
  shows "wp (rotate_pairing_material a) (\<lambda>r s'.
    (\<exists>h. ap_sess s' = (ap_sess s)\<lparr>ss_mach := h\<rparr> \<and> m_helpers h = m_helpers (ss_mach (ap_sess s))
       \<and> m_instant h = m_instant (ss_mach (ap_sess s))) \<and>
    ((r = Inl Internal \<and> ap_auth s' = ap_auth s) \<or>
     (\<exists>pm. r = Inl Internal \<and> ap_auth s' = (rotated (as_auth a) pm (ap_auth s))\<lparr>pairing_hash := None,
        manual_pairing_hash := None, sessions := [], tickets := []\<rparr>) \<or>
     (\<exists>pm. r = Inr () \<and> ap_auth s' = rotated (as_auth a) pm (ap_auth s) \<and>
        fs_node (m_fs (ss_mach (ap_sess s'))) (components (as_pairing_file a)) =
          Some (FileNode (pairing_body pm (as_public_base_url a)))))) s"
proof (cases "m_random (ss_mach (ap_sess s)) (m_draws (ss_mach (ap_sess s)))")
  case None
  then show ?thesis by (auto simp: rotate_pairing_material_def wp_rules Let_def)
next
  case (Some raw)
  let ?h = "(ss_mach (ap_sess s))\<lparr>m_draws := Suc (m_draws (ss_mach (ap_sess s)))\<rparr>"
  let ?pm = "\<lparr>pm_secret = cr_base64url (am_crypto (as_auth a)) raw,
              pm_manual_code = group_manual_code (am_crypto (as_auth a)) raw\<rparr>"
  obtain r h' where w: "write_pairing_file ?pm (as_pairing_file a) (as_public_base_url a) ?h = (r, h')"
    by fastforce
  obtain f where f: "h' = ?h\<lparr>m_fs := f\<rparr>" using wp_only_fs [OF w] by blast
  from write_pairing_file_effect [OF w assms] Some w f show ?thesis
    by (cases r) (auto simp: rotate_pairing_material_def wp_rules Let_def wp_def [of "write_pairing_file _ _ _"])
qed

subsection \<open>The joint invariant\<close>

text \<open>
  Besides the two components' invariants: whoever holds the control lease is the one client of
  the current pairing generation.
\<close>

definition app_inv :: "'b app_state \<Rightarrow> 'b app \<Rightarrow> bool" where
  "app_inv a s \<longleftrightarrow> session_inv (as_sessions a) (ss_data (ap_sess s)) \<and> auth_inv (ap_auth s) \<and>
     (\<forall>c. sd_controller (ss_data (ap_sess s)) = Some c \<longrightarrow> bound_to c (ap_auth s))"

lemma app_invI:
  "session_inv (as_sessions a) (ss_data (ap_sess s)) \<Longrightarrow> auth_inv (ap_auth s) \<Longrightarrow>
   (\<And>c. sd_controller (ss_data (ap_sess s)) = Some c \<Longrightarrow> bound_to c (ap_auth s)) \<Longrightarrow> app_inv a s"
  by (simp add: app_inv_def)

lemma live_bound:
  assumes "auth_inv st" and "live_session cx now st"
  shows "bound_to (cx_client_id cx) st"
proof -
  obtain k x where x: "(k, x) \<in> set (sessions st)" "as_client_id x = cx_client_id cx"
    using live_session_In [OF assms(2)] by blast
  then have "\<not> pairing_available st" using assms(1) by (auto simp: auth_inv_def)
  then obtain c where c: "bound_to c st" using inv_bound [OF assms(1)] by blast
  with x have "c = cx_client_id cx" by (fastforce simp: bound_to_def)
  with c show ?thesis by simp
qed

lemma live_unique:
  assumes "live_session cx now st" and "bound_to c st"
  shows "c = cx_client_id cx"
  using live_session_In [OF assms(1)] assms(2) by (fastforce simp: bound_to_def)

text \<open>What the session operations do to the lease.\<close>

lemma start_controller: "wp (start m c u) (\<lambda>r s'.
    sd_controller (ss_data s') \<in> {sd_controller (ss_data s), Some c}) s"
  unfolding start_def
  by (auto simp: wp_rules Let_def starting_def split: sum.splits prod.splits)

lemma burn_controller:
  "session_inv m (ss_data s) \<Longrightarrow> wp (burn_unchecked m) (\<lambda>r s'. sd_controller (ss_data s') = None) s"
  unfolding burn_unchecked_def
  by (auto simp: wp_rules Let_def session_inv_def split: sum.splits prod.splits)

lemma navigate_controller: "wp (navigate m c cmd) (\<lambda>r s'.
    sd_controller (ss_data s') = sd_controller (ss_data s)) s"
  unfolding navigate_def by (cases cmd) (auto simp: wp_rules split: sum.splits)

lemma setting_controller: "wp (change_setting c f ev) (\<lambda>r s'.
    sd_controller (ss_data s') = sd_controller (ss_data s)) s"
  unfolding change_setting_def by (auto simp: wp_rules)

lemma switch_controller: "wp (switch_egress m c mode) (\<lambda>r s'.
    sd_controller (ss_data s') = sd_controller (ss_data s)) s"
  by (rule wp_mono [OF switch_egress_data]) (auto simp: resumed_def)

lemma wp_conj: "wp m P s \<Longrightarrow> wp m Q s \<Longrightarrow> wp m (\<lambda>r s'. P r s' \<and> Q r s') s"
  by (auto simp: wp_def split: prod.splits)

subsection \<open>Its preservation\<close>

lemma app_inv_prune:
  "app_inv a s \<Longrightarrow> app_inv a (s\<lparr>ap_auth := prune_expired now (ap_auth s)\<rparr>)"
  by (simp add: app_inv_def auth_inv_prune bound_prune)

lemma app_inv_start_session: 
  assumes "app_inv a s" shows "wp (start_session a cx u) (\<lambda>r s'. app_inv a s') s"
proof -
  let ?p = "prune_expired (m_instant (ss_mach (ap_sess s))) (ap_auth s)"
  have p: "app_inv a (s\<lparr>ap_auth := ?p\<rparr>)" by (rule app_inv_prune [OF assms])
  have "wp (start (as_sessions a) (cx_client_id cx) u)
      (\<lambda>r t. app_inv a (s\<lparr>ap_sess := t, ap_auth := ?p\<rparr>)) (ap_sess s)"
    if "live_session cx (m_instant (ss_mach (ap_sess s))) ?p"
  proof (rule wp_mono [OF wp_conj [OF session_inv_start start_controller]])
    show "session_inv (as_sessions a) (ss_data (ap_sess s))" using assms by (simp add: app_inv_def)
    fix r and t :: "'a sess"
    assume t: "session_inv (as_sessions a) (ss_data t) \<and>
      sd_controller (ss_data t) \<in> {sd_controller (ss_data (ap_sess s)), Some (cx_client_id cx)}"
    have "bound_to (cx_client_id cx) ?p" using live_bound [OF _ that] p by (simp add: app_inv_def)
    with t p show "app_inv a (s\<lparr>ap_sess := t, ap_auth := ?p\<rparr>)" by (auto simp: app_inv_def)
  qed
  with p show ?thesis by (simp add: start_session_def wp_rules Let_def app_inv_def)
qed

text \<open>An operation of the session layer that keeps the lease, run under the two guards.\<close>

lemma app_inv_guarded:
  assumes "app_inv a s"
    and "wp m (\<lambda>r t. session_inv (as_sessions a) (ss_data t) \<and>
      sd_controller (ss_data t) = sd_controller (ss_data (ap_sess s))) (ap_sess s)"
  shows "wp (and_then (with_auth (validate_context cx)) (\<lambda>_.
    and_then (require_session_id sid) (\<lambda>_. with_session m))) (\<lambda>r s'. app_inv a s') s"
proof -
  let ?p = "prune_expired (m_instant (ss_mach (ap_sess s))) (ap_auth s)"
  have p: "app_inv a (s\<lparr>ap_auth := ?p\<rparr>)" by (rule app_inv_prune [OF assms(1)])
  have "wp m (\<lambda>r t. app_inv a (s\<lparr>ap_sess := t, ap_auth := ?p\<rparr>)) (ap_sess s)"
    by (rule wp_mono [OF assms(2)]) (use p in \<open>auto simp: app_inv_def\<close>)
  with p show ?thesis
    by (auto simp: wp_rules Let_def require_session_id_def app_inv_def)
qed

lemma app_inv_rotate:
  assumes "app_inv a s" and "sd_controller (ss_data (ap_sess s)) = None"
  shows "wp (rotate_pairing_material a) (\<lambda>r s'. app_inv a s') s"
proof (cases "m_random (ss_mach (ap_sess s)) (m_draws (ss_mach (ap_sess s)))")
  case None
  with assms show ?thesis by (simp add: rotate_pairing_material_def wp_rules Let_def app_inv_def)
next
  case (Some raw)
  have rot: "auth_inv (rotated (as_auth a) pm (ap_auth s))" for pm
    by (simp add: rotated_def auth_inv_def max_pair_failures_def)
  let ?h = "(ss_mach (ap_sess s))\<lparr>m_draws := Suc (m_draws (ss_mach (ap_sess s)))\<rparr>"
  let ?pm = "\<lparr>pm_secret = cr_base64url (am_crypto (as_auth a)) raw,
              pm_manual_code = group_manual_code (am_crypto (as_auth a)) raw\<rparr>"
  obtain r h' where w: "write_pairing_file ?pm (as_pairing_file a) (as_public_base_url a) ?h = (r, h')"
    by fastforce
  from Some assms w rot auth_inv_invalidate [OF rot] show ?thesis
    by (cases r) (simp_all add: rotate_pairing_material_def wp_rules Let_def app_inv_def
        wp_def [of "write_pairing_file _ _ _"])
qed

lemma wp_attempt_ignore: "wp m (\<lambda>r s'. P s') s \<Longrightarrow> wp (attempt m) (\<lambda>r s'. P s') s"
  by (simp add: wp_attempt)

lemma app_inv_revoked:
  "app_inv a s \<Longrightarrow> app_inv a (s\<lparr>ap_auth := (ap_auth s)\<lparr>sessions := [], tickets := []\<rparr>\<rparr>)"
  by (auto simp: app_inv_def auth_inv_revoke bound_to_def pairing_available_def)

lemma app_inv_after_burn:
  assumes "app_inv a s" and "sd_controller (ss_data (ap_sess s)) = None"
  shows "wp (and_then (with_auth revoke_all) (\<lambda>_. and_then (attempt (rotate_pairing_material a)) (\<lambda>p.
      and_then (from_result b) (\<lambda>x. and_then (from_result p) (\<lambda>_. ret (f x))))))
    (\<lambda>r s'. app_inv a s') s"
proof -
  have "wp (rotate_pairing_material a) (\<lambda>r s'. app_inv a s')
      (s\<lparr>ap_auth := (ap_auth s)\<lparr>sessions := [], tickets := []\<rparr>\<rparr>)"
    by (rule app_inv_rotate [OF app_inv_revoked [OF assms(1)]]) (simp add: assms(2))
  then show ?thesis
    by (cases b) (auto simp: wp_rules elim!: wp_mono split: sum.splits)
qed

text \<open>After a burn (by the lease holder, or forced) nobody holds the lease.\<close>

lemma wp_burn_any:
  assumes inv: "session_inv m (ss_data t)"
    and c: "\<And>cl c. who = Some cl \<Longrightarrow> sd_controller (ss_data t) = Some c \<Longrightarrow> c = cl"
  shows "wp (case who of Some client \<Rightarrow> burn m client | None \<Rightarrow> force_burn m)
    (\<lambda>r t'. session_inv m (ss_data t') \<and> sd_controller (ss_data t') = None) t"
proof -
  have b: "wp (burn_unchecked m) (\<lambda>r t'. session_inv m (ss_data t') \<and> sd_controller (ss_data t') = None) t"
    by (rule wp_conj [OF session_inv_burn [OF inv] burn_controller [OF inv]])
  show ?thesis
  proof (cases who)
    case (Some cl)
    show ?thesis
    proof (cases "sd_controller (ss_data t)")
      case None
      with Some inv show ?thesis by (simp add: wp_burn)
    next
      case c': (Some c)
      with assms(2) [OF Some c'] b Some show ?thesis by (simp add: wp_burn)
    qed
  qed (use b in \<open>simp add: force_burn_def\<close>)
qed

lemma app_inv_burn_and_rotate:
  assumes "app_inv a s"
    and "\<And>cl c. who = Some cl \<Longrightarrow> sd_controller (ss_data (ap_sess s)) = Some c \<Longrightarrow> c = cl"
  shows "wp (burn_and_rotate a who) (\<lambda>r s'. app_inv a s') s"
proof -
  let ?rest = "\<lambda>b. and_then (with_auth revoke_all) (\<lambda>_.
      and_then (attempt (rotate_pairing_material a)) (\<lambda>p.
      and_then (from_result b) (\<lambda>x. and_then (from_result p) (\<lambda>_. ret (id x)))))"
  have "wp (case who of Some client \<Rightarrow> burn (as_sessions a) client | None \<Rightarrow> force_burn (as_sessions a))
      (\<lambda>r t. wp (?rest r) (\<lambda>r s'. app_inv a s') (s\<lparr>ap_sess := t\<rparr>)) (ap_sess s)"
  proof (rule wp_mono [OF wp_burn_any])
    show "session_inv (as_sessions a) (ss_data (ap_sess s))" using assms(1) by (simp add: app_inv_def)
    fix r :: "app_error + session_snapshot" and t :: "'a sess"
    assume t: "session_inv (as_sessions a) (ss_data t) \<and> sd_controller (ss_data t) = None"
    then have "app_inv a (s\<lparr>ap_sess := t\<rparr>)" using assms(1) by (simp add: app_inv_def)
    from app_inv_after_burn [OF this] t
    show "wp (?rest r) (\<lambda>r s'. app_inv a s') (s\<lparr>ap_sess := t\<rparr>)" by simp
  qed (use assms(2) in blast)
  then show ?thesis
    by (simp add: burn_and_rotate_def wp_rules)
qed

lemma app_inv_burn_controller:
  assumes "app_inv a s"
  shows "wp (burn_controller_session a cx sid) (\<lambda>r s'. app_inv a s') s"
proof -
  let ?now = "m_instant (ss_mach (ap_sess s))"
  let ?s = "s\<lparr>ap_auth := prune_expired ?now (ap_auth s)\<rparr>"
  have p: "app_inv a ?s" by (rule app_inv_prune [OF assms])
  have "wp (burn_and_rotate a (Some (cx_client_id cx))) (\<lambda>r s'. app_inv a s') ?s"
    if live: "live_session cx ?now (prune_expired ?now (ap_auth s))"
  proof (rule app_inv_burn_and_rotate [OF p])
    fix cl c
    assume "Some (cx_client_id cx) = Some cl" "sd_controller (ss_data (ap_sess ?s)) = Some c"
    with live_unique [OF live, of c] p show "c = cl" by (simp add: app_inv_def)
  qed
  with p show ?thesis
    by (simp add: burn_controller_session_def wp_rules Let_def require_session_id_def)
qed

lemma app_inv_auto_burn: "app_inv a s \<Longrightarrow> wp (auto_burn_if_due a) (\<lambda>r s'. app_inv a s') s"
  using app_inv_burn_and_rotate [of a s None]
  by (auto simp: auto_burn_if_due_def wp_rules idle_for_def Let_def elim!: wp_mono split: sum.splits)

lemma app_inv_recover:
  assumes "app_inv a s"
  shows "wp (recover_expired_auth a) (\<lambda>r s'. app_inv a s') s"
proof -
  let ?s = "s\<lparr>ap_auth := prune_expired (m_instant (ss_mach (ap_sess s))) (ap_auth s)\<rparr>"
  let ?rest = "\<lambda>b. and_then (with_auth revoke_all) (\<lambda>_.
      and_then (attempt (rotate_pairing_material a)) (\<lambda>p.
      and_then (from_result b) (\<lambda>x. and_then (from_result p) (\<lambda>_. ret True))))"
  have p: "app_inv a ?s" by (rule app_inv_prune [OF assms])
  have inv: "session_inv (as_sessions a) (ss_data (ap_sess s))" using assms by (simp add: app_inv_def)
  have "wp (force_burn (as_sessions a))
      (\<lambda>r t. wp (?rest r) (\<lambda>r s'. app_inv a s') (?s\<lparr>ap_sess := t\<rparr>)) (ap_sess s)"
  proof (rule wp_mono [OF wp_burn_any [OF inv, where who = None, simplified]])
    fix r :: "app_error + session_snapshot" and t :: "'a sess"
    assume t: "session_inv (as_sessions a) (ss_data t) \<and> sd_controller (ss_data t) = None"
    then have "app_inv a (?s\<lparr>ap_sess := t\<rparr>)" using p by (simp add: app_inv_def)
    from app_inv_after_burn [OF this] t
    show "wp (?rest r) (\<lambda>r s'. app_inv a s') (?s\<lparr>ap_sess := t\<rparr>)" by simp
  qed
  moreover have "wp (?rest (Inr x)) (\<lambda>r s'. app_inv a s') ?s"
    if "sn_phase (sd_snapshot (ss_data (ap_sess s))) = Idle" for x :: session_snapshot
    using app_inv_after_burn [OF p, of "Inr x"] inv that by (simp add: session_inv_def)
  ultimately show ?thesis
    using p by (simp add: recover_expired_auth_def Let_def wp_rules)
qed

lemma app_inv_watchdog:
  assumes "app_inv a s"
  shows "wp (watchdog_tick a) (\<lambda>r s'. app_inv a s') s"
proof -
  have "wp (and_then (attempt (auto_burn_if_due a)) (\<lambda>_. ret ())) (\<lambda>r s'. app_inv a s') s'"
    if "app_inv a s'" for s'
    using app_inv_auto_burn [OF that] by (simp add: wp_rules)
  then show ?thesis
    unfolding watchdog_tick_def
    by (simp add: wp_and_then [of "attempt (recover_expired_auth a)"] wp_attempt)
      (rule wp_mono [OF app_inv_recover [OF assms]])
qed

end
