(* ===== verification/SessionProps.thy ===== *)
theory SessionProps
  imports Session
begin

text \<open>
  What the session layer of \<open>src/session.rs\<close> promises for arbitrary helpers: consistency over all
  call sequences, the exact effect of start and burn, the navigation filter, exclusive control,
  transactional policy switches, and a contained cleanup. The example values run the witnesses.
\<close>

section \<open>Example values\<close>

definition plain_backend :: "unit browser_backend" where
  "plain_backend = \<lparr>br_start = (\<lambda>_ _ _ _. ret ()), br_stop = ret (), br_navigate = (\<lambda>_. ret ())\<rparr>"

definition plain_egress :: "unit egress_backend" where
  "plain_egress = \<lparr>eg_apply = (\<lambda>e. ret \<lparr>eg_ok = True, eg_active_mode = e, eg_proxy_url = None,
       eg_detail = []\<rparr>), eg_reset = ret \<lparr>eg_ok = True, eg_active_mode = Direct,
       eg_proxy_url = None, eg_detail = []\<rparr>\<rparr>"

definition demo_sessions :: "unit session_manager" where
  "demo_sessions = \<lparr>sm_browser = plain_backend, sm_egress = plain_egress,
     sm_runtime_dir = ''/r/s'', sm_initial_egress = Tor, sm_initial_profile = Hd15,
     sm_initial_auto_burn = 600, sm_blocklist = Some (list_fst [''ads.example''])\<rparr>"

definition demo_disk :: "unit machine" where
  "demo_disk = \<lparr>m_instant = 0, m_utc = 0, m_random = (\<lambda>n. Some []), m_draws = 0,
     m_uuid = (\<lambda>n. of_nat n + 1), m_uuids = 0, m_fs = [([RootDir, Normal ''r''], DirNode),
       ([RootDir, Normal ''r'', Normal ''s''], DirNode),
       ([RootDir, Normal ''r'', Normal ''s'', Normal ''c''], FileNode ''x'')],
     m_fault = (\<lambda>_. None), m_helpers = ()\<rparr>"

definition demo_url :: "string \<Rightarrow> url" where
  "demo_url host = \<lparr>url_str = ''https://'' @ host @ ''/'', url_scheme = ''https'',
     url_host_str = Some host, url_port_or_known_default = Some 443, url_path = ''/'',
     url_query = None, url_fragment = None, url_username = [], url_password = None,
     url_origin = ''https://'' @ host\<rparr>"

definition demo_idle :: "unit sess" where
  "demo_idle = session_new demo_sessions demo_disk"

definition demo_active :: "unit sess" where
  "demo_active = snd (start demo_sessions 7 (demo_url ''ok.example'') demo_idle)"

lemma demo_fields: "sm_browser demo_sessions = plain_backend" "sm_egress demo_sessions = plain_egress"
  "sm_runtime_dir demo_sessions = ''/r/s''"
  by (simp_all add: demo_sessions_def)

lemma demo_not_blocked: "\<not> blocked demo_sessions (demo_url ''ok.example'') True"
  by (simp add: blocked_def demo_sessions_def demo_url_def contains_def list_fst_def str_eval
      normalize_host_def)

lemma demo_blocked: "blocked demo_sessions (demo_url ''ads.example'') True"
  by (simp add: blocked_def demo_sessions_def demo_url_def contains_def list_fst_def str_eval
      normalize_host_def)

lemma demo_initial: "sd_snapshot (ss_data demo_idle) = initial_snapshot demo_sessions"
  "sd_controller (ss_data demo_idle) = None" "ss_mach demo_idle = demo_disk"
  "sd_history (ss_data demo_idle) = []"
  by (simp_all add: demo_idle_def session_new_def)

lemma initial_blocklist [simp]: "sn_blocklist_enabled (initial_snapshot m)"
  by (simp add: initial_snapshot_def snapshot_default_def)

lemma demo_start: "wp (start demo_sessions 7 (demo_url ''ok.example''))
   (\<lambda>r s. r = Inr (sd_snapshot (ss_data s)) \<and> holds_active 7 (ss_data s) \<and>
      m_fs (ss_mach s) = m_fs demo_disk \<and> m_fault (ss_mach s) = m_fault demo_disk \<and>
      sn_blocklist_enabled (sd_snapshot (ss_data s))) demo_idle"
  unfolding start_def
  by (simp add: wp_rules Let_def demo_initial demo_not_blocked lease_free_def starting_def
      demo_fields plain_egress_def plain_backend_def ret_def holds_active_def
      initial_snapshot_def snapshot_default_def)

lemma demo_active_facts: "holds_active 7 (ss_data demo_active)"
   "m_fs (ss_mach demo_active) = m_fs demo_disk" "m_fault (ss_mach demo_active) = m_fault demo_disk"
   "sn_blocklist_enabled (sd_snapshot (ss_data demo_active))"
  using demo_start by (auto simp: demo_active_def wp_def split: prod.splits)

lemma demo_active_reachable: "session_reachable demo_sessions demo_active"
  using session_reachable.call [OF session_reachable.fresh [of demo_sessions demo_disk],
      where c = "SStart 7 (demo_url ''ok.example'')"]
  by (simp add: demo_active_def demo_idle_def)

lemma demo_components: "components ''/r/s'' = [RootDir, Normal ''r'', Normal ''s'']"
  by (simp add: components_def is_absolute_def Let_def List.map_filter_def)

lemma demo_clear:
  assumes "m_fs h = m_fs demo_disk" and "m_fault h = m_fault demo_disk"
  shows "\<exists>h'. clear_runtime_dir ''/r/s'' h = (Inr (), h')"
  using assms
  by (simp add: clear_runtime_dir_def unsafe_runtime_path_def demo_components is_absolute_def
      Let_def demo_disk_def and_then_def create_dir_all_def faultable_def prefixes_def fs_node_def
      is_dir_node_def symlink_metadata_def read_dir_def fs_children_def clear_entry_def
      entry_type_def remove_file_def modify_def ret_def)

section \<open>Properties\<close>

text \<open>
  C13. Whatever methods are called, in whatever order and with whatever failures of the helpers
  and the file system, the session is idle exactly as a new one, or active with a lease, an
  identity and a history (of at most 128 entries) ending in the shown URL, or failed with a
  reason and no history; no call leaves it starting or burning.
\<close>

theorem session_always_consistent:
  assumes "session_reachable m s"
  shows "session_inv m (ss_data s)"
  by (rule session_reachable_inv [OF assms])

theorem session_always_consistent_witness:
  "session_inv demo_sessions (ss_data demo_active)"
  by (rule session_always_consistent [OF demo_active_reachable])

text \<open>
  C18. Burn, exactly: the holder's burn of a session that is not idle runs stop, reset and
  cleanup, all three whatever the others return, and forgets lease and history in any case; it
  succeeds, with a fresh session and an empty runtime directory, if and only if all three
  succeed, and otherwise reports a failed session, never an idle one.
\<close>

theorem burn_exactly:
  assumes "sd_controller (ss_data s) = Some c" and "sn_phase (sd_snapshot (ss_data s)) \<noteq> Idle"
    and "br_stop (sm_browser m) (ss_mach s) = (r1, h1)" and "eg_reset (sm_egress m) h1 = (r2, h2)"
    and "clear_runtime_dir (sm_runtime_dir m) h2 = (r3, h3)" and "burn m c s = (r, s')"
  shows "ss_mach s' = h3 \<and> sd_controller (ss_data s') = None \<and> sd_history (ss_data s') = [] \<and>
    (if r1 = Inr () \<and> r2 \<in> range Inr \<and> r3 = Inr ()
     then r = Inr (initial_snapshot m) \<and> sd_snapshot (ss_data s') = initial_snapshot m \<and>
       fs_children (m_fs h3) (components (sm_runtime_dir m)) = []
     else \<exists>x. r = Inl (ServiceUnavailable x) \<and> sd_snapshot (ss_data s') =
       (initial_snapshot m)\<lparr>sn_phase := Failed, sn_failure := Some x\<rparr>)"
proof -
  have e: "r3 = Inr () \<Longrightarrow> fs_children (m_fs h3) (components (sm_runtime_dir m)) = []"
    using clear_runtime_dir_effect [OF assms(5)] by simp
  have "wp (burn m c) (\<lambda>r s'. ss_mach s' = h3 \<and> sd_controller (ss_data s') = None \<and>
      sd_history (ss_data s') = [] \<and>
      (if r1 = Inr () \<and> r2 \<in> range Inr \<and> r3 = Inr ()
       then r = Inr (initial_snapshot m) \<and> sd_snapshot (ss_data s') = initial_snapshot m \<and>
         fs_children (m_fs h3) (components (sm_runtime_dir m)) = []
       else \<exists>x. r = Inl (ServiceUnavailable x) \<and> sd_snapshot (ss_data s') =
         (initial_snapshot m)\<lparr>sn_phase := Failed, sn_failure := Some x\<rparr>)) s"
    using assms(1-5) e unfolding burn_unchecked_def
    by (auto simp: wp_rules burn_unchecked_def Let_def image_iff)
  from wpD [OF this assms(6)] show ?thesis .
qed

theorem burn_exactly_witness:
  "\<exists>s'. burn demo_sessions 7 demo_active = (Inr (initial_snapshot demo_sessions), s') \<and>
     fs_children (m_fs (ss_mach s')) [RootDir, Normal ''r'', Normal ''s''] = []"
proof -
  obtain h3 where c: "clear_runtime_dir (sm_runtime_dir demo_sessions) (ss_mach demo_active) = (Inr (), h3)"
    using demo_clear demo_active_facts demo_fields by metis
  obtain r s' where b: "burn demo_sessions 7 demo_active = (r, s')" by fastforce
  have st: "br_stop (sm_browser demo_sessions) (ss_mach demo_active) = (Inr (), ss_mach demo_active)"
    by (simp add: demo_fields plain_backend_def ret_def)
  obtain x where re: "eg_reset (sm_egress demo_sessions) (ss_mach demo_active) = (Inr x, ss_mach demo_active)"
    by (auto simp: demo_fields plain_egress_def ret_def)
  from burn_exactly [OF _ _ st re c b] demo_active_facts(1) b show ?thesis
    by (simp add: holds_active_def demo_fields demo_components)
qed

text \<open>
  The block list is enforced before the browser: while it is enabled, a navigation to a
  blocked http or https host and the start of a session on one are refused, with no call to any
  helper, no change to what the session shows or remembers, and one more counted hit.
\<close>

theorem blocked_host_never_reaches_browser:
  assumes "blocked m u (sn_blocklist_enabled (sd_snapshot (ss_data s)))"
  shows "(holds_active c (ss_data s) \<longrightarrow>
      navigate m c (Navigate u) s = (Inl NavigationBlocked, s\<lparr>ss_hits := ss_hits s + 1,
        ss_data := (ss_data s)\<lparr>sd_last_activity := m_instant (ss_mach s)\<rparr>\<rparr>)) \<and>
    (sn_phase (sd_snapshot (ss_data s)) \<in> {Idle, Failed} \<longrightarrow>
      start m c u s = (Inl NavigationBlocked, s\<lparr>ss_hits := ss_hits s + 1\<rparr>))"
proof -
  have "wp (navigate m c (Navigate u)) (\<lambda>r s'. (r, s') = (Inl NavigationBlocked,
      s\<lparr>ss_hits := ss_hits s + 1,
        ss_data := (ss_data s)\<lparr>sd_last_activity := m_instant (ss_mach s)\<rparr>\<rparr>)) s"
    if "holds_active c (ss_data s)"
    using assms that by (simp add: navigate_def wp_rules)
  moreover have "wp (start m c u) (\<lambda>r s'. (r, s') = (Inl NavigationBlocked,
      s\<lparr>ss_hits := ss_hits s + 1\<rparr>)) s" if "sn_phase (sd_snapshot (ss_data s)) \<in> {Idle, Failed}"
    using assms that by (auto simp: start_def wp_rules)
  ultimately show ?thesis by (auto simp: wp_def split: prod.splits)
qed

theorem blocked_host_never_reaches_browser_witness:
  "fst (navigate demo_sessions 7 (Navigate (demo_url ''ads.example'')) demo_active) =
     Inl NavigationBlocked"
proof -
  have "blocked demo_sessions (demo_url ''ads.example'')
      (sn_blocklist_enabled (sd_snapshot (ss_data demo_active)))"
    using demo_blocked demo_active_facts(4) by simp
  from blocked_host_never_reaches_browser [OF this, of 7] demo_active_facts(1) show ?thesis by simp
qed



text \<open>
  Only the lease holder acts: while a client holds the lease, every request of another one
  is refused and changes nothing but, at most, the block counter; no helper is called.
\<close>

theorem foreign_client_changes_nothing:
  assumes "sd_controller (ss_data s) = Some owner" and "c \<noteq> owner"
  shows "navigate m c cmd s = (Inl LeaseConflict, s) \<and>
    switch_egress m c mode s = (Inl LeaseConflict, s) \<and>
    burn m c s = (Inl LeaseConflict, s) \<and>
    set_stream_profile c p s = (Inl LeaseConflict, s) \<and>
    set_blocklist_enabled c b s = (Inl LeaseConflict, s) \<and>
    set_auto_burn_seconds c n s \<in> {(Inl LeaseConflict, s),
      (Inl (InvalidRequest ''auto-burn must be zero or no more than 86400 seconds''), s)} \<and>
    (\<exists>e k. start m c u s = (Inl e, s\<lparr>ss_hits := k\<rparr>) \<and>
      e \<in> {InvalidTransition, NavigationBlocked, LeaseConflict})"
proof -
  have na: "\<not> holds_active c (ss_data s)" and nf: "\<not> lease_free c (ss_data s)"
    using assms by (auto simp: holds_active_def lease_free_def)
  have "wp (change_setting c f ev) (\<lambda>r s'. (r, s') = (Inl LeaseConflict, s)) s" for f ev
    using na assms by (simp add: change_setting_def wp_rules)
  then have chg: "change_setting c f ev s = (Inl LeaseConflict, s)" for f ev
    by (auto simp: wp_def split: prod.splits)
  have "wp (navigate m c cmd) (\<lambda>r s'. (r, s') = (Inl LeaseConflict, s)) s"
    using na assms by (simp add: navigate_def wp_rules)
  moreover have "wp (switch_egress m c mode) (\<lambda>r s'. (r, s') = (Inl LeaseConflict, s)) s"
    using na assms by (simp add: switch_egress_def wp_rules)
  moreover have "wp (burn m c) (\<lambda>r s'. (r, s') = (Inl LeaseConflict, s)) s"
    using assms by (simp add: wp_rules)
  moreover have "wp (start m c u) (\<lambda>r s'. \<exists>e k. (r, s') = (Inl e, s\<lparr>ss_hits := k\<rparr>) \<and>
      e \<in> {InvalidTransition, NavigationBlocked, LeaseConflict}) s"
    using nf by (auto simp: start_def wp_rules Let_def intro: exI [of _ "ss_hits s"])
  ultimately show ?thesis
    by (auto simp: wp_def chg set_stream_profile_def set_blocklist_enabled_def
        set_auto_burn_seconds_def raise_def split: prod.splits)
qed

theorem foreign_client_changes_nothing_witness:
  "burn demo_sessions 8 demo_active = (Inl LeaseConflict, demo_active)"
proof -
  have "sd_controller (ss_data demo_active) = Some 7"
    using demo_active_facts(1) by (simp add: holds_active_def)
  from foreign_client_changes_nothing [OF this, of 8] show ?thesis by simp
qed



text \<open>
  C32. Clearing the runtime directory is contained: whether it succeeds or not, only the file
  system changes, and in it nothing that existed outside the directory; a directory that is a
  symbolic link, a relative path, the root, a path of fewer than two names or one with a \<open>..\<close> is
  refused, and then nothing that existed changes at all; after success nothing is left in it.
\<close>

theorem clear_runtime_dir_is_contained:
  assumes "clear_runtime_dir p h = (r, h')"
  shows "h' = h\<lparr>m_fs := m_fs h'\<rparr> \<and>
    {q. fs_node (m_fs h) q \<noteq> None \<and> fs_node (m_fs h') q \<noteq> fs_node (m_fs h) q}
      \<subseteq> (if unsafe_runtime_path p \<or> fs_node (m_fs h) (components p) \<in> range (Some \<circ> LinkNode)
         then {} else {q. strict_prefix (components p) q}) \<and>
    (if unsafe_runtime_path p \<or> fs_node (m_fs h) (components p) \<in> range (Some \<circ> LinkNode)
     then r \<noteq> Inr () else r = Inr () \<longrightarrow> fs_children (m_fs h') (components p) = [])"
proof (cases "fs_node (m_fs h) (components p) \<in> range (Some \<circ> LinkNode)")
  case True
  then obtain t where "fs_node (m_fs h) (components p) = Some (LinkNode t)" by auto
  from clear_symlink_refused [OF this] True clear_runtime_dir_effect [OF assms] assms show ?thesis
    by auto
next
  case False
  have "r \<noteq> Inr () \<and> h' = h" if "unsafe_runtime_path p"
    using assms that by (auto simp: clear_runtime_dir_def raise_def)
  with False clear_runtime_dir_effect [OF assms] show ?thesis by auto
qed

theorem clear_runtime_dir_is_contained_witness:
  "\<exists>h'. clear_runtime_dir ''/r/s'' demo_disk = (Inr (), h') \<and>
     fs_children (m_fs h') [RootDir, Normal ''r'', Normal ''s''] = [] \<and>
     fs_node (m_fs h') [RootDir, Normal ''r''] = Some DirNode"
proof -
  obtain h' where c: "clear_runtime_dir ''/r/s'' demo_disk = (Inr (), h')"
    using demo_clear by blast
  have n: "fs_node (m_fs demo_disk) [RootDir, Normal ''r''] = Some DirNode"
    by (simp add: demo_disk_def fs_node_def)
  have safe: "\<not> (unsafe_runtime_path ''/r/s'' \<or>
      fs_node (m_fs demo_disk) (components ''/r/s'') \<in> range (Some \<circ> LinkNode))"
    by (auto simp: unsafe_runtime_path_def demo_components is_absolute_def demo_disk_def fs_node_def)
  note con = clear_runtime_dir_is_contained [OF c, unfolded if_not_P [OF safe], unfolded demo_components]
  have "[RootDir, Normal ''r''] \<notin>
      {q. fs_node (m_fs demo_disk) q \<noteq> None \<and> fs_node (m_fs h') q \<noteq> fs_node (m_fs demo_disk) q}"
    using con by (auto dest!: subsetD)
  with n con c show ?thesis by auto
qed

end
