(* ===== verification/AppTrace.thy ===== *)
theory AppTrace
  imports AppLifecycle SessionProps
begin

text \<open>
  All call sequences of the daemon of \<open>src/lib.rs\<close> and \<open>src/main.rs\<close>, from a successful start on:
  the joint invariant of pairing and session, and what burn, recovery, inactivity and a stale
  context lead to.
\<close>

section \<open>Call sequences of the daemon\<close>

text \<open>
  Everything that can reach the daemon's state: the pairing and ticket calls of the API, the
  guarded session calls, the settings, the watchdog, and the machine changing by itself.
\<close>

datatype 'b app_call =
    PairWith string
  | CheckCookie "string option" "string option" bool
  | NewTicket auth_context ticket_purpose
  | UseTicket string ticket_purpose
  | StartCall auth_context url
  | NavigateCall auth_context uuid navigation_command
  | SwitchCall auth_context uuid egress_mode
  | BurnCall auth_context uuid
  | ProfileCall uuid stream_profile
  | BlocklistCall uuid bool
  | AutoBurnCall uuid u64
  | WatchdogTick
  | World "'b machine"

fun app_exec :: "'b app_state \<Rightarrow> 'b app_call \<Rightarrow> 'b app \<Rightarrow> 'b app" where
  "app_exec a (PairWith p) s = snd (with_auth (exchange_pairing (as_auth a) p) s)"
| "app_exec a (CheckCookie t c r) s = snd (with_auth (authenticate (as_auth a) t c r) s)"
| "app_exec a (NewTicket cx p) s = snd (with_auth (issue_ticket (as_auth a) cx p) s)"
| "app_exec a (UseTicket t p) s = snd (with_auth (consume_ticket (as_auth a) t p) s)"
| "app_exec a (StartCall cx u) s = snd (start_session a cx u s)"
| "app_exec a (NavigateCall cx i cmd) s = snd (navigate_session a cx i cmd s)"
| "app_exec a (SwitchCall cx i e) s = snd (switch_session_egress a cx i e s)"
| "app_exec a (BurnCall cx i) s = snd (burn_controller_session a cx i s)"
| "app_exec a (ProfileCall c p) s = snd (with_session (set_stream_profile c p) s)"
| "app_exec a (BlocklistCall c b) s = snd (with_session (set_blocklist_enabled c b) s)"
| "app_exec a (AutoBurnCall c n) s = snd (with_session (set_auto_burn_seconds c n) s)"
| "app_exec a WatchdogTick s = snd (watchdog_tick a s)"
| "app_exec a (World h) s = s\<lparr>ap_sess := (ap_sess s)\<lparr>ss_mach := h\<rparr>\<rparr>"

inductive app_reachable :: "'b app_state \<Rightarrow> 'b app \<Rightarrow> bool" for a where
  app_start: "bring_up a insecure h = Inr s \<Longrightarrow> app_reachable a s"
| app_next: "app_reachable a s \<Longrightarrow> app_reachable a (app_exec a c s)"

lemma with_auth_exec:
  assumes "app_inv a s" and "call \<noteq> RotatePairing"
    and "snd (m (auth_view s)) = auth_exec (as_auth a) call (auth_view s)"
  shows "app_inv a (snd (with_auth m s))"
proof -
  have "bound_to c (ap_auth s) \<Longrightarrow> bound_to c (ah_auth (auth_exec (as_auth a) call (auth_view s)))" for c
    using bound_exec [of c "auth_view s" call] assms(2) by simp
  moreover have "auth_inv (ah_auth (auth_exec (as_auth a) call (auth_view s)))"
    by (rule auth_inv_exec) (use assms(1) in \<open>simp add: app_inv_def\<close>)
  ultimately show ?thesis
    using assms(1, 3) by (cases "m (auth_view s)") (auto simp: with_auth_def app_inv_def)
qed

lemma with_session_setting:
  assumes "app_inv a s"
    and "\<And>t. session_inv (as_sessions a) (ss_data t) \<Longrightarrow> wp m (\<lambda>r t'. session_inv (as_sessions a) (ss_data t')) t"
    and "\<And>t. wp m (\<lambda>r t'. sd_controller (ss_data t') = sd_controller (ss_data t)) t"
  shows "app_inv a (snd (with_session m s))"
proof -
  have "wp (with_session m) (\<lambda>r s'. app_inv a s') s"
    unfolding wp_with_session
    by (rule wp_mono [OF wp_conj [OF assms(2) assms(3)]]) (use assms(1) in \<open>auto simp: app_inv_def\<close>)
  then show ?thesis by (simp add: wp_snd)
qed

lemma settings_keep:
  "session_inv m (ss_data t) \<Longrightarrow> wp (set_stream_profile c p) (\<lambda>r t'. session_inv m (ss_data t')) t"
  "session_inv m (ss_data t) \<Longrightarrow> wp (set_blocklist_enabled c b) (\<lambda>r t'. session_inv m (ss_data t')) t"
  "session_inv m (ss_data t) \<Longrightarrow> wp (set_auto_burn_seconds c n) (\<lambda>r t'. session_inv m (ss_data t')) t"
  by (simp_all add: set_stream_profile_def set_blocklist_enabled_def set_auto_burn_seconds_def
      wp_rules session_inv_setting)

lemma settings_lease:
  "wp (set_stream_profile c p) (\<lambda>r t'. sd_controller (ss_data t') = sd_controller (ss_data t)) t"
  "wp (set_blocklist_enabled c b) (\<lambda>r t'. sd_controller (ss_data t') = sd_controller (ss_data t)) t"
  "wp (set_auto_burn_seconds c n) (\<lambda>r t'. sd_controller (ss_data t') = sd_controller (ss_data t)) t"
  by (simp_all add: set_stream_profile_def set_blocklist_enabled_def set_auto_burn_seconds_def
      wp_rules setting_controller)

lemma app_inv_exec:
  assumes "app_inv a s"
  shows "app_inv a (app_exec a c s)"
proof (cases c)
  case (PairWith p)
  then show ?thesis by (simp add: with_auth_exec [OF assms, where call = "ExchangePairing p"])
next
  case (CheckCookie t x r)
  then show ?thesis by (simp add: with_auth_exec [OF assms, where call = "Authenticate t x r"])
next
  case (NewTicket cx p)
  then show ?thesis by (simp add: with_auth_exec [OF assms, where call = "IssueTicket cx p"])
next
  case (UseTicket t p)
  then show ?thesis by (simp add: with_auth_exec [OF assms, where call = "ConsumeTicket t p"])
next
  case (StartCall cx u)
  with app_inv_start_session [OF assms, of cx u] show ?thesis by (simp add: wp_snd)
next
  case (NavigateCall cx i cmd)
  have "wp (navigate_session a cx i cmd) (\<lambda>r s'. app_inv a s') s"
    unfolding navigate_session_def
    by (rule app_inv_guarded [OF assms wp_conj [OF session_inv_navigate navigate_controller]])
      (use assms in \<open>simp add: app_inv_def\<close>)
  with NavigateCall show ?thesis by (simp add: wp_snd)
next
  case (SwitchCall cx i e)
  have "wp (switch_session_egress a cx i e) (\<lambda>r s'. app_inv a s') s"
    unfolding switch_session_egress_def
    by (rule app_inv_guarded [OF assms wp_conj [OF session_inv_switch switch_controller]])
      (use assms in \<open>simp add: app_inv_def\<close>)
  with SwitchCall show ?thesis by (simp add: wp_snd)
next
  case (BurnCall cx i)
  with app_inv_burn_controller [OF assms, of cx i] show ?thesis by (simp add: wp_snd)
next
  case WatchdogTick
  with app_inv_watchdog [OF assms] show ?thesis by (simp add: wp_snd)
next
  case (World h)
  with assms show ?thesis by (simp add: app_inv_def)
qed (use with_session_setting [OF assms settings_keep(1) settings_lease(1)]
    with_session_setting [OF assms settings_keep(2) settings_lease(2)]
    with_session_setting [OF assms settings_keep(3) settings_lease(3)] in simp_all)

lemma bring_up_result:
  assumes "bring_up a insecure h = Inr s"
  shows "app_inv a s \<and> ss_data (ap_sess s) = ss_data (session_new (as_sessions a) h) \<and>
    (insecure \<or> \<not> blocklist_is_empty (sm_blocklist (as_sessions a))) \<and>
    (\<exists>pm h0. ap_auth s = rotated (as_auth a) pm auth_state_new \<and>
      write_pairing_file pm (as_pairing_file a) (as_public_base_url a) h0 = (Inr (), ss_mach (ap_sess s)))"
proof -
  let ?s0 = "\<lparr>ap_sess = session_new (as_sessions a) h, ap_auth = auth_state_new\<rparr>"
  let ?boot = "and_then (with_auth (rotate_pairing (as_auth a))) (\<lambda>pairing.
                    with_auth (mach_op (write_pairing_file pairing (as_pairing_file a)
                      (as_public_base_url a))))"
  have run: "?boot ?s0 = (Inr (), s)" and bl: "insecure \<or> \<not> blocklist_is_empty (sm_blocklist (as_sessions a))"
    using assms by (auto simp: bring_up_def Let_def ensure_runtime_blocklist_def
        split: sum.splits prod.splits if_splits)
  have "wp ?boot (\<lambda>r s. r = Inr () \<longrightarrow> ss_data (ap_sess s) = ss_data (session_new (as_sessions a) h) \<and>
      (\<exists>pm h0. ap_auth s = rotated (as_auth a) pm auth_state_new \<and>
      write_pairing_file pm (as_pairing_file a) (as_public_base_url a) h0 = (Inr (), ss_mach (ap_sess s)))) ?s0"
    by (auto simp: wp_rules Let_def wp_def [of "write_pairing_file _ _ _"] split: option.splits)
  from wpD [OF this run] bl show ?thesis
    by (auto simp: app_inv_def session_new_def session_inv_initial rotated_def auth_inv_def
        max_pair_failures_def)
qed

lemma app_reachable_inv: "app_reachable a s \<Longrightarrow> app_inv a s"
  by (induction rule: app_reachable.induct) (simp_all add: app_inv_exec bring_up_result)

section \<open>Facts for the properties\<close>

text \<open>Nobody in control: no lease, no remembered page, no cookie and no ticket.\<close>

definition released :: "'b app \<Rightarrow> bool" where
  "released s \<longleftrightarrow> sd_controller (ss_data (ap_sess s)) = None \<and> sd_history (ss_data (ap_sess s)) = [] \<and>
     sn_phase (sd_snapshot (ss_data (ap_sess s))) \<in> {Idle, Failed} \<and>
     sessions (ap_auth s) = [] \<and> tickets (ap_auth s) = []"

definition published :: "'b app_state \<Rightarrow> 'b app \<Rightarrow> pairing_material \<Rightarrow> bool" where
  "published a s pm \<longleftrightarrow>
     fs_node (m_fs (ss_mach (ap_sess s))) (components (as_pairing_file a)) =
       Some (FileNode (pairing_body pm (as_public_base_url a))) \<and>
     accepts (as_auth a) (ap_auth s) (pm_secret pm) \<and>
     accepts (as_auth a) (ap_auth s) (pm_manual_code pm) \<and>
     locked_until (ap_auth s) = None"

definition atomic_file :: "'b app_state \<Rightarrow> bool" where
  "atomic_file a \<longleftrightarrow>
     with_extension ''tmp'' (components (as_pairing_file a)) \<noteq> components (as_pairing_file a)"

lemma rotated_accepts: "accepts am (rotated am pm st) (pm_secret pm)"
  "accepts am (rotated am pm st) (pm_manual_code pm)" "locked_until (rotated am pm st) = None"
  by (simp_all add: accepts_def rotated_def)

lemma burn_unchecked_outcome:
  assumes "session_inv m (ss_data t)"
  shows "wp (burn_unchecked m) (\<lambda>r t'. sd_controller (ss_data t') = None \<and> sd_history (ss_data t') = [] \<and>
    sn_phase (sd_snapshot (ss_data t')) = (if r \<in> range Inr then Idle else Failed)) t"
  using assms unfolding burn_unchecked_def
  by (auto simp: wp_rules Let_def session_inv_def split: sum.splits prod.splits)

text \<open>The part of every burn after the session itself is burned.\<close>

definition republish ::
  "'b app_state \<Rightarrow> app_error + 'x \<Rightarrow> ('x \<Rightarrow> 'y) \<Rightarrow> ('b app, app_error, 'y) op" where
  "republish a b f = and_then (with_auth revoke_all) (\<lambda>_.
     and_then (attempt (rotate_pairing_material a)) (\<lambda>p.
     and_then (from_result b) (\<lambda>x. and_then (from_result p) (\<lambda>_. ret (f x)))))"

lemma republish_outcome:
  assumes "atomic_file a" and "sd_controller (ss_data (ap_sess s)) = None"
    and "sd_history (ss_data (ap_sess s)) = []"
    and "sn_phase (sd_snapshot (ss_data (ap_sess s))) = (if b \<in> range Inr then Idle else Failed)"
  shows "wp (republish a b f) (\<lambda>r s'. released s' \<and> ss_data (ap_sess s') = ss_data (ap_sess s) \<and>
    (r \<in> range Inr \<longrightarrow> sn_phase (sd_snapshot (ss_data (ap_sess s'))) = Idle \<and> (\<exists>pm. published a s' pm))) s"
proof -
  let ?s = "s\<lparr>ap_auth := (ap_auth s)\<lparr>sessions := [], tickets := []\<rparr>\<rparr>"
  have "wp (rotate_pairing_material a) (\<lambda>r s'. ss_data (ap_sess s') = ss_data (ap_sess s) \<and>
      sessions (ap_auth s') = [] \<and> tickets (ap_auth s') = [] \<and>
      (r \<in> range Inr \<longrightarrow> (\<exists>pm. published a s' pm))) ?s"
    by (rule wp_mono [OF rotate_material_outcome])
      (use assms(1) in \<open>auto simp: atomic_file_def published_def rotated_accepts, auto simp: rotated_def\<close>)
  then have "wp (rotate_pairing_material a) (\<lambda>r s'. wp (and_then (from_result b)
      (\<lambda>x. and_then (from_result r) (\<lambda>_. ret (f x)))) (\<lambda>r s'. released s' \<and>
      ss_data (ap_sess s') = ss_data (ap_sess s) \<and>
      (r \<in> range Inr \<longrightarrow> sn_phase (sd_snapshot (ss_data (ap_sess s'))) = Idle \<and>
        (\<exists>pm. published a s' pm))) s') ?s"
    by (rule wp_mono) (use assms in \<open>auto simp: wp_rules released_def split: sum.splits\<close>)
  then show ?thesis
    by (simp add: republish_def wp_rules)
qed

lemma burn_and_rotate_eq: "burn_and_rotate a who =
    and_then (attempt (with_session (case who of
         Some client \<Rightarrow> burn (as_sessions a) client
       | None \<Rightarrow> force_burn (as_sessions a)))) (\<lambda>b. republish a b (\<lambda>x. x))"
  by (simp add: burn_and_rotate_def republish_def)

lemma burn_and_rotate_outcome:
  assumes "session_inv (as_sessions a) (ss_data (ap_sess s))" and "atomic_file a"
    and "\<And>cl. who = Some cl \<Longrightarrow> sd_controller (ss_data (ap_sess s)) = Some cl"
  shows "wp (burn_and_rotate a who) (\<lambda>r s'. released s' \<and>
    (r \<in> range Inr \<longrightarrow> sn_phase (sd_snapshot (ss_data (ap_sess s'))) = Idle \<and> (\<exists>pm. published a s' pm))) s"
proof -
  have "wp (case who of Some client \<Rightarrow> burn (as_sessions a) client | None \<Rightarrow> force_burn (as_sessions a))
    (\<lambda>r t'. sd_controller (ss_data t') = None \<and> sd_history (ss_data t') = [] \<and>
    sn_phase (sd_snapshot (ss_data t')) = (if r \<in> range Inr then Idle else Failed)) (ap_sess s)"
    using burn_unchecked_outcome [OF assms(1)] assms(3)
    by (cases who) (simp_all add: force_burn_def wp_burn)
  then show ?thesis
    unfolding burn_and_rotate_eq wp_and_then [of "attempt _"] wp_attempt wp_with_session
    by (rule wp_mono) (auto intro!: wp_mono [OF republish_outcome [OF assms(2)]] split: if_splits)
qed

lemma wp_republish_idle_recover:
  "recover_expired_auth a = and_then (with_auth pairing_recovery_required) (\<lambda>required.
     if \<not> required then ret False
     else and_then (with_session get_snapshot) (\<lambda>n.
       and_then (attempt (if sn_phase n = Idle then ret n
          else with_session (force_burn (as_sessions a)))) (\<lambda>b. republish a b (\<lambda>_. True))))"
  unfolding recover_expired_auth_def republish_def by (rule refl)

definition live :: "auth_context \<Rightarrow> 'b app \<Rightarrow> bool" where
  "live cx s \<longleftrightarrow> (let now = m_instant (ss_mach (ap_sess s))
     in live_session cx now (prune_expired now (ap_auth s)))"

section \<open>Example values\<close>

definition demo_daemon :: "unit app_state" where
  "demo_daemon = \<lparr>as_auth = demo_manager, as_sessions = demo_sessions, as_pairing_file = ''p'',
     as_public_base_url = ''u''\<rparr>"

definition demo_host_machine :: "unit machine" where
  "demo_host_machine = demo_disk\<lparr>m_random := (\<lambda>n. Some (replicate (Suc n) 7))\<rparr>"

lemma demo_atomic: "atomic_file demo_daemon"
  by (simp add: atomic_file_def demo_daemon_def components_def is_absolute_def Let_def
      List.map_filter_def with_extension_def file_stem_def rsplit_once_def)

lemma demo_write:
  assumes h: "m_fault h = (\<lambda>_. None)" "m_fs h = m_fs demo_disk"
  shows "\<exists>h'. write_pairing_file pm ''p'' ''u'' h = (Inr (), h')"
proof -
  have c: "components ''p'' = [Normal ''p'']"
    by (simp add: components_def is_absolute_def Let_def List.map_filter_def)
  have x: "with_extension ''tmp'' [Normal ''p''] = [Normal ''p.tmp'']"
    by (simp add: with_extension_def file_stem_def rsplit_once_def)
  have pc: "parent_components ''p'' = Some []" by (simp add: parent_components_def parent_of_def c)
  show ?thesis
    by (simp add: write_pairing_file_def Let_def c x pc and_then_def fs_op_defs create_dir_all_def
        h prefixes_def fs_node_def demo_disk_def fs_put_def)
qed

lemma demo_bring_up: "\<exists>s. bring_up demo_daemon False demo_host_machine = Inr s"
proof -
  let ?pm = "\<lparr>pm_secret = cr_base64url demo_crypto (replicate (Suc 0) 7),
    pm_manual_code = group_manual_code demo_crypto (replicate (Suc 0) 7)\<rparr>"
  obtain h' where "write_pairing_file ?pm ''p'' ''u'' (demo_host_machine\<lparr>m_draws := 1\<rparr>) = (Inr (), h')"
    using demo_write [of "demo_host_machine\<lparr>m_draws := 1\<rparr>" ?pm]
    by (auto simp: demo_host_machine_def demo_disk_def)
  then show ?thesis
    by (auto simp: bring_up_def ensure_runtime_blocklist_def blocklist_is_empty_def blocklist_len_def
        demo_daemon_def demo_sessions_def list_fst_def Let_def and_then_def with_auth_def
        rotate_pairing_def auth_op_defs getrandom_def session_new_def auth_view_def
        demo_host_machine_def demo_disk_def demo_manager_def split: prod.splits sum.splits)
qed

lemma demo_up:
  obtains s f where "bring_up demo_daemon False demo_host_machine = Inr s"
    and "ap_auth s = ah_auth demo_ready"
    and "ss_mach (ap_sess s) = demo_host_machine\<lparr>m_draws := 1, m_fs := f\<rparr>"
    and "ss_data (ap_sess s) = ss_data demo_idle"
proof -
  let ?pm = "\<lparr>pm_secret = cr_base64url demo_crypto [7],
    pm_manual_code = group_manual_code demo_crypto [7]\<rparr>"
  obtain h' where w: "write_pairing_file ?pm ''p'' ''u'' (demo_host_machine\<lparr>m_draws := 1\<rparr>) = (Inr (), h')"
    using demo_write [of "demo_host_machine\<lparr>m_draws := 1\<rparr>" ?pm]
    by (auto simp: demo_host_machine_def demo_disk_def)
  obtain f where f: "h' = demo_host_machine\<lparr>m_draws := 1, m_fs := f\<rparr>"
    using wp_only_fs [OF w] by auto
  have "ah_auth demo_ready = rotated demo_manager ?pm auth_state_new"
    by (simp add: demo_ready_eq rotated_def demo_manager_def demo_crypto_def hash_of_def
        group_manual_code_def numeral_eq_Suc auth_state_new_def)
  with w f have "bring_up demo_daemon False demo_host_machine =
      Inr \<lparr>ap_sess = demo_idle\<lparr>ss_mach := h'\<rparr>, ap_auth = ah_auth demo_ready\<rparr>"
    by (simp add: bring_up_def ensure_runtime_blocklist_def blocklist_is_empty_def blocklist_len_def
        demo_daemon_def demo_sessions_def list_fst_def Let_def and_then_def with_auth_def
        rotate_pairing_def auth_op_defs getrandom_def session_new_def auth_view_def rotated_def
        demo_host_machine_def demo_disk_def demo_manager_def demo_idle_def auth_state_new_def)
  with f that show thesis by simp
qed

lemma demo_paired_app:
  obtains s f where "app_reachable demo_daemon s" and "ap_auth s = ah_auth demo_paired"
    and "ss_mach (ap_sess s) = demo_host_machine\<lparr>m_draws := 3, m_uuids := 1, m_fs := f\<rparr>"
    and "ss_data (ap_sess s) = ss_data demo_idle"
proof -
  obtain s f where s: "bring_up demo_daemon False demo_host_machine = Inr s"
    "ap_auth s = ah_auth demo_ready" "ss_mach (ap_sess s) = demo_host_machine\<lparr>m_draws := 1, m_fs := f\<rparr>"
    "ss_data (ap_sess s) = ss_data demo_idle" by (rule demo_up)
  let ?s = "app_exec demo_daemon (PairWith ''A'') s"
  have "app_reachable demo_daemon ?s"
    by (rule app_reachable.app_next [OF app_reachable.app_start [OF s(1)]])
  moreover have "ap_auth ?s = ah_auth demo_paired \<and>
      ss_mach (ap_sess ?s) = demo_host_machine\<lparr>m_draws := 3, m_uuids := 1, m_fs := f\<rparr> \<and>
      ss_data (ap_sess ?s) = ss_data demo_idle"
    using s(2-4)
    by (simp add: with_auth_def auth_view_def demo_ready_eq demo_paired_eq exchange_pairing_def
        auth_op_defs demo_daemon_def demo_defs getrandom_def auth_state_new_def hash_of_def
        second_def demo_host_machine_def demo_disk_def)
  ultimately show thesis using that by blast
qed

lemma demo_live:
  "ap_auth s = ah_auth demo_paired \<Longrightarrow> m_instant (ss_mach (ap_sess s)) = 0 \<Longrightarrow> live demo_context s"
  by (simp add: live_def Let_def prune_expired_def live_session_def demo_paired_eq demo_context_def
      second_def auth_state_new_def)

lemma demo_started_app:
  obtains s i where "app_reachable demo_daemon s" and "live demo_context s"
    and "sn_id (sd_snapshot (ss_data (ap_sess s))) = Some i"
proof -
  obtain s f where s: "app_reachable demo_daemon s" "ap_auth s = ah_auth demo_paired"
    "ss_mach (ap_sess s) = demo_host_machine\<lparr>m_draws := 3, m_uuids := 1, m_fs := f\<rparr>"
    "ss_data (ap_sess s) = ss_data demo_idle" by (rule demo_paired_app)
  have t: "m_instant (ss_mach (ap_sess s)) = 0" by (simp add: s(3) demo_host_machine_def demo_disk_def)
  have p: "prune_expired 0 (ah_auth demo_paired) = ah_auth demo_paired"
    by (simp add: prune_expired_def demo_paired_eq second_def auth_state_new_def)
  have l: "live_session demo_context 0 (ah_auth demo_paired)"
    using demo_live [OF s(2) t] by (simp add: live_def t s(2) p)
  let ?s = "app_exec demo_daemon (StartCall demo_context (demo_url ''ok.example'')) s"
  have sess: "as_sessions demo_daemon = demo_sessions" by (simp add: demo_daemon_def)
  have "wp (start_session demo_daemon demo_context (demo_url ''ok.example'')) (\<lambda>r s'.
      ap_auth s' = ah_auth demo_paired \<and> m_instant (ss_mach (ap_sess s')) = 0 \<and>
      sn_id (sd_snapshot (ss_data (ap_sess s'))) \<noteq> None) s"
    by (simp add: start_session_def start_def wp_rules Let_def s(2) t p l sess s(4) demo_initial
        demo_not_blocked lease_free_def starting_def demo_fields plain_egress_def plain_backend_def
        ret_def)
  then have "ap_auth ?s = ah_auth demo_paired \<and> m_instant (ss_mach (ap_sess ?s)) = 0 \<and>
      sn_id (sd_snapshot (ss_data (ap_sess ?s))) \<noteq> None" by (simp add: wp_snd)
  then have "live demo_context ?s" "\<exists>i. sn_id (sd_snapshot (ss_data (ap_sess ?s))) = Some i"
    using demo_live by blast+
  with app_reachable.app_next [OF s(1)] that show thesis by blast
qed

section \<open>Properties\<close>

section \<open>Properties\<close>

text \<open>
  C20. The control lease follows the pairing: in every state the daemon can reach, a client whose
  context is still valid holds the lease of every session that has an identity, and can always
  take it otherwise; so nobody else can hold a session hostage.
\<close>

theorem validated_client_holds_lease:
  assumes "app_reachable a s" and "live cx s"
  shows "lease_free (cx_client_id cx) (ss_data (ap_sess s)) \<and>
    (sn_id (sd_snapshot (ss_data (ap_sess s))) = None \<or>
     sd_controller (ss_data (ap_sess s)) = Some (cx_client_id cx))"
proof -
  let ?p = "prune_expired (m_instant (ss_mach (ap_sess s))) (ap_auth s)"
  have inv: "app_inv a s" by (rule app_reachable_inv [OF assms(1)])
  have l: "live_session cx (m_instant (ss_mach (ap_sess s))) ?p"
    using assms(2) by (simp add: live_def Let_def)
  have own: "c = cx_client_id cx" if "sd_controller (ss_data (ap_sess s)) = Some c" for c
    by (rule live_unique [OF l bound_prune]) (use inv that in \<open>simp add: app_inv_def\<close>)
  have "sn_id (sd_snapshot (ss_data (ap_sess s))) \<noteq> None \<longrightarrow> sd_controller (ss_data (ap_sess s)) \<noteq> None"
    using inv by (simp add: app_inv_def session_inv_def)
  with own show ?thesis
    by (cases "sd_controller (ss_data (ap_sess s))") (auto simp: lease_free_def)
qed

theorem validated_client_holds_lease_witness:
  "\<exists>s. app_reachable demo_daemon s \<and> live demo_context s \<and>
     sd_controller (ss_data (ap_sess s)) = Some (cx_client_id demo_context)"
proof -
  obtain s i where s: "app_reachable demo_daemon s" "live demo_context s"
    "sn_id (sd_snapshot (ss_data (ap_sess s))) = Some i" by (rule demo_started_app)
  from validated_client_holds_lease [OF s(1,2)] s show ?thesis by auto
qed

text \<open>
  A context that is no longer valid can do nothing: start, navigate, switch and burn all
  answer that authentication is required and leave the session, its files and its helpers as
  they were.
\<close>

theorem stale_context_changes_nothing:
  assumes "\<not> live cx s"
  shows "{start_session a cx u s, navigate_session a cx i cmd s, switch_session_egress a cx i mode s,
      burn_controller_session a cx i s} =
    {(Inl Unauthorized, s\<lparr>ap_auth := prune_expired (m_instant (ss_mach (ap_sess s))) (ap_auth s)\<rparr>)}"
proof -
  have "wp (start_session a cx u) (\<lambda>r s'. (r, s') = (Inl Unauthorized,
      s\<lparr>ap_auth := prune_expired (m_instant (ss_mach (ap_sess s))) (ap_auth s)\<rparr>)) s"
    using assms by (simp add: start_session_def wp_rules Let_def live_def)
  moreover have "wp (navigate_session a cx i cmd) (\<lambda>r s'. (r, s') = (Inl Unauthorized,
      s\<lparr>ap_auth := prune_expired (m_instant (ss_mach (ap_sess s))) (ap_auth s)\<rparr>)) s"
    using assms by (simp add: navigate_session_def wp_rules Let_def live_def)
  moreover have "wp (switch_session_egress a cx i mode) (\<lambda>r s'. (r, s') = (Inl Unauthorized,
      s\<lparr>ap_auth := prune_expired (m_instant (ss_mach (ap_sess s))) (ap_auth s)\<rparr>)) s"
    using assms by (simp add: switch_session_egress_def wp_rules Let_def live_def)
  moreover have "wp (burn_controller_session a cx i) (\<lambda>r s'. (r, s') = (Inl Unauthorized,
      s\<lparr>ap_auth := prune_expired (m_instant (ss_mach (ap_sess s))) (ap_auth s)\<rparr>)) s"
    using assms by (simp add: burn_controller_session_def wp_rules Let_def live_def)
  ultimately show ?thesis by (auto simp: wp_def split: prod.splits)
qed

theorem stale_context_changes_nothing_witness:
  "\<exists>s. app_reachable demo_daemon s \<and>
     fst (start_session demo_daemon (demo_context\<lparr>cx_generation := 9\<rparr>) (demo_url ''ok.example'') s) =
       Inl Unauthorized"
proof -
  obtain s i where s: "app_reachable demo_daemon s" "live demo_context s"
    "sn_id (sd_snapshot (ss_data (ap_sess s))) = Some i" by (rule demo_started_app)
  then have "generation (ap_auth s) = 1"
    by (simp add: live_def live_session_def Let_def demo_context_def prune_expired_def)
  then have "\<not> live (demo_context\<lparr>cx_generation := 9\<rparr>) s"
    by (simp add: live_def live_session_def Let_def prune_expired_def)
  from stale_context_changes_nothing [OF this, of demo_daemon "demo_url ''ok.example''"] s(1)
  show ?thesis by (intro exI [of _ s]) (auto simp: doubleton_eq_iff insert_eq_iff)
qed

text \<open>
  Burn releases everything: after the controller's burn of its session, whether it reports
  success or an error, no lease, no history, no cookie and no ticket is left; and when it reports
  success the session is idle and fresh pairing material is published that the daemon accepts.
\<close>

theorem burn_releases_and_republishes:
  assumes "app_reachable a s" and "atomic_file a" and "live cx s"
    and "sn_id (sd_snapshot (ss_data (ap_sess s))) = Some i"
    and "burn_controller_session a cx i s = (r, s')"
  shows "released s' \<and> (if r \<in> range Inr
    then sn_phase (sd_snapshot (ss_data (ap_sess s'))) = Idle \<and> (\<exists>pm. published a s' pm) else True)"
proof -
  let ?p = "prune_expired (m_instant (ss_mach (ap_sess s))) (ap_auth s)"
  let ?s = "s\<lparr>ap_auth := ?p\<rparr>"
  have inv: "app_inv a s" by (rule app_reachable_inv [OF assms(1)])
  have l: "live_session cx (m_instant (ss_mach (ap_sess s))) ?p"
    using assms(3) by (simp add: live_def Let_def)
  obtain c where c: "sd_controller (ss_data (ap_sess s)) = Some c"
    using inv assms(4) by (auto simp: app_inv_def session_inv_def)
  have "c = cx_client_id cx"
    by (rule live_unique [OF l bound_prune]) (use inv c in \<open>simp add: app_inv_def\<close>)
  then have "wp (burn_and_rotate a (Some (cx_client_id cx))) (\<lambda>r s'. released s' \<and>
    (r \<in> range Inr \<longrightarrow> sn_phase (sd_snapshot (ss_data (ap_sess s'))) = Idle \<and> (\<exists>pm. published a s' pm))) ?s"
    by (intro burn_and_rotate_outcome [OF _ assms(2)]) (use inv c in \<open>simp_all add: app_inv_def\<close>)
  then have "wp (burn_controller_session a cx i) (\<lambda>r s'. released s' \<and>
    (r \<in> range Inr \<longrightarrow> sn_phase (sd_snapshot (ss_data (ap_sess s'))) = Idle \<and> (\<exists>pm. published a s' pm))) s"
    using l assms(4) by (simp add: burn_controller_session_def wp_rules Let_def require_session_id_def)
  from wpD [OF this assms(5)] show ?thesis by auto
qed

theorem burn_releases_and_republishes_witness:
  "\<exists>s i. app_reachable demo_daemon s \<and> released (snd (burn_controller_session demo_daemon demo_context i s))"
proof -
  obtain s i where s: "app_reachable demo_daemon s" "live demo_context s"
    "sn_id (sd_snapshot (ss_data (ap_sess s))) = Some i" by (rule demo_started_app)
  obtain r s' where b: "burn_controller_session demo_daemon demo_context i s = (r, s')" by fastforce
  from burn_releases_and_republishes [OF s(1) demo_atomic s(2,3) b] b s(1) show ?thesis
    by (metis snd_conv)
qed

text \<open>
  A stranded daemon recovers: whenever the watchdog's check finds the pairing material used
  and no session left, it ends with nobody in control, and unless it reports an error the session
  is idle and fresh, accepted pairing material is published; when the check finds otherwise it
  only forgets what has expired.
\<close>

theorem recovery_releases_and_republishes:
  assumes "app_reachable a s" and "atomic_file a"
    and "p = prune_expired (m_instant (ss_mach (ap_sess s))) (ap_auth s)"
    and "recover_expired_auth a s = (r, s')"
  shows "if 0 < generation p \<and> \<not> pairing_available p \<and> sessions p = []
    then released s' \<and> r \<noteq> Inr False \<and> (if r = Inr True
      then sn_phase (sd_snapshot (ss_data (ap_sess s'))) = Idle \<and> (\<exists>pm. published a s' pm) else True)
    else (r, s') = (Inr False, s\<lparr>ap_auth := p\<rparr>)"
proof -
  let ?s = "s\<lparr>ap_auth := p\<rparr>"
  have inv: "session_inv (as_sessions a) (ss_data (ap_sess s))"
    using app_reachable_inv [OF assms(1)] by (simp add: app_inv_def)
  let ?post = "\<lambda>r s'. released s' \<and> r \<noteq> Inr False \<and> (r \<in> range Inr \<longrightarrow>
      sn_phase (sd_snapshot (ss_data (ap_sess s'))) = Idle \<and> (\<exists>pm. published a s' pm))"
  have rep: "wp (republish a b (\<lambda>_. True)) ?post t"
    if "sd_controller (ss_data (ap_sess t)) = None" "sd_history (ss_data (ap_sess t)) = []"
      "sn_phase (sd_snapshot (ss_data (ap_sess t))) = (if b \<in> range Inr then Idle else Failed)"
    for b :: "app_error + session_snapshot" and t :: "'a app"
  proof -
    have "wp (republish a b (\<lambda>_. True)) (\<lambda>r s'. r \<noteq> Inr False) t"
      by (cases b) (auto simp: republish_def wp_rules wp_def split: prod.splits sum.splits)
    from wp_conj [OF this republish_outcome [OF assms(2) that]] show ?thesis
      by (rule wp_mono) auto
  qed
  have "wp (force_burn (as_sessions a)) (\<lambda>b t. wp (republish a b (\<lambda>_. True)) ?post (?s\<lparr>ap_sess := t\<rparr>)) (ap_sess s)"
    unfolding force_burn_def by (rule wp_mono [OF burn_unchecked_outcome [OF inv]]) (rule rep; simp)
  moreover have "wp (republish a (Inr n) (\<lambda>_. True)) ?post ?s"
    if "sn_phase (sd_snapshot (ss_data (ap_sess s))) = Idle" for n :: session_snapshot
    by (rule rep) (use inv that in \<open>simp_all add: session_inv_def\<close>)
  ultimately have "wp (recover_expired_auth a) (\<lambda>r s'.
      if 0 < generation p \<and> \<not> pairing_available p \<and> sessions p = [] then ?post r s'
      else (r, s') = (Inr False, ?s)) s"
    by (simp add: wp_republish_idle_recover wp_rules Let_def assms(3) [symmetric])
  from wpD [OF this assms(4)] show ?thesis by (auto split: if_splits)
qed

theorem recovery_releases_and_republishes_witness:
  "\<exists>s. app_reachable demo_daemon s \<and> fst (recover_expired_auth demo_daemon s) = Inr False"
proof -
  obtain s f where s: "bring_up demo_daemon False demo_host_machine = Inr s"
    "ap_auth s = ah_auth demo_ready" by (rule demo_up)
  have r: "app_reachable demo_daemon s" by (rule app_reachable.app_start [OF s(1)])
  obtain r s' where c: "recover_expired_auth demo_daemon s = (r, s')" by fastforce
  from recovery_releases_and_republishes [OF r demo_atomic refl c] s(2) c r show ?thesis
    by (auto simp: demo_ready_eq prune_expired_def pairing_available_def)
qed

text \<open>
  Inactivity, exactly: the watchdog burns a session if and only if it is active, its
  auto-burn time is not zero and has passed since the last activity; otherwise nothing changes.
  When it does, everything is released, whatever is reported.
\<close>

theorem auto_burn_exactly:
  assumes "app_reachable a s" and "atomic_file a" and "auto_burn_if_due a s = (r, s')"
    and "n = sd_snapshot (ss_data (ap_sess s))"
    and "idle = m_instant (ss_mach (ap_sess s)) - sd_last_activity (ss_data (ap_sess s))"
  shows "if sn_phase n = Active \<and> 0 < sn_auto_burn_seconds n \<and>
       unat (sn_auto_burn_seconds n) * second \<le> idle
    then released s' \<and> r \<noteq> Inr False else (r, s') = (Inr False, s)"
proof -
  have inv: "session_inv (as_sessions a) (ss_data (ap_sess s))"
    using app_reachable_inv [OF assms(1)] by (simp add: app_inv_def)
  have z: "unat (sn_auto_burn_seconds n) * second = 0 \<longleftrightarrow> \<not> 0 < sn_auto_burn_seconds n"
    by (simp add: second_def word_gt_0 unat_eq_0)
  have "wp (burn_and_rotate a None) (\<lambda>r s'. released s') s"
    by (rule wp_mono [OF burn_and_rotate_outcome [OF inv assms(2)]]) simp_all
  then have "wp (burn_and_rotate a None) (\<lambda>r s'. released s' \<and> (case r of Inl e \<Rightarrow> Inl e | Inr _ \<Rightarrow> Inr True) \<noteq> Inr False) s"
    by (rule wp_mono) (simp split: sum.splits)
  then have "wp (auto_burn_if_due a) (\<lambda>r s'. if sn_phase n = Active \<and> 0 < sn_auto_burn_seconds n \<and>
       unat (sn_auto_burn_seconds n) * second \<le> idle
    then released s' \<and> r \<noteq> Inr False else (r, s') = (Inr False, s)) s"
    using z by (auto simp: auto_burn_if_due_def wp_rules idle_for_def Let_def assms(4) [symmetric]
        assms(5) [symmetric] elim!: wp_mono split: sum.splits)
  from wpD [OF this assms(3)] show ?thesis .
qed

theorem auto_burn_exactly_witness:
  "\<exists>s. app_reachable demo_daemon s \<and> auto_burn_if_due demo_daemon s = (Inr False, s)"
proof -
  obtain s f where s: "bring_up demo_daemon False demo_host_machine = Inr s"
    "ss_data (ap_sess s) = ss_data demo_idle" by (rule demo_up)
  have r: "app_reachable demo_daemon s" by (rule app_reachable.app_start [OF s(1)])
  obtain x s' where c: "auto_burn_if_due demo_daemon s = (x, s')" by fastforce
  from auto_burn_exactly [OF r demo_atomic c refl refl] s(2) c r show ?thesis
    by (auto simp: demo_initial)
qed

text \<open>
  The daemon only comes up ready: with a compiled, non-empty block list unless it runs in
  insecure development mode, with an idle session nobody holds, and with pairing material that
  is published in the pairing file and that it accepts.
\<close>

theorem daemon_comes_up_ready:
  assumes "bring_up a insecure h = Inr s" and "atomic_file a"
  shows "(\<not> blocklist_is_empty (sm_blocklist (as_sessions a)) \<or> insecure) \<and>
    released s \<and> sn_phase (sd_snapshot (ss_data (ap_sess s))) = Idle \<and> (\<exists>pm. published a s pm)"
proof -
  obtain pm h0 where b: "ap_auth s = rotated (as_auth a) pm auth_state_new"
    "write_pairing_file pm (as_pairing_file a) (as_public_base_url a) h0 = (Inr (), ss_mach (ap_sess s))"
    using bring_up_result [OF assms(1)] by blast
  from write_pairing_file_effect [OF b(2)] assms(2) b(1) have "published a s pm"
    by (simp add: published_def atomic_file_def rotated_accepts)
  moreover have "released s \<and> sn_phase (sd_snapshot (ss_data (ap_sess s))) = Idle"
    using bring_up_result [OF assms(1)] b(1) by (simp add: released_def session_new_def rotated_def)
  ultimately show ?thesis using bring_up_result [OF assms(1)] by blast
qed

theorem daemon_comes_up_ready_witness:
  "\<exists>s pm. bring_up demo_daemon False demo_host_machine = Inr s \<and> published demo_daemon s pm"
proof -
  obtain s f where "bring_up demo_daemon False demo_host_machine = Inr s" by (rule demo_up)
  with daemon_comes_up_ready [OF this demo_atomic] show ?thesis by blast
qed

end
