(* ===== verification/EgressPolicy.thy ===== *)
theory EgressPolicy
  imports Model RustNet
begin

text \<open>
  \<open>src/egress.rs\<close>: what the privileged helpers accept as a proxy URL, as a WireGuard
  configuration and as a secret file. URL parsing and base64 are third-party and arguments; a
  secret file is seen through the two system calls the code makes on it, its metadata and its
  text, which need not belong together. An error is its outermost text.
\<close>

section \<open>Proxy URLs\<close>

record validated_proxy =
  vp_url :: url
  vp_endpoint :: socket_addr

definition max_wireguard_config_bytes :: nat where "max_wireguard_config_bytes = 64 * 1024"
definition max_proxy_url_bytes :: nat where "max_proxy_url_bytes = 8 * 1024"

definition proxy_host :: "string \<Rightarrow> ip_addr option" where
  "proxy_host host = parse_ip_addr (trim_end_matches CHR '']'' (trim_start_matches CHR ''['' host))"

definition validate_proxy_url ::
  "(string \<Rightarrow> url option) \<Rightarrow> string \<Rightarrow> bool \<Rightarrow> string + validated_proxy" where
  "validate_proxy_url parse_url raw allow_credentials =
     (let value = trim raw
      in if value = [] \<or> max_proxy_url_bytes < length value
         then Inl ''proxy URL must be non-empty and no larger than 8 KiB''
         else
           case parse_url value of
             None \<Rightarrow> Inl ''proxy URL is invalid''
           | Some u \<Rightarrow>
               if url_scheme u \<notin> {''http'', ''https'', ''socks5'', ''socks5h''}
               then Inl ''proxy URL uses an unsupported scheme''
               else if url_path u \<notin> {[], ''/''} \<or> url_query u \<noteq> None \<or> url_fragment u \<noteq> None
               then Inl ''proxy URL must not contain a path, query, or fragment''
               else if \<not> allow_credentials \<and> (url_username u \<noteq> [] \<or> url_password u \<noteq> None)
               then Inl ''managed proxy URL must not contain credentials''
               else
                 case url_host_str u of
                   None \<Rightarrow> Inl ''proxy URL must contain a host''
                 | Some host \<Rightarrow>
                     (case proxy_host host of
                        None \<Rightarrow> Inl ''proxy host must be a literal IP address''
                      | Some ip \<Rightarrow>
                          (case url_port_or_known_default u of
                             None \<Rightarrow> Inl ''proxy URL scheme does not provide a usable port''
                           | Some port \<Rightarrow>
                               Inr \<lparr>vp_url = u, vp_endpoint = socket_addr_new ip port\<rparr>)))"

section \<open>Secret files\<close>

datatype secret_permissions = OwnerOnly | GroupReadable

record file_meta =
  fm_symlink :: bool
  fm_file :: bool
  fm_len :: nat
  fm_uid :: u32
  fm_mode :: u32

record secret_files =
  sf_metadata :: "string \<Rightarrow> file_meta option"
  sf_text :: "string \<Rightarrow> string option"

fun forbidden_bits :: "secret_permissions \<Rightarrow> u32" where
  "forbidden_bits OwnerOnly = 0x3F"
| "forbidden_bits GroupReadable = 0x17"

definition read_secret_file ::
  "secret_files \<Rightarrow> string \<Rightarrow> nat \<Rightarrow> secret_permissions \<Rightarrow> u32 option \<Rightarrow> string + string" where
  "read_secret_file fs path max_bytes permissions required_uid =
     (case sf_metadata fs path of
        None \<Rightarrow> Inl (''failed to inspect secret file '' @ path)
      | Some meta \<Rightarrow>
          if fm_symlink meta \<or> \<not> fm_file meta
          then Inl ''secret input must be a regular non-symlink file''
          else if fm_len meta = 0 \<or> max_bytes < fm_len meta
          then Inl ''secret input has an invalid size''
          else if (case required_uid of None \<Rightarrow> False | Some uid \<Rightarrow> fm_uid meta \<noteq> uid)
          then Inl ''secret input has an unexpected owner''
          else if and (and (fm_mode meta) 0x1FF) (forbidden_bits permissions) \<noteq> 0
          then Inl ''secret input permissions are too broad''
          else (case sf_text fs path of
                  None \<Rightarrow> Inl (''failed to read secret file '' @ path)
                | Some raw \<Rightarrow> Inr raw))"

definition validate_proxy_url_file ::
  "(string \<Rightarrow> url option) \<Rightarrow> secret_files \<Rightarrow> string \<Rightarrow> socket_addr option \<Rightarrow> u32 option \<Rightarrow>
     string + validated_proxy" where
  "validate_proxy_url_file parse_url fs path expected_endpoint required_uid =
     (case read_secret_file fs path max_proxy_url_bytes GroupReadable required_uid of
        Inl e \<Rightarrow> Inl e
      | Inr raw \<Rightarrow>
          (case validate_proxy_url parse_url raw True of
             Inl e \<Rightarrow> Inl e
           | Inr proxy \<Rightarrow>
               if (case expected_endpoint of None \<Rightarrow> False | Some e \<Rightarrow> e \<noteq> vp_endpoint proxy)
               then Inl ''proxy URL endpoint does not match the configured kill-switch endpoint''
               else Inr proxy))"

section \<open>WireGuard values\<close>

definition validate_wireguard_key ::
  "(string \<Rightarrow> u8 list option) \<Rightarrow> string \<Rightarrow> string \<Rightarrow> string + unit" where
  "validate_wireguard_key decode value name =
     (case decode value of
        None \<Rightarrow> Inl (''WireGuard '' @ name @ '' is not valid base64'')
      | Some bytes \<Rightarrow>
          if length bytes \<noteq> 32 then Inl (''WireGuard '' @ name @ '' must decode to 32 bytes'')
          else Inr ())"

text \<open>One CIDR: the default-route flags it contributes for IPv4 and IPv6.\<close>

definition validate_cidr :: "string \<Rightarrow> string \<Rightarrow> string + bool \<times> bool" where
  "validate_cidr name raw =
     (case split_once CHR ''/'' (trim raw) of
        None \<Rightarrow> Inl (''WireGuard '' @ name @ '' must use CIDR notation'')
      | Some (address, len) \<Rightarrow>
          (case parse_ip_addr address of
             None \<Rightarrow> Inl (''WireGuard '' @ name @ '' contains an invalid IP address'')
           | Some ip \<Rightarrow>
               (case parse_uint 255 len of
                  None \<Rightarrow> Inl (''WireGuard '' @ name @ '' contains an invalid prefix'')
                | Some n \<Rightarrow>
                    (case ip of
                       V4 _ _ _ _ \<Rightarrow>
                         if n \<le> 32 then Inr (is_unspecified ip \<and> n = 0, False)
                         else Inl (''WireGuard '' @ name @ '' prefix is outside the address-family range'')
                     | V6 _ \<Rightarrow>
                         if n \<le> 128 then Inr (False, is_unspecified ip \<and> n = 0)
                         else Inl (''WireGuard '' @ name @ '' prefix is outside the address-family range'')))))"

fun cidr_fold :: "string \<Rightarrow> string list \<Rightarrow> bool \<times> bool \<Rightarrow> string + bool \<times> bool" where
  "cidr_fold name [] acc = Inr acc"
| "cidr_fold name (raw # rest) (v4, v6) =
     (case validate_cidr name raw of
        Inl e \<Rightarrow> Inl e
      | Inr (d4, d6) \<Rightarrow> cidr_fold name rest (v4 \<or> d4, v6 \<or> d6))"

text \<open>\<open>split(',')\<close> yields at least one part, so the code's \<open>any\<close> flag is always set at its end.\<close>

definition validate_cidr_list :: "string \<Rightarrow> string \<Rightarrow> string + bool \<times> bool" where
  "validate_cidr_list value name = cidr_fold name (split_on CHR '','' value) (False, False)"

definition validate_u16 :: "string \<Rightarrow> string \<Rightarrow> string + unit" where
  "validate_u16 value name =
     (case parse_uint 65535 value of
        None \<Rightarrow> Inl (''WireGuard '' @ name @ '' is invalid'') | Some _ \<Rightarrow> Inr ())"

definition validate_nonzero_u16 :: "string \<Rightarrow> string \<Rightarrow> string + unit" where
  "validate_nonzero_u16 value name =
     (case parse_uint 65535 value of
        None \<Rightarrow> Inl (''WireGuard '' @ name @ '' is invalid'')
      | Some n \<Rightarrow>
          if n = 0 then Inl (''WireGuard '' @ name @ '' must be greater than zero'') else Inr ())"

definition validate_mtu :: "string \<Rightarrow> string + unit" where
  "validate_mtu value =
     (case parse_uint 65535 value of
        None \<Rightarrow> Inl ''WireGuard MTU is invalid''
      | Some mtu \<Rightarrow>
          if \<not> (576 \<le> mtu \<and> mtu \<le> 9000) then Inl ''WireGuard MTU is outside the supported range''
          else Inr ())"

definition endpoint_host_byte :: "char \<Rightarrow> bool" where
  "endpoint_host_byte c \<longleftrightarrow> is_ascii_alphanumeric c \<or> c \<in> {CHR ''.'', CHR ''-'', CHR ''_''}"

definition bracketed :: "string \<Rightarrow> string option" where
  "bracketed host =
     (case strip_prefix_char CHR ''['' host of
        None \<Rightarrow> None | Some h \<Rightarrow> strip_suffix_char CHR '']'' h)"

definition validate_wireguard_endpoint :: "string \<Rightarrow> string + unit" where
  "validate_wireguard_endpoint value =
     (if \<not> prefix ''['' value \<and> length (filter (\<lambda>c. c = CHR '':'') value) \<noteq> 1
      then Inl ''WireGuard Endpoint must be host:port or [IPv6]:port''
      else
        case rsplit_once CHR '':'' value of
          None \<Rightarrow> Inl ''WireGuard Endpoint must include a port''
        | Some (host, port) \<Rightarrow>
            (case bracketed host of
               Some ipv6 \<Rightarrow>
                 if parse_ipv6_addr ipv6 = None
                 then Inl ''WireGuard Endpoint contains an invalid IPv6 address''
                 else validate_nonzero_u16 port ''Endpoint port''
             | None \<Rightarrow>
                 if host = [] \<or> \<not> list_all endpoint_host_byte host
                 then Inl ''WireGuard Endpoint contains an invalid hostname''
                 else validate_nonzero_u16 port ''Endpoint port''))"

section \<open>WireGuard configurations\<close>

record wireguard_policy =
  ipv4_default :: bool
  ipv6_default :: bool

datatype wg_section = InterfaceSection | PeerSection

record wg_scan =
  wg_section :: "wg_section option"
  wg_interfaces :: nat
  wg_peers :: nat
  wg_private_key :: bool
  wg_address :: bool
  wg_table_off :: bool
  wg_public_key :: bool
  wg_allowed_ips :: bool
  wg_endpoint :: bool
  wg_ipv4 :: bool
  wg_ipv6 :: bool

definition wg_start :: wg_scan where
  "wg_start = \<lparr>wg_section = None, wg_interfaces = 0, wg_peers = 0, wg_private_key = False,
     wg_address = False, wg_table_off = False, wg_public_key = False, wg_allowed_ips = False,
     wg_endpoint = False, wg_ipv4 = False, wg_ipv6 = False\<rparr>"

definition finish_peer :: "wg_scan \<Rightarrow> string + unit" where
  "finish_peer st =
     (if 0 < wg_peers st \<and> (\<not> wg_public_key st \<or> \<not> wg_allowed_ips st \<or> \<not> wg_endpoint st)
      then Inl ''every WireGuard peer requires PublicKey, AllowedIPs, and Endpoint'' else Inr ())"

definition wg_content :: "string \<Rightarrow> string" where
  "wg_content raw_line =
     trim (case split_once CHR ''#'' raw_line of None \<Rightarrow> raw_line | Some (content, _) \<Rightarrow> content)"

definition wg_header :: "string \<Rightarrow> wg_scan \<Rightarrow> string + wg_scan" where
  "wg_header line st =
     (let name = to_ascii_lowercase line
      in if name = ''[interface]''
         then (case finish_peer st of
                 Inl e \<Rightarrow> Inl e
               | Inr _ \<Rightarrow>
                   let st' = st\<lparr>wg_interfaces := wg_interfaces st + 1\<rparr>
                   in if wg_interfaces st' \<noteq> 1 \<or> wg_peers st' \<noteq> 0
                      then Inl ''WireGuard config must contain one Interface section before peers''
                      else Inr (st'\<lparr>wg_section := Some InterfaceSection\<rparr>))
         else if name = ''[peer]''
         then (if wg_interfaces st \<noteq> 1
               then Inl ''WireGuard Peer must follow the Interface section''
               else (case finish_peer st of
                       Inl e \<Rightarrow> Inl e
                     | Inr _ \<Rightarrow> Inr (st\<lparr>wg_peers := wg_peers st + 1, wg_public_key := False,
                         wg_allowed_ips := False, wg_endpoint := False,
                         wg_section := Some PeerSection\<rparr>)))
         else Inl ''WireGuard config contains an unsupported section'')"

definition wg_interface_item ::
  "(string \<Rightarrow> u8 list option) \<Rightarrow> string \<Rightarrow> string \<Rightarrow> wg_scan \<Rightarrow> string + wg_scan" where
  "wg_interface_item decode key value st =
     (if key = ''privatekey''
      then (case validate_wireguard_key decode value ''PrivateKey'' of
              Inl e \<Rightarrow> Inl e
            | Inr _ \<Rightarrow>
                if wg_private_key st
                then Inl ''WireGuard Interface contains duplicate PrivateKey''
                else Inr (st\<lparr>wg_private_key := True\<rparr>))
      else if key = ''address''
      then (case validate_cidr_list value ''Interface Address'' of
              Inl e \<Rightarrow> Inl e | Inr _ \<Rightarrow> Inr (st\<lparr>wg_address := True\<rparr>))
      else if key = ''listenport''
      then (case validate_nonzero_u16 value ''ListenPort'' of Inl e \<Rightarrow> Inl e | Inr _ \<Rightarrow> Inr st)
      else if key = ''mtu''
      then (case validate_mtu value of Inl e \<Rightarrow> Inl e | Inr _ \<Rightarrow> Inr st)
      else if key = ''table''
      then (if wg_table_off st \<or> \<not> eq_ignore_ascii_case value ''off''
            then Inl ''WireGuard Interface must contain exactly one Table=off''
            else Inr (st\<lparr>wg_table_off := True\<rparr>))
      else if key \<in> {''dns'', ''preup'', ''postup'', ''predown'', ''postdown'', ''saveconfig''}
      then Inl ''WireGuard config contains a prohibited wg-quick directive''
      else Inl ''WireGuard Interface contains an unsupported directive'')"

definition wg_peer_item ::
  "(string \<Rightarrow> u8 list option) \<Rightarrow> string \<Rightarrow> string \<Rightarrow> wg_scan \<Rightarrow> string + wg_scan" where
  "wg_peer_item decode key value st =
     (if key = ''publickey''
      then (case validate_wireguard_key decode value ''PublicKey'' of
              Inl e \<Rightarrow> Inl e
            | Inr _ \<Rightarrow>
                if wg_public_key st
                then Inl ''WireGuard Peer contains duplicate PublicKey''
                else Inr (st\<lparr>wg_public_key := True\<rparr>))
      else if key = ''presharedkey''
      then (case validate_wireguard_key decode value ''PresharedKey'' of
              Inl e \<Rightarrow> Inl e | Inr _ \<Rightarrow> Inr st)
      else if key = ''allowedips''
      then (case validate_cidr_list value ''AllowedIPs'' of
              Inl e \<Rightarrow> Inl e
            | Inr (d4, d6) \<Rightarrow> Inr (st\<lparr>wg_ipv4 := wg_ipv4 st \<or> d4, wg_ipv6 := wg_ipv6 st \<or> d6,
                wg_allowed_ips := True\<rparr>))
      else if key = ''endpoint''
      then (case validate_wireguard_endpoint value of
              Inl e \<Rightarrow> Inl e
            | Inr _ \<Rightarrow>
                if wg_endpoint st
                then Inl ''WireGuard Peer contains duplicate Endpoint''
                else Inr (st\<lparr>wg_endpoint := True\<rparr>))
      else if key = ''persistentkeepalive''
      then (case validate_u16 value ''PersistentKeepalive'' of Inl e \<Rightarrow> Inl e | Inr _ \<Rightarrow> Inr st)
      else Inl ''WireGuard Peer contains an unsupported directive'')"

definition wg_line ::
  "(string \<Rightarrow> u8 list option) \<Rightarrow> nat \<Rightarrow> string \<Rightarrow> wg_scan \<Rightarrow> string + wg_scan" where
  "wg_line decode index raw_line st =
     (let line = wg_content raw_line
      in if line = [] then Inr st
         else if hd line = CHR ''['' \<and> last line = CHR '']'' then wg_header line st
         else
           case split_once CHR ''='' line of
             None \<Rightarrow> Inl (''invalid WireGuard line '' @ show_nat (index + 1))
           | Some (k, v) \<Rightarrow>
               let key = to_ascii_lowercase (trim k); value = trim v
               in if value = []
                  then Inl (''WireGuard value on line '' @ show_nat (index + 1) @ '' must not be empty'')
                  else
                    case wg_section st of
                      Some InterfaceSection \<Rightarrow> wg_interface_item decode key value st
                    | Some PeerSection \<Rightarrow> wg_peer_item decode key value st
                    | None \<Rightarrow> Inl ''WireGuard directive appears outside a section'')"

fun wg_lines ::
  "(string \<Rightarrow> u8 list option) \<Rightarrow> nat \<Rightarrow> string list \<Rightarrow> wg_scan \<Rightarrow> string + wg_scan" where
  "wg_lines decode index [] st = Inr st"
| "wg_lines decode index (l # ls) st =
     (case wg_line decode index l st of
        Inl e \<Rightarrow> Inl e | Inr st' \<Rightarrow> wg_lines decode (Suc index) ls st')"

definition validate_wireguard_config ::
  "(string \<Rightarrow> u8 list option) \<Rightarrow> string \<Rightarrow> string + wireguard_policy" where
  "validate_wireguard_config decode raw =
     (case wg_lines decode 0 (rust_lines raw) wg_start of
        Inl e \<Rightarrow> Inl e
      | Inr st \<Rightarrow>
          (case finish_peer st of
             Inl e \<Rightarrow> Inl e
           | Inr _ \<Rightarrow>
               if wg_interfaces st \<noteq> 1 \<or> \<not> wg_private_key st \<or> \<not> wg_address st \<or> \<not> wg_table_off st
               then Inl ''WireGuard Interface requires PrivateKey, Address, and Table=off''
               else if wg_peers st = 0 \<or> (\<not> wg_ipv4 st \<and> \<not> wg_ipv6 st)
               then Inl ''WireGuard config requires at least one full-tunnel default route''
               else Inr \<lparr>ipv4_default = wg_ipv4 st, ipv6_default = wg_ipv6 st\<rparr>))"

definition validate_wireguard_config_file ::
  "(string \<Rightarrow> u8 list option) \<Rightarrow> secret_files \<Rightarrow> string \<Rightarrow> u32 option \<Rightarrow> string + wireguard_policy" where
  "validate_wireguard_config_file decode fs path required_uid =
     (case read_secret_file fs path max_wireguard_config_bytes OwnerOnly required_uid of
        Inl e \<Rightarrow> Inl e
      | Inr raw \<Rightarrow> validate_wireguard_config decode raw)"

section \<open>Facts\<close>

definition header_line :: "string \<Rightarrow> string \<Rightarrow> bool" where
  "header_line name l \<longleftrightarrow> (let c = wg_content l
     in c \<noteq> [] \<and> hd c = CHR ''['' \<and> last c = CHR '']'' \<and> to_ascii_lowercase c = name)"

text \<open>A \<open>key = value\<close> line, outside comments and not a section header.\<close>

definition item_line :: "string \<Rightarrow> (string \<times> string) option" where
  "item_line l = (let c = wg_content l
     in if c = [] \<or> (hd c = CHR ''['' \<and> last c = CHR '']'') then None
        else case split_once CHR ''='' c of None \<Rightarrow> None
          | Some (k, v) \<Rightarrow> Some (to_ascii_lowercase (trim k), trim v))"

definition permitted_keys :: "string list" where
  "permitted_keys = [''privatekey'', ''address'', ''listenport'', ''mtu'', ''table'', ''publickey'',
     ''presharedkey'', ''allowedips'', ''endpoint'', ''persistentkeepalive'']"

definition harmless_line :: "string \<Rightarrow> bool" where
  "harmless_line l \<longleftrightarrow> wg_content l = [] \<or> header_line ''[interface]'' l \<or> header_line ''[peer]'' l \<or>
     (case item_line l of None \<Rightarrow> False | Some (k, v) \<Rightarrow> k \<in> set permitted_keys \<and> v \<noteq> [])"

definition table_off_line :: "string \<Rightarrow> bool" where
  "table_off_line l \<longleftrightarrow> (case item_line l of None \<Rightarrow> False
     | Some (k, v) \<Rightarrow> k = ''table'' \<and> eq_ignore_ascii_case v ''off'')"

definition allowed_defaults :: "string \<Rightarrow> bool \<times> bool" where
  "allowed_defaults l = (case item_line l of None \<Rightarrow> (False, False)
     | Some (k, v) \<Rightarrow> if k = ''allowedips''
         then (case validate_cidr_list v ''AllowedIPs'' of Inl _ \<Rightarrow> (False, False) | Inr d \<Rightarrow> d)
         else (False, False))"

lemma header_effect:
  assumes "wg_header line st = Inr st'"
  shows "(to_ascii_lowercase line = ''[interface]'' \<or> to_ascii_lowercase line = ''[peer]'') \<and>
    wg_interfaces st' = wg_interfaces st + (if to_ascii_lowercase line = ''[interface]'' then 1 else 0) \<and>
    wg_peers st' = wg_peers st + (if to_ascii_lowercase line = ''[peer]'' then 1 else 0) \<and>
    wg_table_off st' = wg_table_off st \<and> wg_ipv4 st' = wg_ipv4 st \<and> wg_ipv6 st' = wg_ipv6 st"
  using assms by (auto simp: wg_header_def Let_def split: if_splits sum.splits)

lemma interface_effect:
  assumes "wg_interface_item decode key value st = Inr st'"
  shows "key \<in> set permitted_keys \<and> key \<noteq> ''allowedips'' \<and>
    wg_interfaces st' = wg_interfaces st \<and> wg_peers st' = wg_peers st \<and>
    wg_table_off st' = (wg_table_off st \<or> key = ''table'') \<and>
    (key = ''table'' \<longrightarrow> eq_ignore_ascii_case value ''off'' \<and> \<not> wg_table_off st) \<and>
    wg_ipv4 st' = wg_ipv4 st \<and> wg_ipv6 st' = wg_ipv6 st"
  using assms
  by (auto simp: wg_interface_item_def permitted_keys_def split: if_splits sum.splits)

lemma peer_effect:
  assumes "wg_peer_item decode key value st = Inr st'"
  shows "key \<in> set permitted_keys \<and> key \<noteq> ''table'' \<and>
    wg_interfaces st' = wg_interfaces st \<and> wg_peers st' = wg_peers st \<and>
    wg_table_off st' = wg_table_off st \<and>
    (if key = ''allowedips'' then \<exists>d4 d6. validate_cidr_list value ''AllowedIPs'' = Inr (d4, d6) \<and>
        wg_ipv4 st' = (wg_ipv4 st \<or> d4) \<and> wg_ipv6 st' = (wg_ipv6 st \<or> d6)
     else wg_ipv4 st' = wg_ipv4 st \<and> wg_ipv6 st' = wg_ipv6 st)"
  using assms
  by (auto simp: wg_peer_item_def permitted_keys_def split: if_splits sum.splits)

lemma line_effect:
  assumes "wg_line decode i l st = Inr st'"
  shows "harmless_line l \<and>
    wg_interfaces st' = wg_interfaces st + (if header_line ''[interface]'' l then 1 else 0) \<and>
    wg_peers st' = wg_peers st + (if header_line ''[peer]'' l then 1 else 0) \<and>
    wg_table_off st' = (wg_table_off st \<or> table_off_line l) \<and>
    (table_off_line l \<longrightarrow> \<not> wg_table_off st) \<and>
    wg_ipv4 st' = (wg_ipv4 st \<or> fst (allowed_defaults l)) \<and>
    wg_ipv6 st' = (wg_ipv6 st \<or> snd (allowed_defaults l))"
proof -
  let ?c = "wg_content l"
  consider (empty) "?c = []" | (hdr) "?c \<noteq> []" "hd ?c = CHR ''['' \<and> last ?c = CHR '']''"
    | (item) "?c \<noteq> []" "\<not> (hd ?c = CHR ''['' \<and> last ?c = CHR '']'')" by blast
  then show ?thesis
  proof cases
    case empty
    with assms show ?thesis
      by (simp add: wg_line_def harmless_line_def header_line_def table_off_line_def
          allowed_defaults_def item_line_def)
  next
    case hdr
    then have "wg_header ?c st = Inr st'" using assms by (simp add: wg_line_def)
    from header_effect [OF this] hdr show ?thesis
      by (auto simp: harmless_line_def header_line_def table_off_line_def allowed_defaults_def
          item_line_def Let_def)
  next
    case item
    then obtain k v where kv: "split_once CHR ''='' ?c = Some (k, v)"
      using assms by (auto simp: wg_line_def Let_def split: option.splits)
    let ?k = "to_ascii_lowercase (trim k)" and ?v = "trim v"
    have il: "item_line l = Some (?k, ?v)" using item kv by (auto simp: item_line_def Let_def)
    have nh: "\<not> header_line n l" for n using item by (auto simp: header_line_def Let_def)
    have ne: "?v \<noteq> []" using assms item kv by (auto simp: wg_line_def Let_def)
    consider "wg_interface_item decode ?k ?v st = Inr st'" | "wg_peer_item decode ?k ?v st = Inr st'"
      using assms item kv
      by (auto simp: wg_line_def Let_def split: if_splits option.splits wg_section.splits)
    then show ?thesis
    proof cases
      case 1
      from interface_effect [OF 1] il nh ne show ?thesis
        by (auto simp: harmless_line_def table_off_line_def allowed_defaults_def)
    next
      case 2
      from peer_effect [OF 2] il nh ne show ?thesis
        by (auto simp: harmless_line_def table_off_line_def allowed_defaults_def split: if_splits)
    qed
  qed
qed

lemma lines_effect:
  assumes "wg_lines decode i ls st = Inr st'"
  shows "list_all harmless_line ls \<and>
    wg_interfaces st' = wg_interfaces st + length (filter (header_line ''[interface]'') ls) \<and>
    wg_peers st' = wg_peers st + length (filter (header_line ''[peer]'') ls) \<and>
    (if wg_table_off st' then (if wg_table_off st then 0 else 1) else 0) =
      length (filter table_off_line ls) \<and> (wg_table_off st \<longrightarrow> wg_table_off st') \<and>
    wg_ipv4 st' = (wg_ipv4 st \<or> list_ex (fst \<circ> allowed_defaults) ls) \<and>
    wg_ipv6 st' = (wg_ipv6 st \<or> list_ex (snd \<circ> allowed_defaults) ls)"
  using assms
proof (induction ls arbitrary: i st)
  case (Cons l ls)
  then obtain st1 where l: "wg_line decode i l st = Inr st1" and r: "wg_lines decode (Suc i) ls st1 = Inr st'"
    by (auto split: sum.splits)
  from line_effect [OF l] Cons.IH [OF r] show ?case by (auto split: if_splits)
qed simp

lemma group_readable_bits:
  assumes "and (and (m :: u32) 0x1FF) 0x17 = 0"
  shows "\<not> bit m 4 \<and> \<not> bit m 2 \<and> \<not> bit m 1 \<and> \<not> bit m 0"
proof -
  have "bit (and (and m 0x1FF) 0x17) n \<longleftrightarrow> bit (0 :: u32) n" for n using assms by simp
  then have b: "bit m n \<and> bit (0x1FF :: u32) n \<and> bit (0x17 :: u32) n \<longleftrightarrow> False" for n
    by (simp add: bit_and_iff)
  from b [of 4] b [of 2] b [of 1] b [of 0] show ?thesis by simp
qed

section \<open>Example values\<close>

definition demo_wireguard :: string where
  "demo_wireguard = ''[Interface]'' @ newline # ''PrivateKey = K'' @ newline # ''Address = 10.0.0.2/32''
     @ newline # ''Table = off'' @ newline # ''[Peer]'' @ newline # ''PublicKey = K'' @ newline #
     ''AllowedIPs = 0.0.0.0/0'' @ newline # ''Endpoint = 192.0.2.1:51820'' @ [newline]"

definition demo_lines :: "string list" where
  "demo_lines = [''[Interface]'', ''PrivateKey = K'', ''Address = 10.0.0.2/32'', ''Table = off'',
     ''[Peer]'', ''PublicKey = K'', ''AllowedIPs = 0.0.0.0/0'', ''Endpoint = 192.0.2.1:51820'']"

definition demo_decode :: "string \<Rightarrow> u8 list option" where
  "demo_decode s = (if s = ''K'' then Some (replicate 32 0) else None)"

lemma demo_rust_lines: "rust_lines demo_wireguard = demo_lines"
  by (simp add: demo_wireguard_def demo_lines_def rust_lines_def strip_cr_def newline_def
      carriage_return_def)

lemma demo_contents: "map wg_content demo_lines = demo_lines"
  by (simp add: demo_lines_def wg_content_def str_eval)

lemma map_fixed: "map f xs = xs \<Longrightarrow> x \<in> set xs \<Longrightarrow> f x = x"
  by (induction xs) auto

lemma demo_content: "l \<in> set demo_lines \<Longrightarrow> wg_content l = l"
  by (rule map_fixed [OF demo_contents])

lemma demo_words: "to_ascii_lowercase ''PrivateKey'' = ''privatekey''"
  "to_ascii_lowercase ''Address'' = ''address''" "to_ascii_lowercase ''Table'' = ''table''"
  "to_ascii_lowercase ''PublicKey'' = ''publickey''"
  "to_ascii_lowercase ''AllowedIPs'' = ''allowedips''"
  "to_ascii_lowercase ''Endpoint'' = ''endpoint''" "to_ascii_lowercase ''off'' = ''off''"
  "to_ascii_lowercase ''[Interface]'' = ''[interface]''" "to_ascii_lowercase ''[Peer]'' = ''[peer]''"
  "trim ''PrivateKey '' = ''PrivateKey''" "trim ''Address '' = ''Address''"
  "trim ''Table '' = ''Table''" "trim ''PublicKey '' = ''PublicKey''"
  "trim ''AllowedIPs '' = ''AllowedIPs''" "trim ''Endpoint '' = ''Endpoint''"
  "trim '' K'' = ''K''" "trim '' off'' = ''off''" "trim '' 10.0.0.2/32'' = ''10.0.0.2/32''"
  "trim '' 0.0.0.0/0'' = ''0.0.0.0/0''" "trim '' 192.0.2.1:51820'' = ''192.0.2.1:51820''"
  by (simp_all add: str_eval)

lemma demo_cidrs: "validate_cidr_list ''10.0.0.2/32'' n = Inr (False, False)"
  "validate_cidr_list ''0.0.0.0/0'' n = Inr (True, False)"
  by (simp_all add: validate_cidr_list_def validate_cidr_def net_eval)

lemma demo_endpoint: "validate_wireguard_endpoint ''192.0.2.1:51820'' = Inr ()"
  by (simp add: validate_wireguard_endpoint_def bracketed_def endpoint_host_byte_def
      validate_nonzero_u16_def str_eval)

lemma demo_header:
  assumes "l \<in> set demo_lines" and "hd l = CHR ''[''" "last l = CHR '']''" "l \<noteq> []"
  shows "wg_line d i l st = wg_header l st"
  using assms by (simp add: wg_line_def demo_content)

lemma demo_item:
  assumes "l \<in> set demo_lines" and "hd l \<noteq> CHR ''[''" "l \<noteq> []"
    and "split_once CHR ''='' l = Some (k, v)" "trim v \<noteq> []" "wg_section st = Some sec"
  shows "wg_line d i l st = (case sec of
      InterfaceSection \<Rightarrow> wg_interface_item d (to_ascii_lowercase (trim k)) (trim v) st
    | PeerSection \<Rightarrow> wg_peer_item d (to_ascii_lowercase (trim k)) (trim v) st)"
  using assms by (simp add: wg_line_def demo_content split: wg_section.splits)

lemma demo_config: "validate_wireguard_config demo_decode demo_wireguard =
    Inr \<lparr>ipv4_default = True, ipv6_default = False\<rparr>"
proof -
  have m: "l \<in> set demo_lines \<longleftrightarrow> l = ''[Interface]'' \<or> l = ''PrivateKey = K'' \<or>
      l = ''Address = 10.0.0.2/32'' \<or> l = ''Table = off'' \<or> l = ''[Peer]'' \<or> l = ''PublicKey = K'' \<or>
      l = ''AllowedIPs = 0.0.0.0/0'' \<or> l = ''Endpoint = 192.0.2.1:51820''" for l
    by (simp add: demo_lines_def)
  have "wg_lines demo_decode 0 demo_lines wg_start = Inr \<lparr>wg_section = Some PeerSection,
      wg_interfaces = 1, wg_peers = 1, wg_private_key = True, wg_address = True, wg_table_off = True,
      wg_public_key = True, wg_allowed_ips = True, wg_endpoint = True, wg_ipv4 = True, wg_ipv6 = False\<rparr>"
    unfolding demo_lines_def
    by (simp add: demo_header demo_item m wg_start_def wg_header_def finish_peer_def Let_def
        demo_words wg_interface_item_def wg_peer_item_def validate_wireguard_key_def demo_decode_def
        demo_cidrs demo_endpoint eq_ignore_ascii_case_def)
  then show ?thesis
    by (simp add: validate_wireguard_config_def demo_rust_lines finish_peer_def)
qed

section \<open>Properties\<close>

text \<open>
  C33. An accepted WireGuard configuration runs nothing and configures nothing else: outside
  comments every line is one of the two section headers or sets one of ten plain keys to a
  non-empty value; in particular there is no hook, DNS or SaveConfig directive in it.
\<close>

theorem wireguard_config_has_no_hooks:
  assumes "validate_wireguard_config decode raw = Inr policy"
  shows "list_all harmless_line (rust_lines raw)"
  using assms lines_effect
  by (fastforce simp: validate_wireguard_config_def split: sum.splits if_splits)

theorem wireguard_config_has_no_hooks_witness:
  "list_all harmless_line (rust_lines demo_wireguard)"
  by (rule wireguard_config_has_no_hooks [OF demo_config])

text \<open>
  An accepted WireGuard configuration is a full tunnel kept off the main routing table: one
  interface, at least one peer, exactly one \<open>Table = off\<close>, and the reported default routes are
  those some AllowedIPs line really has, at least one of them.
\<close>

theorem wireguard_config_is_full_tunnel:
  assumes "validate_wireguard_config decode raw = Inr policy"
  shows "length (filter (header_line ''[interface]'') (rust_lines raw)) = 1 \<and>
    0 < length (filter (header_line ''[peer]'') (rust_lines raw)) \<and>
    length (filter table_off_line (rust_lines raw)) = 1 \<and>
    ipv4_default policy = list_ex (fst \<circ> allowed_defaults) (rust_lines raw) \<and>
    ipv6_default policy = list_ex (snd \<circ> allowed_defaults) (rust_lines raw) \<and>
    (ipv4_default policy \<or> ipv6_default policy)"
proof -
  obtain st where st: "wg_lines decode 0 (rust_lines raw) wg_start = Inr st"
    using assms by (auto simp: validate_wireguard_config_def split: sum.splits)
  from lines_effect [OF st] assms st show ?thesis
    by (auto simp: validate_wireguard_config_def wg_start_def split: sum.splits if_splits)
qed

theorem wireguard_config_is_full_tunnel_witness:
  "length (filter table_off_line (rust_lines demo_wireguard)) = 1 \<and>
   list_ex (fst \<circ> allowed_defaults) (rust_lines demo_wireguard)"
  using wireguard_config_is_full_tunnel [OF demo_config] by simp

text \<open>
  A proxy taken from a secret file is the pinned one: when the privileged helper accepts it,
  its endpoint is exactly the address the firewall will allow, and the file was a regular file of
  at most 8 KiB, owned by root, not writable by its group and closed to others.
\<close>

theorem secret_proxy_is_pinned:
  assumes "validate_proxy_url_file parse_url fs path (Some expected) (Some 0) = Inr proxy"
  shows "vp_endpoint proxy = expected \<and>
    (\<exists>meta. sf_metadata fs path = Some meta \<and> fm_file meta \<and> \<not> fm_symlink meta \<and>
      fm_len meta \<in> {1..8192} \<and> fm_uid meta = 0 \<and>
      \<not> bit (fm_mode meta) 4 \<and> \<not> bit (fm_mode meta) 2 \<and> \<not> bit (fm_mode meta) 1 \<and> \<not> bit (fm_mode meta) 0)"
proof -
  obtain raw where raw: "read_secret_file fs path max_proxy_url_bytes GroupReadable (Some 0) = Inr raw"
    and e: "vp_endpoint proxy = expected"
    using assms by (auto simp: validate_proxy_url_file_def split: sum.splits if_splits)
  from raw obtain meta where "sf_metadata fs path = Some meta" "fm_file meta" "\<not> fm_symlink meta"
    "fm_len meta \<noteq> 0" "fm_len meta \<le> max_proxy_url_bytes" "fm_uid meta = 0"
    "and (and (fm_mode meta) 0x1FF) 0x17 = 0"
    by (auto simp: read_secret_file_def split: option.splits if_splits)
  with e group_readable_bits show ?thesis by (auto simp: max_proxy_url_bytes_def)
qed

theorem secret_proxy_is_pinned_witness:
  "\<exists>u. vp_endpoint (\<lparr>vp_url = u, vp_endpoint = socket_addr_new (V4 192 0 2 1) 1080\<rparr>) =
      socket_addr_new (V4 192 0 2 1) 1080 \<and>
    \<not> bit (fm_mode \<lparr>fm_symlink = False, fm_file = True, fm_len = 9, fm_uid = 0, fm_mode = 0x1A0\<rparr>) 4"
proof -
  let ?u = "\<lparr>url_str = ''socks5://192.0.2.1:1080'', url_scheme = ''socks5'',
    url_host_str = Some ''192.0.2.1'', url_port_or_known_default = Some 1080, url_path = [],
    url_query = None, url_fragment = None, url_username = [], url_password = None, url_origin = ''null''\<rparr>"
  let ?fs = "\<lparr>sf_metadata = (\<lambda>_. Some \<lparr>fm_symlink = False, fm_file = True, fm_len = 9, fm_uid = 0,
    fm_mode = 0x1A0\<rparr>), sf_text = (\<lambda>_. Some ''x'')\<rparr>"
  have h: "proxy_host ''192.0.2.1'' = Some (V4 192 0 2 1)"
    by (simp add: proxy_host_def net_eval)
  have t: "trim ''x'' = ''x''" by (simp add: str_eval)
  have v: "validate_proxy_url_file (\<lambda>_. Some ?u) ?fs ''p'' (Some (socket_addr_new (V4 192 0 2 1) 1080)) (Some 0) =
      Inr \<lparr>vp_url = ?u, vp_endpoint = socket_addr_new (V4 192 0 2 1) 1080\<rparr>"
    by (simp add: validate_proxy_url_file_def read_secret_file_def max_proxy_url_bytes_def
        validate_proxy_url_def h t)
  show ?thesis using secret_proxy_is_pinned [OF v] by (intro exI [of _ ?u]) auto
qed

end
