(* ===== verification/Config.thy ===== *)
theory Config
  imports EgressPolicy Machine
begin

text \<open>
  \<open>src/config.rs\<close>: the daemon's configuration, its defaults, and the validation both binaries
  run before anything else. TOML reading is third-party; URL parsing is an argument. Durations in
  the configuration are seconds in a u64.
\<close>

section \<open>The configuration\<close>

record server_config =
  sv_listen :: socket_addr
  sv_public_base_url :: string
  sv_static_dir :: path
  sv_tls_cert :: "path option"
  sv_tls_key :: "path option"
  sv_secure_cookies :: bool
  sv_allow_insecure_http :: bool
  sv_allowed_origins :: "string list"

record session_config =
  sc_runtime_dir :: path
  sc_pairing_file :: path
  sc_auth_ttl_seconds :: u64
  sc_ticket_ttl_seconds :: u64
  sc_auto_burn_seconds :: u64
  sc_initial_url :: string
  sc_initial_profile :: stream_profile

record browser_config =
  bc_enabled :: bool
  bc_command :: path
  bc_socket :: path
  bc_stop_timeout_seconds :: u64
  bc_ipc_timeout_seconds :: u64

record signaling_config =
  sg_enabled :: bool
  sg_upstream_uri :: string
  sg_plugin_directory :: path
  sg_stun_config_file :: "path option"
  sg_turn_config_file :: "path option"

record network_config =
  nw_enabled :: bool
  nw_initial_mode :: egress_mode
  nw_netd_socket :: path
  nw_ipc_timeout_seconds :: u64
  nw_control_uid :: "u32 option"
  nw_browser_uid :: u32
  nw_tor_proxy :: string
  nw_warp_proxy :: string
  nw_wireguard_config :: path
  nw_proxy_url_file :: path
  nw_proxy_endpoint :: string

record blocklist_config =
  bl_fst_path :: path
  bl_custom_hosts_path :: path

record config =
  cf_server :: server_config
  cf_session :: session_config
  cf_browser :: browser_config
  cf_signaling :: signaling_config
  cf_network :: network_config
  cf_blocklist :: blocklist_config

section \<open>Defaults\<close>

definition default_server :: server_config where
  "default_server = \<lparr>sv_listen = socket_addr_new (V4 127 0 0 1) 8088,
     sv_public_base_url = ''http://127.0.0.1:8088'', sv_static_dir = ''web'', sv_tls_cert = None,
     sv_tls_key = None, sv_secure_cookies = False, sv_allow_insecure_http = True,
     sv_allowed_origins = [''http://127.0.0.1:8088'']\<rparr>"

definition default_session :: session_config where
  "default_session = \<lparr>sc_runtime_dir = ''/run/xanhtab-session'',
     sc_pairing_file = ''/run/xanhtab/pairing.txt'', sc_auth_ttl_seconds = 28800,
     sc_ticket_ttl_seconds = 60, sc_auto_burn_seconds = 1800, sc_initial_url = ''xanhtab://home'',
     sc_initial_profile = FullHd30\<rparr>"

definition default_browser :: browser_config where
  "default_browser = \<lparr>bc_enabled = False, bc_command = ''/usr/local/libexec/xanhtab-browser'',
     bc_socket = ''/run/xanhtab/browser.sock'', bc_stop_timeout_seconds = 2,
     bc_ipc_timeout_seconds = 2\<rparr>"

definition default_signaling :: signaling_config where
  "default_signaling = \<lparr>sg_enabled = False, sg_upstream_uri = ''ws://127.0.0.1:8444'',
     sg_plugin_directory = ''/usr/lib/xanhtab/gstreamer-1.0'', sg_stun_config_file = None,
     sg_turn_config_file = None\<rparr>"

definition default_network :: network_config where
  "default_network = \<lparr>nw_enabled = False, nw_initial_mode = Direct,
     nw_netd_socket = ''/run/xanhtab/netd.sock'', nw_ipc_timeout_seconds = 2, nw_control_uid = None,
     nw_browser_uid = 988, nw_tor_proxy = ''socks5://127.0.0.1:9050'',
     nw_warp_proxy = ''socks5://127.0.0.1:40000'',
     nw_wireguard_config = ''/etc/xanhtab/secrets/wg0.conf'',
     nw_proxy_url_file = ''/etc/xanhtab/secrets/proxy-url'', nw_proxy_endpoint = ''127.0.0.1:1080''\<rparr>"

definition default_blocklist :: blocklist_config where
  "default_blocklist = \<lparr>bl_fst_path = ''/var/lib/xanhtab/blocklist.fst'',
     bl_custom_hosts_path = ''/etc/xanhtab/custom_hosts.txt''\<rparr>"

definition default_config :: config where
  "default_config = \<lparr>cf_server = default_server, cf_session = default_session,
     cf_browser = default_browser, cf_signaling = default_signaling, cf_network = default_network,
     cf_blocklist = default_blocklist\<rparr>"

section \<open>Validation\<close>

definition is_loopback_host :: "string \<Rightarrow> bool" where
  "is_loopback_host host =
     (let unbracketed = (case bracketed host of None \<Rightarrow> host | Some h \<Rightarrow> h)
      in unbracketed = ''localhost'' \<or>
         (case parse_ip_addr unbracketed of None \<Rightarrow> False | Some ip \<Rightarrow> is_loopback ip))"

definition is_normalized_absolute :: "path \<Rightarrow> bool" where
  "is_normalized_absolute p \<longleftrightarrow> is_absolute p \<and>
     list_all (\<lambda>c. case c of RootDir \<Rightarrow> True | Normal _ \<Rightarrow> True | _ \<Rightarrow> False) (components p)"

definition path_starts_with :: "path \<Rightarrow> path \<Rightarrow> bool" where
  "path_starts_with p q \<longleftrightarrow> prefix (components q) (components p)"

text \<open>\<open>Path::file_stem\<close>: the last component without its extension.\<close>

definition path_file_stem :: "path \<Rightarrow> string option" where
  "path_file_stem p =
     (case rev (components p) of Normal name # _ \<Rightarrow> Some (file_stem name) | _ \<Rightarrow> None)"

definition absolute_if_some :: "path option \<Rightarrow> bool" where
  "absolute_if_some p = (case p of None \<Rightarrow> True | Some p \<Rightarrow> is_absolute p)"

definition http_scheme :: "url \<Rightarrow> bool" where
  "http_scheme u \<longleftrightarrow> url_scheme u = ''http'' \<or> url_scheme u = ''https''"

definition bare_origin :: "url \<Rightarrow> bool" where
  "bare_origin u \<longleftrightarrow> url_path u = ''/'' \<and> url_query u = None \<and> url_fragment u = None \<and>
     url_username u = [] \<and> url_password u = None"

text \<open>The checks up to the public origin; \<open>require\<close> is one \<open>if ... bail!\<close>.\<close>

definition require :: "bool \<Rightarrow> string \<Rightarrow> string + unit" where
  "require ok_condition message = (if ok_condition then Inr () else Inl message)"

fun all_of :: "(string + unit) list \<Rightarrow> string + unit" where
  "all_of [] = Inr ()"
| "all_of (Inl e # _) = Inl e"
| "all_of (Inr _ # rest) = all_of rest"

definition check_public_url :: "server_config \<Rightarrow> url \<Rightarrow> string + unit" where
  "check_public_url sv u = all_of
     [require (http_scheme u \<and> url_host_str u \<noteq> None) ''public_base_url must be an HTTP(S) origin'',
      require (bare_origin u)
        ''public_base_url must not contain credentials, path, query, or fragment'',
      require (\<not> (prefix ''http://'' (sv_public_base_url sv) \<and> \<not> sv_allow_insecure_http sv))
        ''insecure public_base_url requires allow_insecure_http=true'',
      require ((sv_tls_cert sv \<noteq> None) = (sv_tls_key sv \<noteq> None))
        ''TLS certificate and key must be configured together'',
      require (absolute_if_some (sv_tls_cert sv)) ''server.tls_cert must be an absolute path'',
      require (absolute_if_some (sv_tls_key sv)) ''server.tls_key must be an absolute path'',
      require (sv_allow_insecure_http sv \<or> (sv_tls_cert sv \<noteq> None \<and> sv_tls_key sv \<noteq> None))
        ''TLS certificate and key are required outside development mode'']"

fun normalize_origins :: "(string \<Rightarrow> url option) \<Rightarrow> string list \<Rightarrow> string + string list" where
  "normalize_origins parse_url [] = Inr []"
| "normalize_origins parse_url (origin # rest) =
     (case parse_url origin of
        None \<Rightarrow> Inl (''allowed origin is not an absolute URL: '' @ origin)
      | Some u \<Rightarrow>
          if \<not> http_scheme u \<or> url_host_str u = None \<or> \<not> bare_origin u
          then Inl ''allowed origins must be HTTP(S) origins without credentials or paths''
          else (case normalize_origins parse_url rest of
                  Inl e \<Rightarrow> Inl e | Inr os \<Rightarrow> Inr (url_origin u # os)))"

definition check_mode :: "config \<Rightarrow> url \<Rightarrow> string list \<Rightarrow> string + unit" where
  "check_mode c public_url origins =
     (if sv_allow_insecure_http (cf_server c)
      then require (is_loopback (sa_ip (sv_listen (cf_server c))) \<and>
             (case url_host_str public_url of None \<Rightarrow> False | Some h \<Rightarrow> is_loopback_host h))
             ''development mode must stay on loopback''
      else all_of
        [require (url_scheme public_url = ''https'') ''production public_base_url must use HTTPS'',
         require (sv_secure_cookies (cf_server c)) ''production requires secure cookies'',
         require (bc_enabled (cf_browser c) \<and> nw_enabled (cf_network c) \<and> sg_enabled (cf_signaling c))
           ''production requires browser, network, and signaling backends'',
         require (list_all (prefix ''https://'') origins) ''production allowed_origins must use HTTPS''])"

definition check_lifetimes :: "config \<Rightarrow> string + unit" where
  "check_lifetimes c =
     (let s = cf_session c; b = cf_browser c; n = cf_network c; within = (\<lambda>x::u64. 1 \<le> x \<and> x \<le> 30)
      in all_of
        [require (300 \<le> sc_auth_ttl_seconds s) ''auth_ttl_seconds must be at least 300'',
         require (\<not> (sc_ticket_ttl_seconds s = 0 \<or> 300 < sc_ticket_ttl_seconds s))
           ''ticket_ttl_seconds must be between 1 and 300'',
         require (within (bc_stop_timeout_seconds b) \<and> within (bc_ipc_timeout_seconds b) \<and>
             within (nw_ipc_timeout_seconds n))
           ''browser and network lifecycle timeouts must be between 1 and 30 seconds'',
         require (nw_browser_uid n \<noteq> 0) ''browser_uid must not be root'',
         require (case nw_control_uid n of None \<Rightarrow> True
             | Some uid \<Rightarrow> \<not> (uid = 0 \<or> uid = nw_browser_uid n))
           ''control_uid must be non-root and distinct from browser_uid'',
         require (\<not> (nw_control_uid n = None \<and>
             (\<not> sv_allow_insecure_http (cf_server c) \<or> nw_enabled n)))
           ''network.control_uid is required whenever the real network backend is enabled''])"

definition check_paths :: "config \<Rightarrow> string + unit" where
  "check_paths c =
     (let s = cf_session c; b = cf_browser c; n = cf_network c; sv = cf_server c
      in all_of
        ([require (is_normalized_absolute (sc_runtime_dir s) \<and> components (sc_runtime_dir s) \<noteq> [RootDir]
             \<and> 3 \<le> length (components (sc_runtime_dir s)))
           ''runtime_dir must be a specific normalized absolute directory'',
          require (is_normalized_absolute (sc_pairing_file s) \<and> is_normalized_absolute (bc_socket b)
             \<and> is_normalized_absolute (nw_netd_socket n))
           ''pairing and service socket paths must be normalized absolute paths''] @
         (if sv_allow_insecure_http sv then []
          else
            [require (path_starts_with (sc_runtime_dir s) ''/run'')
               ''production session.runtime_dir must stay under /run'',
             require (path_starts_with (sc_pairing_file s) ''/run'')
               ''production session.pairing_file must stay under /run'',
             require (path_starts_with (bc_socket b) ''/run'')
               ''production browser.socket must stay under /run'',
             require (path_starts_with (nw_netd_socket n) ''/run'')
               ''production network.netd_socket must stay under /run'',
             require (is_normalized_absolute (sv_static_dir sv) \<and> is_normalized_absolute (bc_command b))
               ''production static_dir and browser command must be absolute paths''])))"

definition check_managed_proxy :: "(string \<Rightarrow> url option) \<Rightarrow> string \<Rightarrow> string \<Rightarrow> string + unit" where
  "check_managed_proxy parse_url name proxy =
     (case validate_proxy_url parse_url proxy False of
        Inl _ \<Rightarrow> Inl (''network.'' @ name @ '' is invalid'')
      | Inr p \<Rightarrow> require (is_loopback (sa_ip (vp_endpoint p)))
                   (''network.'' @ name @ '' must use a loopback endpoint''))"

definition check_network :: "(string \<Rightarrow> url option) \<Rightarrow> config \<Rightarrow> string + unit" where
  "check_network parse_url c =
     (let n = cf_network c
      in all_of
        [require (parse_url (sc_initial_url (cf_session c)) \<noteq> None) ''initial_url must be an absolute URL'',
         require (parse_socket_addr (nw_proxy_endpoint n) \<noteq> None)
           ''proxy_endpoint must be an IP address and port'',
         check_managed_proxy parse_url ''tor_proxy'' (nw_tor_proxy n),
         check_managed_proxy parse_url ''warp_proxy'' (nw_warp_proxy n),
         require (is_normalized_absolute (nw_wireguard_config n) \<and>
             is_normalized_absolute (nw_proxy_url_file n))
           ''network secret references must be normalized absolute paths'',
         require (path_file_stem (nw_wireguard_config n) = Some ''wg0'')
           ''network.wireguard_config must target the dedicated wg0 interface''])"

definition check_signaling :: "(string \<Rightarrow> url option) \<Rightarrow> signaling_config \<Rightarrow> string + unit" where
  "check_signaling parse_url g =
     (case parse_url (sg_upstream_uri g) of
        None \<Rightarrow> Inl ''signaling.upstream_uri must be an absolute WebSocket URL''
      | Some u \<Rightarrow>
          if \<not> (url_scheme u = ''ws'' \<or> url_scheme u = ''wss'')
          then Inl ''signaling.upstream_uri must use ws or wss''
          else
            case url_host_str u of
              None \<Rightarrow> Inl ''signaling.upstream_uri must include a host''
            | Some host \<Rightarrow> all_of
                [require (\<not> (sg_enabled g \<and> \<not> is_loopback_host host))
                   ''signaling upstream must be loopback-only'',
                 require (is_absolute (sg_plugin_directory g))
                   ''signaling.plugin_directory must be absolute'',
                 require (absolute_if_some (sg_stun_config_file g))
                   ''signaling.stun_config_file must be an absolute secret file reference'',
                 require (absolute_if_some (sg_turn_config_file g))
                   ''signaling.turn_config_file must be an absolute secret file reference''])"

definition validate_config :: "(string \<Rightarrow> url option) \<Rightarrow> config \<Rightarrow> string + unit" where
  "validate_config parse_url c =
     (case parse_url (sv_public_base_url (cf_server c)) of
        None \<Rightarrow> Inl ''public_base_url must be an absolute URL''
      | Some public_url \<Rightarrow>
          (case check_public_url (cf_server c) public_url of
             Inl e \<Rightarrow> Inl e
           | Inr _ \<Rightarrow>
               (case normalize_origins parse_url (sv_allowed_origins (cf_server c)) of
                  Inl e \<Rightarrow> Inl e
                | Inr origins \<Rightarrow>
                    all_of
                      [require (url_origin public_url \<in> set origins)
                         ''allowed_origins must include the public_base_url origin'',
                       check_mode c public_url origins, check_lifetimes c, check_paths c,
                       check_network parse_url c, check_signaling parse_url (cf_signaling c)])))"

definition auth_ttl :: "config \<Rightarrow> nat" where
  "auth_ttl c = unat (sc_auth_ttl_seconds (cf_session c)) * 1000000000"

definition ticket_ttl :: "config \<Rightarrow> nat" where
  "ticket_ttl c = unat (sc_ticket_ttl_seconds (cf_session c)) * 1000000000"

section \<open>Facts\<close>

lemma all_of_ok [simp]: "all_of rs = Inr () \<longleftrightarrow> list_all (\<lambda>r. r = Inr ()) rs"
proof (induction rs)
  case (Cons r rs)
  then show ?case by (cases r) auto
qed simp

lemma require_ok [simp]: "require b m = Inr () \<longleftrightarrow> b"
  by (simp add: require_def)

lemma validate_config_ok:
  "validate_config parse_url c = Inr () \<longleftrightarrow>
     (\<exists>u os. parse_url (sv_public_base_url (cf_server c)) = Some u \<and>
        check_public_url (cf_server c) u = Inr () \<and>
        normalize_origins parse_url (sv_allowed_origins (cf_server c)) = Inr os \<and>
        url_origin u \<in> set os \<and> check_mode c u os = Inr () \<and> check_lifetimes c = Inr () \<and>
        check_paths c = Inr () \<and> check_network parse_url c = Inr () \<and>
        check_signaling parse_url (cf_signaling c) = Inr ())"
proof (cases "parse_url (sv_public_base_url (cf_server c))")
  case (Some u)
  then show ?thesis
    by (cases "check_public_url (cf_server c) u";
        cases "normalize_origins parse_url (sv_allowed_origins (cf_server c))")
      (simp_all add: validate_config_def)
qed (simp add: validate_config_def)

end
