(* ===== verification/Metrics.thy ===== *)
theory Metrics
  imports Model Blocklist
begin

text \<open>
  \<open>src/metrics.rs\<close>: one sample of the device, of two kernel files, the block list's size and hits,
  and the stream figures. Nothing in the program calls \<open>update_stream\<close>, but it is public. An
  \<open>f32\<close> is its 32 bits; reading one and dividing by 1000 are the functions \<open>fl\<close>.
\<close>

type_synonym f32 = "32 word"

record float_ops =
  fl_parse :: "string \<Rightarrow> f32 option"
  fl_per_thousand :: "f32 \<Rightarrow> f32"

record stream_metrics =
  st_fps :: f32
  st_bitrate_kbps :: u32
  st_packet_loss_percent :: f32
  st_connected :: bool

record component_versions =
  cv_control_plane :: string
  cv_webkit_engine :: string
  cv_gstreamer :: string
  cv_rswebrtc :: string

record device_metrics =
  dm_sampled_at :: nat
  dm_memory_total_mib :: u64
  dm_memory_available_mib :: u64
  dm_temperature_celsius :: "f32 option"
  dm_stream :: stream_metrics
  dm_profile :: stream_profile
  dm_egress :: egress_mode
  dm_blocklist_entries :: nat
  dm_blocked_requests :: u64
  dm_blocklist_enabled :: bool
  dm_versions :: component_versions

record metrics_collector =
  mc_stream :: stream_metrics
  mc_blocklist :: blocklist
  mc_versions :: component_versions

definition stream_default :: stream_metrics where
  "stream_default = \<lparr>st_fps = 0, st_bitrate_kbps = 0, st_packet_loss_percent = 0, st_connected = False\<rparr>"

text \<open>\<open>version\<close> is the crate's, the others what the build environment names, if it does.\<close>

definition versions_default ::
  "string \<Rightarrow> string option \<Rightarrow> string option \<Rightarrow> string option \<Rightarrow> component_versions" where
  "versions_default version webkit gstreamer rswebrtc =
     (let known = (\<lambda>v. case v of None \<Rightarrow> ''runtime-unknown'' | Some t \<Rightarrow> t)
      in \<lparr>cv_control_plane = version, cv_webkit_engine = known webkit, cv_gstreamer = known gstreamer,
          cv_rswebrtc = known rswebrtc\<rparr>)"

definition metrics_new :: "component_versions \<Rightarrow> blocklist \<Rightarrow> metrics_collector" where
  "metrics_new versions bl = \<lparr>mc_stream = stream_default, mc_blocklist = bl, mc_versions = versions\<rparr>"

definition update_stream :: "stream_metrics \<Rightarrow> metrics_collector \<Rightarrow> metrics_collector" where
  "update_stream m mc = mc\<lparr>mc_stream := m\<rparr>"

text \<open>\<open>/proc/meminfo\<close> counts kibibytes; of a repeated line the last counts.\<close>

definition mib_of :: "string list \<Rightarrow> u64" where
  "mib_of rest = (case rest of [] \<Rightarrow> 0
     | v # _ \<Rightarrow> of_nat (case parse_uint (2 ^ 64 - 1) v of None \<Rightarrow> 0 | Some n \<Rightarrow> n) div 1024)"

definition memory_line :: "string \<Rightarrow> u64 \<times> u64 \<Rightarrow> u64 \<times> u64" where
  "memory_line line = (\<lambda>(total, available).
     case split_whitespace line of
       [] \<Rightarrow> (total, available)
     | key # rest \<Rightarrow>
         if key = ''MemTotal:'' then (mib_of rest, available)
         else if key = ''MemAvailable:'' then (total, mib_of rest)
         else (total, available))"

definition read_to_string :: "path_component list \<Rightarrow> ('b machine, string, string) op" where
  "read_to_string p = and_then (open_read p) (read_all p)"

definition read_memory :: "('b machine, 'e, u64 \<times> u64) op" where
  "read_memory =
     and_then (attempt (read_to_string [RootDir, Normal ''proc'', Normal ''meminfo''])) (\<lambda>r.
       ret (case r of Inl _ \<Rightarrow> (0, 0) | Inr raw \<Rightarrow> fold memory_line (rust_lines raw) (0, 0)))"

definition read_temperature :: "float_ops \<Rightarrow> ('b machine, 'e, f32 option) op" where
  "read_temperature fl =
     and_then (attempt (read_to_string
       [RootDir, Normal ''sys'', Normal ''class'', Normal ''thermal'', Normal ''thermal_zone0'', Normal ''temp''])) (\<lambda>r.
       ret (case r of Inl _ \<Rightarrow> None | Inr raw \<Rightarrow> map_option (fl_per_thousand fl) (fl_parse fl (trim raw))))"

definition sample ::
  "float_ops \<Rightarrow> metrics_collector \<Rightarrow> u64 \<Rightarrow> stream_profile \<Rightarrow> egress_mode \<Rightarrow> bool \<Rightarrow> ('b machine, 'e, device_metrics) op" where
  "sample fl mc hits profile egress enabled =
     and_then read_memory (\<lambda>(total, available).
     and_then (gets m_utc) (\<lambda>now.
     and_then (read_temperature fl) (\<lambda>temperature.
       ret \<lparr>dm_sampled_at = now, dm_memory_total_mib = total, dm_memory_available_mib = available,
            dm_temperature_celsius = temperature, dm_stream = mc_stream mc, dm_profile = profile,
            dm_egress = egress, dm_blocklist_entries = blocklist_len (mc_blocklist mc),
            dm_blocked_requests = hits, dm_blocklist_enabled = enabled, dm_versions = mc_versions mc\<rparr>)))"

section \<open>Facts\<close>

lemma wp_read_memory [wp_rules]:
  "wp read_memory Q s = Q (Inr (case fst (read_to_string [RootDir, Normal ''proc'', Normal ''meminfo''] s) of
     Inl _ \<Rightarrow> (0, 0) | Inr raw \<Rightarrow> fold memory_line (rust_lines raw) (0, 0))) s"
  by (auto simp: read_memory_def read_to_string_def wp_def and_then_def attempt_def ret_def open_read_def
      read_all_def faultable_def raise_def split: option.splits fnode.splits)

lemma wp_read_temperature [wp_rules]:
  "wp (read_temperature fl) Q s = Q (Inr (case fst (read_to_string
     [RootDir, Normal ''sys'', Normal ''class'', Normal ''thermal'', Normal ''thermal_zone0'', Normal ''temp''] s) of
     Inl _ \<Rightarrow> None | Inr raw \<Rightarrow> map_option (fl_per_thousand fl) (fl_parse fl (trim raw)))) s"
  by (auto simp: read_temperature_def read_to_string_def wp_def and_then_def attempt_def ret_def open_read_def
      read_all_def faultable_def raise_def split: option.splits fnode.splits)

text \<open>Sampling always answers and changes nothing.\<close>

lemma sample_answers:
  "wp (sample fl mc hits profile egress enabled) (\<lambda>r s'. s' = s \<and> (\<exists>d. r = Inr d \<and>
     dm_profile d = profile \<and> dm_egress d = egress \<and> dm_blocked_requests d = hits)) s"
  by (simp add: sample_def wp_rules split: prod.splits)

end
