(* ===== verification/Api.thy ===== *)
theory Api
  imports AppTrace Config Metrics
begin

text \<open>
  \<open>src/api.rs\<close>, the HTTP side: the routes and one operation per handler, on the daemon's state of
  theory AppLifecycle. axum's extractors, serde and the URL parser are third-party: a request
  arrives with the text of its headers and cookies and with each body already decoded or refused
  (\<open>None\<close>, the \<open>JsonRejection\<close>). A handler is run whole; the calls it makes on the shared state one
  after the other are those of theory AppTrace, whose call sequences also contain every
  interleaving of two handlers.
\<close>

section \<open>Requests and responses\<close>

text \<open>\<open>rh_header\<close> is \<open>headers.get(name)\<close> followed by \<open>to_str().ok()\<close>; \<open>rh_cookie\<close> is \<open>jar.get\<close>.\<close>

record request_head =
  rh_cookie :: "string \<Rightarrow> string option"
  rh_header :: "string \<Rightarrow> string option"

datatype same_site = Strict | Lax | CrossSite

record cookie =
  ck_name :: string
  ck_value :: string
  ck_path :: string
  ck_http_only :: bool
  ck_secure :: bool
  ck_same_site :: same_site

record public_status =
  ps_service :: string
  ps_version :: string
  ps_pairing_available :: bool
  ps_phase :: session_phase

record pair_response =
  pr_client_id :: uuid
  pr_csrf_token :: string
  pr_expires_in_seconds :: nat

datatype api_request =
    GetHealth
  | GetStatus
  | PostPairing "string option"
  | GetSession
  | PostSession "url option option"
  | DeleteSession uuid
  | PostNavigation uuid "navigation_command option"
  | PutEgress uuid "egress_mode option"
  | PutProfile uuid "stream_profile option"
  | PutBlocklist uuid "bool option"
  | PutAutoBurn uuid "u64 option"
  | GetMetrics
  | PostTicket "ticket_purpose option"
  | GetEvents uuid
  | GetSignal uuid

datatype api_response =
    NoContent
  | StatusBody public_status
  | PairBody cookie pair_response
  | SessionBody session_snapshot "history_entry list"
  | SnapshotBody session_snapshot
  | BurnBody cookie session_snapshot
  | MetricsBody device_metrics
  | TicketBody string u64
  | UpgradeTo ticket_purpose uuid

text \<open>A handler answers its error, or its task dies in an \<open>expect\<close>.\<close>

datatype handler_error = Answer app_error | Panicked string

record 'b api =
  ai_state :: "'b app_state"
  ai_config :: config
  ai_metrics :: metrics_collector
  ai_parse_url :: "string \<Rightarrow> url option"
  ai_floats :: float_ops
  ai_version :: string

definition session_cookie :: string where "session_cookie = ''xanhtab_session''"
definition csrf_header :: string where "csrf_header = ''x-xanhtab-csrf''"

section \<open>The guards\<close>

definition parse_json :: "'p option \<Rightarrow> 'p res" where
  "parse_json payload = (case payload of None \<Rightarrow> Inl (InvalidRequest ''malformed JSON body'') | Some p \<Rightarrow> Inr p)"

definition validate_origin :: "'b api \<Rightarrow> request_head \<Rightarrow> unit res" where
  "validate_origin a head =
     (if (case rh_header head ''sec-fetch-site'' of None \<Rightarrow> False
            | Some site \<Rightarrow> site \<notin> {''same-origin'', ''same-site'', ''none''})
      then Inl InvalidCsrf
      else if (case rh_header head ''origin'' of None \<Rightarrow> False
            | Some origin \<Rightarrow> origin \<notin> set (sv_allowed_origins (cf_server (ai_config a))))
      then Inl InvalidCsrf
      else Inr ())"

definition api_authenticate :: "'b api \<Rightarrow> request_head \<Rightarrow> bool \<Rightarrow> ('b app, app_error, auth_context) op" where
  "api_authenticate a head require_csrf =
     and_then (from_result (if require_csrf then validate_origin a head else Inr ())) (\<lambda>_.
       with_auth (authenticate (as_auth (ai_state a)) (rh_cookie head session_cookie)
         (rh_header head csrf_header) require_csrf))"

definition validate_navigation_url :: "url \<Rightarrow> unit res" where
  "validate_navigation_url u =
     (if url_scheme u \<in> {''http'', ''https'', ''xanhtab''} then Inr ()
      else Inl (InvalidRequest ''only http, https, and xanhtab URLs are allowed''))"

definition build_cookie :: "'b api \<Rightarrow> string \<Rightarrow> cookie" where
  "build_cookie a value = \<lparr>ck_name = session_cookie, ck_value = value, ck_path = ''/'', ck_http_only = True,
     ck_secure = sv_secure_cookies (cf_server (ai_config a)), ck_same_site = Strict\<rparr>"

section \<open>The handlers\<close>

definition api_public_status :: "'b api \<Rightarrow> ('b app, app_error, api_response) op" where
  "api_public_status a =
     and_then (with_auth (gets (\<lambda>s. pairing_available (ah_auth s)))) (\<lambda>available.
     and_then (with_session get_snapshot) (\<lambda>n.
       ret (StatusBody \<lparr>ps_service = ''xanhtab'', ps_version = ai_version a,
         ps_pairing_available = available, ps_phase = sn_phase n\<rparr>)))"

definition api_exchange_pairing ::
  "'b api \<Rightarrow> request_head \<Rightarrow> string option \<Rightarrow> ('b app, app_error, api_response) op" where
  "api_exchange_pairing a head payload =
     and_then (from_result (parse_json payload)) (\<lambda>secret.
     and_then (from_result (validate_origin a head)) (\<lambda>_.
       if length secret < 40 \<or> 128 < length secret then raise InvalidPairing
       else
         and_then (with_auth (exchange_pairing (as_auth (ai_state a)) secret)) (\<lambda>exchange.
           ret (PairBody (build_cookie a (er_session_token exchange))
             \<lparr>pr_client_id = er_client_id exchange, pr_csrf_token = er_csrf_token exchange,
              pr_expires_in_seconds = er_expires_in_seconds exchange\<rparr>))))"

definition history :: "('b sess, 'e, history_entry list) op" where
  "history = gets (\<lambda>s. sd_history (ss_data s))"

definition api_get_session :: "'b api \<Rightarrow> request_head \<Rightarrow> ('b app, app_error, api_response) op" where
  "api_get_session a head =
     and_then (api_authenticate a head False) (\<lambda>_.
     and_then (with_session get_snapshot) (\<lambda>n.
     and_then (with_session history) (\<lambda>h. ret (SessionBody n h))))"

definition api_start_session ::
  "'b api \<Rightarrow> request_head \<Rightarrow> url option option \<Rightarrow> ('b app, handler_error, api_response) op" where
  "api_start_session a head payload =
     and_then (map_err Answer (from_result (parse_json payload))) (\<lambda>requested.
     and_then (map_err Answer (api_authenticate a head True)) (\<lambda>context.
     and_then (case requested of
         Some u \<Rightarrow> ret u
       | None \<Rightarrow> (case ai_parse_url a (sc_initial_url (cf_session (ai_config a))) of
             Some u \<Rightarrow> ret u
           | None \<Rightarrow> raise (Panicked ''validated initial URL''))) (\<lambda>u.
     and_then (map_err Answer (from_result (validate_navigation_url u))) (\<lambda>_.
     and_then (map_err Answer (start_session (ai_state a) context u)) (\<lambda>n. ret (SnapshotBody n))))))"

definition api_burn_session ::
  "'b api \<Rightarrow> request_head \<Rightarrow> uuid \<Rightarrow> ('b app, app_error, api_response) op" where
  "api_burn_session a head sid =
     and_then (api_authenticate a head True) (\<lambda>context.
     and_then (burn_controller_session (ai_state a) context sid) (\<lambda>n.
       ret (BurnBody (build_cookie a []) n)))"

definition api_navigate ::
  "'b api \<Rightarrow> request_head \<Rightarrow> uuid \<Rightarrow> navigation_command option \<Rightarrow> ('b app, app_error, api_response) op" where
  "api_navigate a head sid payload =
     and_then (from_result (parse_json payload)) (\<lambda>command.
     and_then (api_authenticate a head True) (\<lambda>context.
     and_then (from_result (case command of Navigate u \<Rightarrow> validate_navigation_url u | _ \<Rightarrow> Inr ())) (\<lambda>_.
     and_then (navigate_session (ai_state a) context sid command) (\<lambda>n. ret (SnapshotBody n)))))"

definition api_set_egress ::
  "'b api \<Rightarrow> request_head \<Rightarrow> uuid \<Rightarrow> egress_mode option \<Rightarrow> ('b app, app_error, api_response) op" where
  "api_set_egress a head sid payload =
     and_then (from_result (parse_json payload)) (\<lambda>mode.
     and_then (api_authenticate a head True) (\<lambda>context.
     and_then (switch_session_egress (ai_state a) context sid mode) (\<lambda>n. ret (SnapshotBody n))))"

definition api_set_stream_profile ::
  "'b api \<Rightarrow> request_head \<Rightarrow> uuid \<Rightarrow> stream_profile option \<Rightarrow> ('b app, app_error, api_response) op" where
  "api_set_stream_profile a head sid payload =
     and_then (from_result (parse_json payload)) (\<lambda>profile.
     and_then (api_authenticate a head True) (\<lambda>context.
     and_then (require_session_id sid) (\<lambda>_.
     and_then (with_session (set_stream_profile (cx_client_id context) profile)) (\<lambda>n.
       ret (SnapshotBody n)))))"

definition api_set_blocklist ::
  "'b api \<Rightarrow> request_head \<Rightarrow> uuid \<Rightarrow> bool option \<Rightarrow> ('b app, app_error, api_response) op" where
  "api_set_blocklist a head sid payload =
     and_then (from_result (parse_json payload)) (\<lambda>enabled.
     and_then (api_authenticate a head True) (\<lambda>context.
     and_then (require_session_id sid) (\<lambda>_.
     and_then (with_session (set_blocklist_enabled (cx_client_id context) enabled)) (\<lambda>n.
       ret (SnapshotBody n)))))"

definition api_set_auto_burn ::
  "'b api \<Rightarrow> request_head \<Rightarrow> uuid \<Rightarrow> u64 option \<Rightarrow> ('b app, app_error, api_response) op" where
  "api_set_auto_burn a head sid payload =
     and_then (from_result (parse_json payload)) (\<lambda>seconds.
     and_then (api_authenticate a head True) (\<lambda>context.
     and_then (require_session_id sid) (\<lambda>_.
     and_then (with_session (set_auto_burn_seconds (cx_client_id context) seconds)) (\<lambda>n.
       ret (SnapshotBody n)))))"

definition api_metrics :: "'b api \<Rightarrow> request_head \<Rightarrow> ('b app, app_error, api_response) op" where
  "api_metrics a head =
     and_then (api_authenticate a head False) (\<lambda>_.
     and_then (with_session get_snapshot) (\<lambda>n.
     and_then (with_session (gets ss_hits)) (\<lambda>hits.
     and_then (with_session (session_op (sample (ai_floats a) (ai_metrics a) hits (sn_stream_profile n)
         (sn_egress n) (sn_blocklist_enabled n)))) (\<lambda>d.
       ret (MetricsBody d)))))"

definition api_issue_ticket ::
  "'b api \<Rightarrow> request_head \<Rightarrow> ticket_purpose option \<Rightarrow> ('b app, app_error, api_response) op" where
  "api_issue_ticket a head payload =
     and_then (from_result (parse_json payload)) (\<lambda>purpose.
     and_then (api_authenticate a head True) (\<lambda>context.
     and_then (with_session (ensure_controller (cx_client_id context))) (\<lambda>_.
     and_then (with_auth (issue_ticket (as_auth (ai_state a)) context purpose)) (\<lambda>token.
       ret (TicketBody token (sc_ticket_ttl_seconds (cf_session (ai_config a))))))))"

definition api_session_events ::
  "'b api \<Rightarrow> request_head \<Rightarrow> uuid \<Rightarrow> ('b app, app_error, api_response) op" where
  "api_session_events a head sid =
     and_then (from_result (validate_origin a head)) (\<lambda>_.
     and_then (require_session_id sid) (\<lambda>_. ret (UpgradeTo Events sid)))"

definition api_session_signal ::
  "'b api \<Rightarrow> request_head \<Rightarrow> uuid \<Rightarrow> ('b app, app_error, api_response) op" where
  "api_session_signal a head sid =
     and_then (from_result (validate_origin a head)) (\<lambda>_.
       if \<not> sg_enabled (cf_signaling (ai_config a))
       then raise (SignalingFailure ''signaling relay is disabled'')
       else and_then (require_session_id sid) (\<lambda>_. ret (UpgradeTo Signaling sid)))"

fun handle :: "'b api \<Rightarrow> request_head \<Rightarrow> api_request \<Rightarrow> ('b app, handler_error, api_response) op" where
  "handle a head GetHealth = ret NoContent"
| "handle a head GetStatus = map_err Answer (api_public_status a)"
| "handle a head (PostPairing p) = map_err Answer (api_exchange_pairing a head p)"
| "handle a head GetSession = map_err Answer (api_get_session a head)"
| "handle a head (PostSession p) = api_start_session a head p"
| "handle a head (DeleteSession sid) = map_err Answer (api_burn_session a head sid)"
| "handle a head (PostNavigation sid p) = map_err Answer (api_navigate a head sid p)"
| "handle a head (PutEgress sid p) = map_err Answer (api_set_egress a head sid p)"
| "handle a head (PutProfile sid p) = map_err Answer (api_set_stream_profile a head sid p)"
| "handle a head (PutBlocklist sid p) = map_err Answer (api_set_blocklist a head sid p)"
| "handle a head (PutAutoBurn sid p) = map_err Answer (api_set_auto_burn a head sid p)"
| "handle a head GetMetrics = map_err Answer (api_metrics a head)"
| "handle a head (PostTicket p) = map_err Answer (api_issue_ticket a head p)"
| "handle a head (GetEvents sid) = map_err Answer (api_session_events a head sid)"
| "handle a head (GetSignal sid) = map_err Answer (api_session_signal a head sid)"

section \<open>The routes\<close>

text \<open>
  What the extractors read of a request: an identity of a path segment, a body of its bytes and
  content type (\<open>'q\<close>), and whether the request asks for a WebSocket.
\<close>

record 'q extractors =
  ex_uuid :: "string \<Rightarrow> uuid option"
  ex_pairing :: "'q \<Rightarrow> string option"
  ex_start :: "'q \<Rightarrow> url option option"
  ex_navigation :: "'q \<Rightarrow> navigation_command option"
  ex_egress :: "'q \<Rightarrow> egress_mode option"
  ex_profile :: "'q \<Rightarrow> stream_profile option"
  ex_blocklist :: "'q \<Rightarrow> bool option"
  ex_auto_burn :: "'q \<Rightarrow> u64 option"
  ex_ticket :: "'q \<Rightarrow> ticket_purpose option"
  ex_upgrade :: "'q \<Rightarrow> bool"

datatype routed = Routed api_request | Rejected | WrongMethod | StaticFile

text \<open>A \<open>get\<close> route also answers \<open>HEAD\<close>.\<close>

definition gets_route :: "string \<Rightarrow> bool" where
  "gets_route verb \<longleftrightarrow> verb = ''GET'' \<or> verb = ''HEAD''"

definition session_route ::
  "'q extractors \<Rightarrow> 'q \<Rightarrow> string \<Rightarrow> string list \<Rightarrow> (uuid \<Rightarrow> api_request) option" where
  "session_route ex q verb rest =
     (let on = (\<lambda>method r. if verb = method then Some r else None)
      in if rest = [] then on ''DELETE'' DeleteSession
         else if rest = [''navigation''] then on ''POST'' (\<lambda>sid. PostNavigation sid (ex_navigation ex q))
         else if rest = [''egress''] then on ''PUT'' (\<lambda>sid. PutEgress sid (ex_egress ex q))
         else if rest = [''stream-profile''] then on ''PUT'' (\<lambda>sid. PutProfile sid (ex_profile ex q))
         else if rest = [''blocklist''] then on ''PUT'' (\<lambda>sid. PutBlocklist sid (ex_blocklist ex q))
         else on ''PUT'' (\<lambda>sid. PutAutoBurn sid (ex_auto_burn ex q)))"

definition session_paths :: "string list list" where
  "session_paths = [[], [''navigation''], [''egress''], [''stream-profile''], [''blocklist''], [''auto-burn'']]"

text \<open>
  The path is given by its segments. The method is looked at before any extractor runs, the
  path's identity before the body or the upgrade.
\<close>

definition router :: "'q extractors \<Rightarrow> string \<Rightarrow> string list \<Rightarrow> 'q \<Rightarrow> routed" where
  "router ex verb path q =
     (let on = (\<lambda>allowed r. if allowed then Routed r else WrongMethod)
      in if path = [''healthz''] then on (gets_route verb) GetHealth
         else if path = [''api'', ''v1'', ''status''] then on (gets_route verb) GetStatus
         else if path = [''api'', ''v1'', ''pair'', ''exchange''] then on (verb = ''POST'') (PostPairing (ex_pairing ex q))
         else if path = [''api'', ''v1'', ''session'']
         then if verb = ''POST'' then Routed (PostSession (ex_start ex q)) else on (gets_route verb) GetSession
         else if path = [''api'', ''v1'', ''metrics''] then on (gets_route verb) GetMetrics
         else if path = [''api'', ''v1'', ''webrtc'', ''ticket''] then on (verb = ''POST'') (PostTicket (ex_ticket ex q))
         else
           case path of
             root # v # kind # seg # rest \<Rightarrow>
               if v = ''v1'' \<and> kind = ''session'' \<and> seg \<noteq> [] \<and> root = ''api'' \<and> rest \<in> set session_paths
               then (case session_route ex q verb rest of
                       None \<Rightarrow> WrongMethod
                     | Some request \<Rightarrow> (case ex_uuid ex seg of None \<Rightarrow> Rejected | Some sid \<Rightarrow> Routed (request sid)))
               else if v = ''v1'' \<and> kind = ''session'' \<and> seg \<noteq> [] \<and> root = ''ws'' \<and>
                 (rest = [''events''] \<or> rest = [''signal''])
               then if \<not> gets_route verb then WrongMethod
                    else (case ex_uuid ex seg of
                            None \<Rightarrow> Rejected
                          | Some sid \<Rightarrow>
                              if \<not> ex_upgrade ex q then Rejected
                              else Routed (if rest = [''events''] then GetEvents sid else GetSignal sid))
               else StaticFile
           | _ \<Rightarrow> StaticFile)"

end
