(* ===== verification/ApiSockets.thy ===== *)
theory ApiSockets
  imports Api
begin

text \<open>
  \<open>src/api.rs\<close>, the WebSocket side: the first frame that must carry a ticket, the event stream and
  the signaling relay. The socket libraries are third-party: what a receiver yields is an input,
  and a sink takes messages until its peer is gone. What \<open>tokio::select!\<close> picks, one branch after the
  other, is a list of inputs; a list that ends leaves the loop waiting.
\<close>

section \<open>Messages and sinks\<close>

datatype message =
    TextMsg string
  | BinaryMsg "u8 list"
  | PingMsg "u8 list"
  | PongMsg "u8 list"
  | CloseMsg "string option"

datatype upstream_message =
    UpText string
  | UpBinary "u8 list"
  | UpPing "u8 list"
  | UpPong "u8 list"
  | UpClose "string option"
  | UpFrame "u8 list"

text \<open>What \<open>next().await\<close> yields, where \<open>None\<close> is the end of the stream.\<close>

datatype 'm received = Received 'm | ReceiveFailed

record 'm sink =
  sk_sent :: "'m list"
  sk_room :: nat
  sk_closed :: bool

definition send_to :: "'m \<Rightarrow> 'm sink \<Rightarrow> bool \<times> 'm sink" where
  "send_to m k = (if sk_room k = 0 then (False, k)
     else (True, k\<lparr>sk_sent := sk_sent k @ [m], sk_room := sk_room k - 1\<rparr>))"

definition close_sink :: "'m sink \<Rightarrow> 'm sink" where
  "close_sink k = k\<lparr>sk_closed := True\<rparr>"

record 'b ws_host =
  wh_app :: "'b app"
  wh_sink :: "message sink"

definition on_app :: "('b app, 'e, 'a) op \<Rightarrow> ('b ws_host, 'e, 'a) op" where
  "on_app m s = (case m (wh_app s) of (r, t) \<Rightarrow> (r, s\<lparr>wh_app := t\<rparr>))"

definition send :: "message \<Rightarrow> ('b ws_host, unit, unit) op" where
  "send m s = (case send_to m (wh_sink s) of (sent, k) \<Rightarrow> (if sent then Inr () else Inl (), s\<lparr>wh_sink := k\<rparr>))"

section \<open>Authorisation\<close>

definition websocket_auth_timeout :: nat where "websocket_auth_timeout = 5 * second"

record ws_auth_frame =
  wf_kind :: string
  wf_ticket :: string

text \<open>The third-party readers and writers of JSON.\<close>

record json_codec =
  js_frame :: "string \<Rightarrow> ws_auth_frame option"
  js_snapshot :: "session_snapshot \<Rightarrow> string option"
  js_event :: "server_event \<Rightarrow> string option"

definition authenticated_text :: string where
  "authenticated_text = ''{\"type\":\"authenticated\"}''"

definition error_code_text :: "string \<Rightarrow> string" where
  "error_code_text code = ''{\"error\":{\"code\":\"'' @ code @ ''\"}}''"

text \<open>
  \<open>timeout(WEBSOCKET_AUTH_TIMEOUT, socket.recv())\<close> where the receiver takes \<open>delay\<close> to yield \<open>r\<close>. The rest
  of the function runs when the frame is there, so on the state of that moment.
\<close>

definition await_frame :: "nat \<Rightarrow> message received option \<Rightarrow> message res" where
  "await_frame delay r =
     (if websocket_auth_timeout < delay then Inl Unauthorized
      else (case r of Some (Received m) \<Rightarrow> Inr m | _ \<Rightarrow> Inl Unauthorized))"

definition ticket_of_frame :: "json_codec \<Rightarrow> message \<Rightarrow> string res" where
  "ticket_of_frame js m =
     (case m of
        TextMsg payload \<Rightarrow>
          if 256 < length payload then Inl Unauthorized
          else (case js_frame js payload of
                  None \<Rightarrow> Inl Unauthorized
                | Some frame \<Rightarrow>
                    if wf_kind frame \<noteq> ''authenticate'' \<or> length (wf_ticket frame) < 40 \<or> 128 < length (wf_ticket frame)
                    then Inl Unauthorized
                    else Inr (wf_ticket frame))
      | _ \<Rightarrow> Inl Unauthorized)"

definition authorize_websocket ::
  "'b api \<Rightarrow> json_codec \<Rightarrow> nat \<Rightarrow> message received option \<Rightarrow> uuid \<Rightarrow> ticket_purpose \<Rightarrow> ('b ws_host, app_error, unit) op" where
  "authorize_websocket a js delay r sid purpose =
     and_then (from_result (await_frame delay r)) (\<lambda>m.
     and_then (from_result (ticket_of_frame js m)) (\<lambda>ticket.
     and_then (on_app (with_auth (consume_ticket (as_auth (ai_state a)) ticket purpose))) (\<lambda>context.
     and_then (on_app (require_session_id sid)) (\<lambda>_.
     and_then (on_app (with_session (ensure_controller (cx_client_id context)))) (\<lambda>_.
       map_err (\<lambda>_. Unauthorized) (send (TextMsg authenticated_text)))))))"

definition reject_code :: "app_error \<Rightarrow> string" where
  "reject_code error = (case error of SignalingFailure _ \<Rightarrow> ''SIGNALING_UNAVAILABLE'' | _ \<Rightarrow> ''AUTH_REQUIRED'')"

definition reject_websocket :: "app_error \<Rightarrow> ('b ws_host, 'e, unit) op" where
  "reject_websocket error =
     and_then (attempt (send (TextMsg (error_code_text (reject_code error))))) (\<lambda>_.
     and_then (attempt (send (CloseMsg None))) (\<lambda>_. ret ()))"

section \<open>The event stream\<close>

datatype bus_item = Event server_event | Lagged | BusClosed

datatype event_input = FromClient "message received option" | FromBus bus_item

definition client_gone :: "message received option \<Rightarrow> bool" where
  "client_gone r = (case r of None \<Rightarrow> True | Some ReceiveFailed \<Rightarrow> True
     | Some (Received m) \<Rightarrow> (case m of CloseMsg _ \<Rightarrow> True | _ \<Rightarrow> False))"

definition closes_stream :: "server_event \<Rightarrow> bool" where
  "closes_stream e \<longleftrightarrow> sn_phase (ev_session e) \<in> {Burning, Idle}"

text \<open>The loop: whether it has ended, and what it sent.\<close>

fun event_loop :: "json_codec \<Rightarrow> event_input list \<Rightarrow> message sink \<Rightarrow> bool \<times> message sink" where
  "event_loop js [] k = (False, k)"
| "event_loop js (FromClient r # rest) k = (if client_gone r then (True, k) else event_loop js rest k)"
| "event_loop js (FromBus Lagged # rest) k = event_loop js rest k"
| "event_loop js (FromBus BusClosed # rest) k = (True, k)"
| "event_loop js (FromBus (Event e) # rest) k =
     (case js_event js e of
        None \<Rightarrow> event_loop js rest k
      | Some payload \<Rightarrow>
          (case send_to (TextMsg payload) k of
             (False, k') \<Rightarrow> (True, k')
           | (True, k') \<Rightarrow> if closes_stream e then (True, k') else event_loop js rest k'))"

definition run_events :: "json_codec \<Rightarrow> event_input list \<Rightarrow> ('b ws_host, 'e, bool) op" where
  "run_events js inputs s = (case event_loop js inputs (wh_sink s) of (ended, k) \<Rightarrow> (Inr ended, s\<lparr>wh_sink := k\<rparr>))"

text \<open>
  The receiver subscribes before the snapshot is read; \<open>inputs\<close> is what the loop picks from then on.
  The value is whether the task has ended.
\<close>

definition event_socket ::
  "'b api \<Rightarrow> json_codec \<Rightarrow> nat \<Rightarrow> message received option \<Rightarrow> uuid \<Rightarrow> event_input list \<Rightarrow> ('b ws_host, 'e, bool) op" where
  "event_socket a js delay r sid inputs =
     and_then (attempt (authorize_websocket a js delay r sid Events)) (\<lambda>authorized.
       case authorized of
         Inl error \<Rightarrow> and_then (reject_websocket error) (\<lambda>_. ret True)
       | Inr _ \<Rightarrow>
           and_then (on_app (with_session get_snapshot)) (\<lambda>n.
             case js_snapshot js n of
               None \<Rightarrow> run_events js inputs
             | Some initial \<Rightarrow>
                 and_then (attempt (send (TextMsg initial))) (\<lambda>sent.
                   case sent of Inl _ \<Rightarrow> ret True | Inr _ \<Rightarrow> run_events js inputs)))"

section \<open>The signaling relay\<close>

fun to_upstream_message :: "message \<Rightarrow> upstream_message option" where
  "to_upstream_message (TextMsg v) = Some (UpText v)"
| "to_upstream_message (BinaryMsg v) = Some (UpBinary v)"
| "to_upstream_message (PingMsg v) = Some (UpPing v)"
| "to_upstream_message (PongMsg v) = Some (UpPong v)"
| "to_upstream_message (CloseMsg _) = Some (UpClose None)"

fun to_client_message :: "upstream_message \<Rightarrow> message option" where
  "to_client_message (UpText v) = Some (TextMsg v)"
| "to_client_message (UpBinary v) = Some (BinaryMsg v)"
| "to_client_message (UpPing v) = Some (PingMsg v)"
| "to_client_message (UpPong v) = Some (PongMsg v)"
| "to_client_message (UpClose _) = Some (CloseMsg None)"
| "to_client_message (UpFrame _) = None"

datatype relay_input = ClientSide "message received option" | UpstreamSide "upstream_message received option"

record relay_sinks =
  rl_upstream :: "upstream_message sink"
  rl_client :: "message sink"

text \<open>After the loop both sinks are closed.\<close>

definition finish_relay :: "relay_sinks \<Rightarrow> bool \<times> relay_sinks" where
  "finish_relay k = (True, \<lparr>rl_upstream = close_sink (rl_upstream k), rl_client = close_sink (rl_client k)\<rparr>)"

fun relay_signaling :: "relay_input list \<Rightarrow> relay_sinks \<Rightarrow> bool \<times> relay_sinks" where
  "relay_signaling [] k = (False, k)"
| "relay_signaling (ClientSide r # rest) k =
     (case r of
        Some (Received m) \<Rightarrow>
          (case to_upstream_message m of
             None \<Rightarrow> relay_signaling rest k
           | Some u \<Rightarrow>
               (case send_to u (rl_upstream k) of (sent, up) \<Rightarrow>
                 let k' = k\<lparr>rl_upstream := up\<rparr>; closing = (case u of UpClose _ \<Rightarrow> True | _ \<Rightarrow> False)
                 in if \<not> sent \<or> closing then finish_relay k' else relay_signaling rest k'))
      | _ \<Rightarrow> finish_relay k)"
| "relay_signaling (UpstreamSide r # rest) k =
     (case r of
        Some (Received u) \<Rightarrow>
          (case to_client_message u of
             None \<Rightarrow> relay_signaling rest k
           | Some m \<Rightarrow>
               (case send_to m (rl_client k) of (sent, cl) \<Rightarrow>
                 let k' = k\<lparr>rl_client := cl\<rparr>; closing = (case m of CloseMsg _ \<Rightarrow> True | _ \<Rightarrow> False)
                 in if \<not> sent \<or> closing then finish_relay k' else relay_signaling rest k'))
      | _ \<Rightarrow> finish_relay k)"

text \<open>\<open>connect\<close> is what \<open>connect_async\<close> gives for the configured address: an error or the new peer's sink.\<close>

definition signal_socket ::
  "'b api \<Rightarrow> json_codec \<Rightarrow> nat \<Rightarrow> message received option \<Rightarrow> uuid \<Rightarrow> (string \<Rightarrow> string + upstream_message sink) \<Rightarrow>
     relay_input list \<Rightarrow> ('b ws_host, 'e, bool \<times> upstream_message list) op" where
  "signal_socket a js delay r sid connect inputs =
     and_then (attempt (authorize_websocket a js delay r sid Signaling)) (\<lambda>authorized.
       case authorized of
         Inl error \<Rightarrow> and_then (reject_websocket error) (\<lambda>_. ret (True, []))
       | Inr _ \<Rightarrow>
           (case connect (sg_upstream_uri (cf_signaling (ai_config a))) of
              Inl error \<Rightarrow> and_then (reject_websocket (SignalingFailure error)) (\<lambda>_. ret (True, []))
            | Inr upstream \<Rightarrow>
                (\<lambda>s. case relay_signaling inputs \<lparr>rl_upstream = upstream, rl_client = wh_sink s\<rparr> of (ended, k) \<Rightarrow>
                  (Inr (ended, sk_sent (rl_upstream k)), s\<lparr>wh_sink := rl_client k\<rparr>))))"

section \<open>Static files\<close>

text \<open>\<open>manifest_dir\<close> is the build's \<open>CARGO_MANIFEST_DIR\<close>; \<open>join\<close> puts one separator between.\<close>

definition resolve_static_dir :: "path \<Rightarrow> path \<Rightarrow> path" where
  "resolve_static_dir manifest_dir configured =
     (if is_absolute configured then configured
      else if manifest_dir = [] \<or> last manifest_dir = CHR ''/'' then manifest_dir @ configured
      else manifest_dir @ ''/'' @ configured)"

end
