(* ===== verification/BlocklistFiles.thy ===== *)
theory BlocklistFiles
  imports Blocklist
begin

text \<open>
  The functions of \<open>src/blocklist.rs\<close> that read and publish files, and the compiler binary
  \<open>src/bin/xanhtab-blocklist.rs\<close> over them. The \<open>fst\<close> crate is a parameter: what its builder
  writes for a list of keys, how a set opens from a file's bytes, and the union stream of two sets.
  A builder writes its file as it goes; the model writes it once, at its \<open>finish\<close>.
\<close>

section \<open>Opening a list\<close>

record fst_lib =
  fl_bytes :: "string list \<Rightarrow> string option"
  fl_open :: "string \<Rightarrow> fst_set option"
  fl_union :: "fst_set \<Rightarrow> fst_set \<Rightarrow> string list"

definition with_context :: "string \<Rightarrow> ('b machine, string, 'a) op \<Rightarrow> ('b machine, string, 'a) op" where
  "with_context message m = map_err (\<lambda>_. message) m"

definition map_file :: "path_component list \<Rightarrow> fnode \<Rightarrow> ('b machine, string, string) op" where
  "map_file p n = faultable (MapFile p)
     (case n of FileNode body \<Rightarrow> ret body | _ \<Rightarrow> raise ''cannot be mapped'')"

definition open_fst :: "fst_lib \<Rightarrow> path_component list \<Rightarrow> ('b machine, string, fst_set) op" where
  "open_fst lib p =
     and_then (with_context (''failed to inspect blocklist '' @ path_text p) (symlink_metadata p)) (\<lambda>n.
       case n of
         FileNode _ \<Rightarrow>
           and_then (with_context (''failed to open blocklist '' @ path_text p) (open_read p)) (\<lambda>file.
           and_then (map_file p file) (\<lambda>bytes.
             case fl_open lib bytes of None \<Rightarrow> raise ''invalid FST blocklist'' | Some keys \<Rightarrow> ret keys))
       | _ \<Rightarrow> raise ''blocklist must be a regular non-symlink file'')"

text \<open>\<open>Blocklist::open\<close>: a list that is not there is the empty one.\<close>

definition blocklist_open :: "fst_lib \<Rightarrow> path_component list \<Rightarrow> ('b machine, string, blocklist) op" where
  "blocklist_open lib p =
     and_then (with_context (''failed to inspect blocklist '' @ path_text p) (inspect p)) (\<lambda>n.
       case n of
         None \<Rightarrow> ret None
       | Some (FileNode _) \<Rightarrow> and_then (open_fst lib p) (\<lambda>keys. ret (Some keys))
       | Some _ \<Rightarrow> raise ''blocklist must be a regular non-symlink file'')"

definition validate_fst_file :: "fst_lib \<Rightarrow> path_component list \<Rightarrow> ('b machine, string, nat) op" where
  "validate_fst_file lib p = and_then (open_fst lib p) (\<lambda>keys. ret (fst_len keys))"

definition validate_hosts_file :: "path_component list \<Rightarrow> ('b machine, string, nat) op" where
  "validate_hosts_file p =
     and_then (with_context (''failed to read '' @ path_text p) (open_read p)) (\<lambda>file.
     and_then (read_all p file) (\<lambda>text. from_result (validate_lines (path_text p) 0 (rust_lines text) [])))"

section \<open>Compiling and merging\<close>

fun gather_inputs :: "path_component list list \<Rightarrow> string list \<Rightarrow> ('b machine, string, string list) op" where
  "gather_inputs [] acc = ret acc"
| "gather_inputs (p # rest) acc =
     and_then (path_exists p) (\<lambda>there.
       if \<not> there then gather_inputs rest acc
       else
         and_then (with_context (''failed to read '' @ path_text p) (open_read p)) (\<lambda>file.
         and_then (read_all p file) (\<lambda>text.
           gather_inputs rest (compile_lines (rust_lines text) acc))))"

text \<open>A builder on a file created anew, given keys and finished.\<close>

definition build_fst :: "fst_lib \<Rightarrow> string list \<Rightarrow> path_component list \<Rightarrow> ('b machine, string, unit) op" where
  "build_fst lib keys p =
     and_then (open_truncate p) (\<lambda>_.
       case fl_bytes lib keys of
         None \<Rightarrow> raise ''keys out of order''
       | Some bytes \<Rightarrow> write_all p bytes)"

definition compile_hosts ::
  "fst_lib \<Rightarrow> path_component list list \<Rightarrow> path_component list \<Rightarrow> ('b machine, string, nat) op" where
  "compile_hosts lib inputs output =
     and_then (gather_inputs inputs []) (\<lambda>domains.
     and_then (make_parent output) (\<lambda>_.
     let temporary = with_extension ''fst.tmp'' output in
     and_then (build_fst lib domains temporary) (\<lambda>_.
     and_then (rename temporary output) (\<lambda>_. ret (length domains)))))"

definition merge_into ::
  "fst_lib \<Rightarrow> fst_set \<Rightarrow> path_component list list \<Rightarrow> path_component list \<Rightarrow> path_component list \<Rightarrow>
     path_component list \<Rightarrow> ('b machine, string, nat) op" where
  "merge_into lib base inputs custom_fst merged_fst output =
     and_then (compile_hosts lib inputs custom_fst) (\<lambda>_.
     and_then (open_fst lib custom_fst) (\<lambda>custom.
     let union = fl_union lib base custom in
     and_then (build_fst lib union merged_fst) (\<lambda>_.
     and_then (rename merged_fst output) (\<lambda>_. ret (length union)))))"

definition merge_hosts_with_base ::
  "fst_lib \<Rightarrow> path_component list \<Rightarrow> path_component list list \<Rightarrow> path_component list \<Rightarrow>
     ('b machine, string, nat) op" where
  "merge_hosts_with_base lib base_fst inputs output =
     and_then (with_context (''invalid base blocklist '' @ path_text base_fst) (open_fst lib base_fst)) (\<lambda>base.
     and_then (make_parent output) (\<lambda>_.
     let custom_fst = with_extension ''custom.fst.tmp'' output;
         merged_fst = with_extension ''fst.tmp'' output in
     and_then (attempt (merge_into lib base inputs custom_fst merged_fst output)) (\<lambda>result.
     and_then (attempt (remove_file custom_fst)) (\<lambda>_ :: string + unit.
     and_then (case result of
         Inl _ \<Rightarrow> and_then (attempt (remove_file merged_fst)) (\<lambda>_ :: string + unit. ret ())
       | Inr _ \<Rightarrow> ret ()) (\<lambda>_.
       from_result result)))))"

section \<open>The compiler binary\<close>

text \<open>The arguments of \<open>main\<close> after clap has checked which go together.\<close>

record compiler_args =
  ca_inputs :: "path_component list list"
  ca_base_fst :: "path_component list option"
  ca_output :: "path_component list option"
  ca_check_fst :: "path_component list option"
  ca_require_non_empty :: bool
  ca_expected_count :: "nat option"

text \<open>The text \<open>main\<close> prints, or its error. \<open>--output\<close> is required unless \<open>--check-fst\<close> is given.\<close>

definition compiler_main :: "fst_lib \<Rightarrow> compiler_args \<Rightarrow> ('b machine, string, string) op" where
  "compiler_main lib args =
     (case ca_check_fst args of
        Some p \<Rightarrow>
          and_then (validate_fst_file lib p) (\<lambda>count.
            if ca_require_non_empty args \<and> count = 0
            then raise ''blocklist FST must contain at least one hostname''
            else if (case ca_expected_count args of None \<Rightarrow> False | Some expected \<Rightarrow> expected \<noteq> count)
            then raise (''blocklist FST contains '' @ show_nat count @ '' hostnames but metadata declares '' @
              show_nat (the (ca_expected_count args)))
            else ret (''validated '' @ show_nat count @ '' unique hostnames in '' @ path_text p))
      | None \<Rightarrow>
          case ca_output args of
            None \<Rightarrow> raise ''clap requires --output''
          | Some output \<Rightarrow>
              and_then (case ca_base_fst args of
                  Some base \<Rightarrow> merge_hosts_with_base lib base (ca_inputs args) output
                | None \<Rightarrow> compile_hosts lib (ca_inputs args) output) (\<lambda>count.
                ret (''compiled '' @ show_nat count @ '' unique hostnames into '' @ path_text output)))"

section \<open>Facts\<close>

text \<open>
  What the \<open>fst\<close> crate documents: a builder given keys in strictly increasing order writes a file
  that opens as the set of exactly these keys, streamed in that order; the union stream of two
  sets gives the keys of either, in order and once each.
\<close>

definition fst_lib_ok :: "fst_lib \<Rightarrow> bool" where
  "fst_lib_ok lib \<longleftrightarrow>
     (\<forall>ks. btree_ok ks \<longrightarrow> (\<exists>bytes S. fl_bytes lib ks = Some bytes \<and> fl_open lib bytes = Some S \<and> fst_holds S ks)) \<and>
     (\<forall>A B. btree_ok (fl_union lib A B) \<and> set (fl_union lib A B) = set (fst_keys A) \<union> set (fst_keys B))"

definition input_text :: "'b machine \<Rightarrow> path_component list \<Rightarrow> string option" where
  "input_text h p = (if m_fault h (Metadata p) = None
     then (case fs_target (m_fs h) p of Some (FileNode body) \<Rightarrow> Some body | _ \<Rightarrow> None) else None)"

lemma wp_with_context [wp_rules]:
  "wp (with_context msg m) Q s = wp m (\<lambda>r. Q (case r of Inl _ \<Rightarrow> Inl msg | Inr a \<Rightarrow> Inr a)) s"
  by (auto simp: with_context_def wp_def map_err_def split: prod.splits sum.splits)

lemma gather_inputs_spec:
  "wp (gather_inputs ps acc) (\<lambda>r s'. s' = s \<and>
     (\<forall>ks. r = Inr ks \<longrightarrow> ks = compile_inputs (map (input_text s) ps) acc)) s"
proof (induction ps arbitrary: acc)
  case (Cons p ps)
  show ?case
    by (auto simp: wp_rules input_text_def split: option.splits fnode.splits
        intro: wp_mono [OF Cons.IH [unfolded input_text_def]])
qed (simp add: wp_rules)

lemma wp_map_file [wp_rules]:
  "wp (map_file p n) Q s = (case m_fault s (MapFile p) of Some e \<Rightarrow> Q (Inl e) s
     | None \<Rightarrow> (case n of FileNode body \<Rightarrow> Q (Inr body) s | _ \<Rightarrow> Q (Inl ''cannot be mapped'') s))"
  by (simp add: map_file_def wp_rules split: option.splits fnode.splits)

lemma open_fst_spec:
  "wp (open_fst lib p) (\<lambda>r s'. s' = s \<and> (\<forall>S. r = Inr S \<longrightarrow>
     (\<exists>bytes. fs_node (m_fs s) p = Some (FileNode bytes) \<and> fl_open lib bytes = Some S))) s"
  by (auto simp: open_fst_def wp_rules fs_target_def split: option.splits fnode.splits)

text \<open>Building a set file and moving it over a target.\<close>

definition holds_list :: "fst_lib \<Rightarrow> 'b machine \<Rightarrow> path_component list \<Rightarrow> string list \<Rightarrow> bool" where
  "holds_list lib h p ks \<longleftrightarrow>
     (\<exists>bytes S. fs_node (m_fs h) p = Some (FileNode bytes) \<and> fl_open lib bytes = Some S \<and> fst_holds S ks)"

definition others_kept :: "path_component list set \<Rightarrow> 'b machine \<Rightarrow> 'b machine \<Rightarrow> bool" where
  "others_kept ps h h' \<longleftrightarrow> (\<exists>f. h' = h\<lparr>m_fs := f\<rparr>) \<and>
     (\<forall>q. q \<notin> ps \<longrightarrow> fs_node (m_fs h') q = fs_node (m_fs h) q \<or>
        (fs_node (m_fs h) q = None \<and> fs_node (m_fs h') q = Some DirNode \<and> (\<exists>p \<in> ps. strict_prefix q p)))"

lemma others_kept_trans:
  assumes "others_kept ps h h'" and "others_kept qs h' h''"
  shows "others_kept (ps \<union> qs) h h''"
proof -
  have "\<exists>f. h'' = h\<lparr>m_fs := f\<rparr>" using assms by (auto simp: others_kept_def)
  moreover have "fs_node (m_fs h'') q = fs_node (m_fs h) q \<or> (fs_node (m_fs h) q = None \<and>
      fs_node (m_fs h'') q = Some DirNode \<and> (\<exists>p \<in> ps \<union> qs. strict_prefix q p))" if "q \<notin> ps \<union> qs" for q
    using assms(1) [unfolded others_kept_def, THEN conjunct2, rule_format, of q]
      assms(2) [unfolded others_kept_def, THEN conjunct2, rule_format, of q] that by auto
  ultimately show ?thesis by (simp add: others_kept_def)
qed

lemma publish_fst_spec:
  assumes "fst_lib_ok lib" and "btree_ok ks" and "t \<noteq> p"
  shows "wp (and_then (build_fst lib ks t) (\<lambda>_. and_then (rename t p) (\<lambda>_. ret n))) (\<lambda>r h'.
     others_kept {p, t} h h' \<and> (r = Inr n \<longrightarrow> holds_list lib h' p ks \<and> fs_node (m_fs h') t = None) \<and>
     (r \<noteq> Inr n \<longrightarrow> r \<in> range Inl \<and> fs_node (m_fs h') p = fs_node (m_fs h) p)) h"
proof -
  obtain bytes S where b: "fl_bytes lib ks = Some bytes" "fl_open lib bytes = Some S" "fst_holds S ks"
    using assms(1,2) unfolding fst_lib_ok_def by blast
  show ?thesis
    unfolding build_fst_def
    using b assms(3)
    by (auto simp: wp_rules others_kept_def holds_list_def split: option.splits intro: exI [of _ "m_fs h"])
qed

text \<open>The temporary files of a compilation and of a merge are distinct siblings of the output.\<close>

lemmas fst_tmp = with_extension_tmp [where e = "''fst''", simplified]
  with_extension_tmp [where e = "''custom.fst''", simplified]

lemma compile_hosts_spec:
  assumes "fst_lib_ok lib" and "named_file p" and "ks = compile_inputs (map (input_text h) ins) []"
  shows "wp (compile_hosts lib ins p) (\<lambda>r h'. others_kept {p, with_extension ''fst.tmp'' p} h h' \<and>
    (r \<in> range Inr \<longrightarrow> r = Inr (length ks) \<and> holds_list lib h' p ks) \<and>
    (r \<notin> range Inr \<longrightarrow> fs_node (m_fs h') p = fs_node (m_fs h) p)) h"
proof -
  let ?t = "with_extension ''fst.tmp'' p"
  let ?Q = "\<lambda>r h'. others_kept {p, ?t} h h' \<and>
    (r \<in> range Inr \<longrightarrow> r = Inr (length ks) \<and> holds_list lib h' p ks) \<and>
    (r \<notin> range Inr \<longrightarrow> fs_node (m_fs h') p = fs_node (m_fs h) p)"
  from assms(2) obtain d name where p: "p = d @ [Normal name]" by (auto simp: named_file_def)
  have t: "?t \<noteq> p" by (rule fst_tmp(2) [OF p])
  have ok: "btree_ok ks" unfolding assms(3) by (rule compile_inputs_props(2)) simp
  have self: "others_kept (insert p ps) h (h\<lparr>m_fs := f\<rparr>) \<and> fs_node f p = fs_node (m_fs h) p"
    if "dirs_added p (m_fs h) f" for f ps
    using that by (auto simp: others_kept_def dirs_added_def)
  have publish: "wp (and_then (build_fst lib ks ?t) (\<lambda>_. and_then (rename ?t p) (\<lambda>_. ret (length ks)))) ?Q (h\<lparr>m_fs := f\<rparr>)"
    if "dirs_added p (m_fs h) f" for f
    by (rule wp_mono [OF publish_fst_spec [OF assms(1) ok t]])
      (use self [OF that, of "{?t}"] others_kept_trans [of "{p, ?t}" h _ "{p, ?t}"] in auto)
  have parent: "wp (and_then (make_parent p) (\<lambda>_. and_then (build_fst lib ks ?t)
      (\<lambda>_. and_then (rename ?t p) (\<lambda>_. ret (length ks))))) ?Q h"
    unfolding wp_and_then [of "make_parent p"]
    by (rule wp_make_parent) (auto split: sum.splits simp: self intro: publish)
  show ?thesis
    unfolding compile_hosts_def Let_def wp_and_then [of "gather_inputs ins []"]
    by (rule wp_mono [OF gather_inputs_spec])
      (use parent self [of "m_fs h" "{?t}"] in \<open>auto simp: assms(3) dirs_added_def split: sum.splits\<close>)
qed

lemma dirs_added_text: "dirs_added p (m_fs h) f \<Longrightarrow> input_text (h\<lparr>m_fs := f\<rparr>) q = input_text h q"
proof -
  assume d: "dirs_added p (m_fs h) f"
  have "fs_target f q = fs_target (m_fs h) q \<or> fs_target (m_fs h) q = None \<and> fs_target f q = Some DirNode"
  proof (cases "fs_node (m_fs h) q")
    case None
    with d [unfolded dirs_added_def, rule_format, of q] show ?thesis by (auto simp: fs_target_def)
  next
      case (Some n)
    have f: "fs_node f q = Some n" using d [unfolded dirs_added_def, rule_format, of q] Some by auto
    show ?thesis
    proof (cases n)
      case (LinkNode t)
      with Some f d [unfolded dirs_added_def, rule_format, of t] show ?thesis
        by (auto simp: fs_target_def)
    qed (use Some f in \<open>simp_all add: fs_target_def\<close>)
  qed
  then show ?thesis by (auto simp: input_text_def)
qed

lemma merge_into_spec:
  assumes "fst_lib_ok lib" and "named_file p" and "ks = compile_inputs (map (input_text h) ins) []"
    and "c = with_extension ''custom.fst.tmp'' p" and "t = with_extension ''fst.tmp'' p"
  shows "wp (merge_into lib base ins c t p) (\<lambda>r h'.
    others_kept {p, c, t, with_extension ''fst.tmp'' c} h h' \<and>
    (r \<in> range Inr \<longrightarrow> (\<exists>us. r = Inr (length us) \<and> btree_ok us \<and> set us = set (fst_keys base) \<union> set ks \<and>
       holds_list lib h' p us)) \<and>
    (r \<notin> range Inr \<longrightarrow> fs_node (m_fs h') p = fs_node (m_fs h) p)) h"
proof -
  let ?u = "with_extension ''fst.tmp'' c"
  let ?Q = "\<lambda>r h'. others_kept {p, c, t, ?u} h h' \<and>
    (r \<in> range Inr \<longrightarrow> (\<exists>us. r = Inr (length us) \<and> btree_ok us \<and> set us = set (fst_keys base) \<union> set ks \<and>
       holds_list lib h' p us)) \<and>
    (r \<notin> range Inr \<longrightarrow> fs_node (m_fs h') p = fs_node (m_fs h) p)"
  from assms(2) obtain d name where p: "p = d @ [Normal name]" by (auto simp: named_file_def)
  have c: "c = d @ [Normal (file_stem name @ ''.custom.fst.tmp'')]" and cp: "c \<noteq> p"
    using fst_tmp(4,5) [OF p] by (simp_all add: assms(4))
  have t: "t = d @ [Normal (file_stem name @ ''.fst.tmp'')]" and tp: "t \<noteq> p"
    using fst_tmp(1,2) [OF p] by (simp_all add: assms(5))
  have u: "?u = d @ [Normal (file_stem name @ ''.custom.fst.fst.tmp'')]"
    using fst_tmp(1) [OF c] file_stem_tmp [of "file_stem name @ ''.custom.fst''"] by simp
  have "name \<noteq> file_stem name @ ''.custom.fst.fst.tmp''"
    using file_stem_tmp [of "file_stem name @ ''.custom.fst.fst''"] by (metis append.assoc append_is_Nil_conv
        append_self_conv append_Cons append_Nil list.distinct(1))
  then have up: "?u \<noteq> p" using u p by simp
  have ok: "btree_ok ks" unfolding assms(3) by (rule compile_inputs_props(2)) simp
  have cn: "named_file c" using c by (auto simp: named_file_def)
  have sib: "\<not> strict_prefix p x" if "x \<in> {p, c, t, ?u}" for x
    using that c t u p by (auto simp: strict_prefix_def prefix_def)
  have p_kept: "fs_node (m_fs h') p = fs_node (m_fs h) p" if "others_kept {c, ?u} h h'" for h'
    using that [unfolded others_kept_def, THEN conjunct2, rule_format, of p] cp up sib by auto
  have after: "wp (and_then (open_fst lib c) (\<lambda>custom. and_then (build_fst lib (fl_union lib base custom) t)
      (\<lambda>_. and_then (rename t p) (\<lambda>_. ret (length (fl_union lib base custom)))))) ?Q h1"
    if kept: "others_kept {c, ?u} h h1" and held: "holds_list lib h1 c ks" for h1
    unfolding wp_and_then [of "open_fst lib c"]
  proof (rule wp_mono [OF open_fst_spec])
    fix r h2 assume r: "h2 = h1 \<and> (\<forall>S. r = Inr S \<longrightarrow>
      (\<exists>bytes. fs_node (m_fs h1) c = Some (FileNode bytes) \<and> fl_open lib bytes = Some S))"
    have more: "others_kept {p, c, t, ?u} h h'" if "others_kept {p, t} h1 h'" for h'
      using others_kept_trans [OF kept that] by (simp add: insert_commute)
    have none: "others_kept {p, c, t, ?u} h h1" using more [of h1] by (simp add: others_kept_def exI [of _ "m_fs h1"])
    show "(case r of Inl e \<Rightarrow> ?Q (Inl e) | Inr custom \<Rightarrow> wp (and_then (build_fst lib (fl_union lib base custom) t)
      (\<lambda>_. and_then (rename t p) (\<lambda>_. ret (length (fl_union lib base custom))))) ?Q) h2"
    proof (cases r)
      case (Inl e)
      with r none p_kept [OF kept] show ?thesis by auto
    next
      case (Inr S)
      let ?us = "fl_union lib base S"
      have S: "fst_keys S = ks" using r Inr held by (auto simp: holds_list_def fst_holds_def)
      have us: "btree_ok ?us" "set ?us = set (fst_keys base) \<union> set ks"
        using assms(1) S by (auto simp: fst_lib_ok_def)
      show ?thesis
        unfolding Inr sum.case
        by (rule wp_mono [OF publish_fst_spec [OF assms(1) us(1) tp]])
          (use r us more p_kept [OF kept] in \<open>fastforce simp: insert_commute\<close>)
    qed
  qed
  show ?thesis
    unfolding merge_into_def Let_def wp_and_then [of "compile_hosts lib ins c"]
  proof (rule wp_mono [OF compile_hosts_spec [OF assms(1) cn assms(3)]])
    fix r h1 assume r: "others_kept {c, ?u} h h1 \<and> (r \<in> range Inr \<longrightarrow> r = Inr (length ks) \<and> holds_list lib h1 c ks) \<and>
      (r \<notin> range Inr \<longrightarrow> fs_node (m_fs h1) c = fs_node (m_fs h) c)"
    have "others_kept {p, t} h1 h1" by (auto simp: others_kept_def intro: exI [of _ "m_fs h1"])
    with others_kept_trans [of "{c, ?u}" h h1 "{p, t}" h1] r have kept: "others_kept {p, c, t, ?u} h h1"
      by (simp add: insert_commute)
    show "(case r of Inl e \<Rightarrow> ?Q (Inl e) | Inr _ \<Rightarrow> wp (and_then (open_fst lib c) (\<lambda>custom.
      and_then (build_fst lib (fl_union lib base custom) t)
      (\<lambda>_. and_then (rename t p) (\<lambda>_. ret (length (fl_union lib base custom)))))) ?Q) h1"
    proof (cases r)
      case (Inl e)
      then show ?thesis using kept p_kept r by auto
    next
      case (Inr n)
      then show ?thesis using after r by auto
    qed
  qed
qed

lemma opens_held:
  assumes "holds_list lib h p ks" and "m_fs h2 = m_fs h" and "m_fault h2 = (\<lambda>_. None)"
  obtains S where "blocklist_open lib p h2 = (Inr (Some S), h2)" and "fst_holds S ks"
proof -
  obtain bytes S where b: "fs_node (m_fs h2) p = Some (FileNode bytes)" "fl_open lib bytes = Some S" "fst_holds S ks"
    using assms(1,2) by (auto simp: holds_list_def)
  have "wp (blocklist_open lib p) (\<lambda>r s. r = Inr (Some S) \<and> s = h2) h2"
    using b(1,2) assms(3) by (simp add: blocklist_open_def open_fst_def wp_rules fs_target_def)
  then have "blocklist_open lib p h2 = (Inr (Some S), h2)" by (auto simp: wp_def split: prod.splits)
  with that b(3) show thesis by blast
qed

text \<open>How a merge ends: the output, and the intermediate custom list.\<close>

definition merged :: "fst_lib \<Rightarrow> path_component list \<Rightarrow> path_component list list \<Rightarrow> path_component list \<Rightarrow>
    path_component list \<Rightarrow> 'b machine \<Rightarrow> string + nat \<Rightarrow> 'b machine \<Rightarrow> bool" where
  "merged lib base inputs output c h r h' \<longleftrightarrow>
     (r \<in> range Inr \<longrightarrow> (\<exists>bytes S us. fs_node (m_fs h) base = Some (FileNode bytes) \<and> fl_open lib bytes = Some S \<and>
        r = Inr (length us) \<and> btree_ok us \<and>
        set us = set (fst_keys S) \<union> input_hosts (map (input_text h) inputs) \<and> holds_list lib h' output us)) \<and>
     (r \<notin> range Inr \<longrightarrow> fs_node (m_fs h') output = fs_node (m_fs h) output) \<and>
     (m_fault h (RemoveFile c) = None \<longrightarrow> r \<in> range Inr \<or> fs_node (m_fs h) c = None \<longrightarrow>
        (\<nexists>body. fs_node (m_fs h') c = Some (FileNode body)))"

lemma tidied_merge:
  assumes "named_file output" and "c = with_extension ''custom.fst.tmp'' output"
    and "t = with_extension ''fst.tmp'' output" and "h1 = h\<lparr>m_fs := f\<rparr>"
    and "r \<in> range Inr \<longrightarrow> (\<exists>bytes S us. fs_node (m_fs h) base = Some (FileNode bytes) \<and> fl_open lib bytes = Some S \<and>
        r = Inr (length us) \<and> btree_ok us \<and>
        set us = set (fst_keys S) \<union> input_hosts (map (input_text h) inputs) \<and> holds_list lib h1 output us)"
    and "r \<notin> range Inr \<longrightarrow> fs_node f output = fs_node (m_fs h) output"
  shows "wp (and_then (attempt (remove_file c)) (\<lambda>_ :: string + unit.
     and_then (case r of
         Inl _ \<Rightarrow> and_then (attempt (remove_file t)) (\<lambda>_ :: string + unit. ret ())
       | Inr _ \<Rightarrow> ret ()) (\<lambda>_. from_result r))) (merged lib base inputs output c h) h1"
proof -
  from assms(1) obtain d name where p: "output = d @ [Normal name]" by (auto simp: named_file_def)
  have ne: "c \<noteq> output" "t \<noteq> output" using fst_tmp(2,5) [OF p] assms(2,3) by simp_all
  show ?thesis
    using assms(4-6) ne
    by (cases r) (auto simp: wp_rules merged_def holds_list_def split: option.splits fnode.splits)
qed

lemma merge_spec:
  assumes "fst_lib_ok lib" and "named_file output" and "c = with_extension ''custom.fst.tmp'' output"
  shows "wp (merge_hosts_with_base lib base inputs output) (merged lib base inputs output c h) h"
proof -
  let ?t = "with_extension ''fst.tmp'' output"
  have body: "wp (and_then (attempt (merge_into lib S inputs c ?t output)) (\<lambda>result.
     and_then (attempt (remove_file c)) (\<lambda>_ :: string + unit.
     and_then (case result of
         Inl _ \<Rightarrow> and_then (attempt (remove_file ?t)) (\<lambda>_ :: string + unit. ret ())
       | Inr _ \<Rightarrow> ret ()) (\<lambda>_. from_result result)))) (merged lib base inputs output c h) (h\<lparr>m_fs := f\<rparr>)"
    if d: "dirs_added output (m_fs h) f" and base: "fs_node (m_fs h) base = Some (FileNode bytes)" "fl_open lib bytes = Some S"
    for f bytes S
  proof -
    have texts: "map (input_text (h\<lparr>m_fs := f\<rparr>)) inputs = map (input_text h) inputs"
      using dirs_added_text [OF d] by simp
    have out: "fs_node f output = fs_node (m_fs h) output"
      using d [unfolded dirs_added_def, rule_format, of "output"] by auto
    show ?thesis
      unfolding wp_and_then [of "attempt (merge_into _ _ _ _ _ _)"] wp_attempt sum.case
    proof (rule wp_mono [OF merge_into_spec [OF assms(1,2) refl assms(3) refl]])
      fix r :: "string + nat" and h1 :: "'a machine"
      assume m: "others_kept {output, c, ?t, with_extension ''fst.tmp'' c} (h\<lparr>m_fs := f\<rparr>) h1 \<and>
        (r \<in> range Inr \<longrightarrow> (\<exists>us. r = Inr (length us) \<and> btree_ok us \<and>
          set us = set (fst_keys S) \<union> set (compile_inputs (map (input_text (h\<lparr>m_fs := f\<rparr>)) inputs) []) \<and>
          holds_list lib h1 output us)) \<and>
        (r \<notin> range Inr \<longrightarrow> fs_node (m_fs h1) output = fs_node (m_fs (h\<lparr>m_fs := f\<rparr>)) output)"
      from m obtain f1 where f1: "h1 = h\<lparr>m_fs := f1\<rparr>" by (auto simp: others_kept_def)
      show "wp (and_then (attempt (remove_file c)) (\<lambda>_ :: string + unit.
         and_then (case r of
             Inl _ \<Rightarrow> and_then (attempt (remove_file ?t)) (\<lambda>_ :: string + unit. ret ())
           | Inr _ \<Rightarrow> ret ()) (\<lambda>_. from_result r))) (merged lib base inputs output c h) h1"
        by (rule tidied_merge [OF assms(2,3) refl f1])
          (use m f1 base out texts in \<open>auto simp: compile_inputs_props\<close>)
    qed
  qed
  have early: "merged lib base inputs output c h (Inl e) (h\<lparr>m_fs := f\<rparr>)" if "dirs_added output (m_fs h) f" for e f
    using that [unfolded dirs_added_def, rule_format, of "output"]
      that [unfolded dirs_added_def, rule_format, of c] by (auto simp: merged_def)
  have opened: "wp (and_then (make_parent output) (\<lambda>_.
     let custom_fst = with_extension ''custom.fst.tmp'' output; merged_fst = ?t in
     and_then (attempt (merge_into lib S inputs custom_fst merged_fst output)) (\<lambda>result.
     and_then (attempt (remove_file custom_fst)) (\<lambda>_ :: string + unit.
     and_then (case result of
         Inl _ \<Rightarrow> and_then (attempt (remove_file merged_fst)) (\<lambda>_ :: string + unit. ret ())
       | Inr _ \<Rightarrow> ret ()) (\<lambda>_. from_result result))))) (merged lib base inputs output c h) h"
    if "fs_node (m_fs h) base = Some (FileNode bytes)" "fl_open lib bytes = Some S" for bytes S
    unfolding Let_def assms(3) [symmetric] wp_and_then [of "make_parent output"]
    by (rule wp_make_parent) (use body [OF _ that] early in \<open>auto split: sum.splits\<close>)
  show ?thesis
    unfolding merge_hosts_with_base_def wp_and_then [of "with_context _ _"] wp_with_context
    by (rule wp_mono [OF open_fst_spec])
      (use opened early [of "m_fs h"] in \<open>auto simp: dirs_added_def split: sum.splits\<close>)
qed

section \<open>Properties\<close>

text \<open>What a list file of certain names is worth to the daemon that opens it.\<close>

definition blocks_exactly :: "fst_lib \<Rightarrow> path_component list \<Rightarrow> string set \<Rightarrow> 'b machine \<Rightarrow> bool" where
  "blocks_exactly lib p names h \<longleftrightarrow>
     (\<forall>h2 :: 'b machine. m_fs h2 = m_fs h \<longrightarrow> m_fault h2 = (\<lambda>_. None) \<longrightarrow>
        (\<exists>S. blocklist_open lib p h2 = (Inr (Some S), h2) \<and> blocklist_len (Some S) = card names \<and>
           (\<forall>host hits. fst (contains (Some S) host hits) \<longleftrightarrow>
              (\<exists>d \<in> names. normalize_host host = d \<or> suffix (CHR ''.'' # d) (normalize_host host)))))"

lemma held_blocks:
  assumes "holds_list lib h p ks" and "btree_ok ks" and "set ks = names"
  shows "blocks_exactly lib p names h"
  unfolding blocks_exactly_def
proof (intro allI impI)
  fix h2 :: "'a machine" assume "m_fs h2 = m_fs h" and "m_fault h2 = (\<lambda>_. None)"
  then obtain S where S: "blocklist_open lib p h2 = (Inr (Some S), h2)" "fst_holds S ks"
    by (rule opens_held [OF assms(1)])
  with assms(2,3) show "\<exists>S. blocklist_open lib p h2 = (Inr (Some S), h2) \<and> blocklist_len (Some S) = card names \<and>
           (\<forall>host hits. fst (contains (Some S) host hits) \<longleftrightarrow>
              (\<exists>d \<in> names. normalize_host host = d \<or> suffix (CHR ''.'' # d) (normalize_host host)))"
    by (intro exI [of _ S]) (auto simp: fst_holds_def blocklist_len_def length_btree contains_eq covers_def)
qed

text \<open>
  C35. Compiling hosts files publishes atomically: whatever call fails, the output file is
  untouched; and when the compilation reports n names, n is the number of distinct accepted names
  of the inputs that could be read, and the daemon that opens the output blocks a host exactly when
  the host or a parent domain of it is one of them.
\<close>

theorem compiled_list_blocks_exactly_its_inputs:
  assumes "fst_lib_ok lib" and "named_file output" and "compile_hosts lib inputs output h = (r, h')"
    and "names = input_hosts (map (input_text h) inputs)"
  shows "case r of
      Inl e \<Rightarrow> fs_node (m_fs h') output = fs_node (m_fs h) output
    | Inr n \<Rightarrow> n = card names \<and> blocks_exactly lib output names h'"
proof -
  let ?ks = "compile_inputs (map (input_text h) inputs) []"
  have ks: "btree_ok ?ks" "set ?ks = names"
    by (simp_all add: compile_inputs_props assms(4))
  have "(r \<in> range Inr \<longrightarrow> r = Inr (length ?ks) \<and> holds_list lib h' output ?ks) \<and>
    (r \<notin> range Inr \<longrightarrow> fs_node (m_fs h') output = fs_node (m_fs h) output)"
    using wpD [OF compile_hosts_spec [OF assms(1,2) refl] assms(3)] by blast
  with ks held_blocks [OF _ ks] show ?thesis by (auto simp: length_btree split: sum.splits)
qed

text \<open>
  Merging a base list with local hosts files publishes the union: on success the output
  holds exactly the base's names and the accepted local ones and their number is reported; on any
  failure the output is untouched; and either way no intermediate list file is left beside it,
  unless removing it fails.
\<close>

theorem merge_is_union_with_base:
  assumes "fst_lib_ok lib" and "named_file output"
    and "merge_hosts_with_base lib base inputs output h = (r, h')"
    and "c = with_extension ''custom.fst.tmp'' output"
  shows "(case r of
      Inl e \<Rightarrow> fs_node (m_fs h') output = fs_node (m_fs h) output
    | Inr n \<Rightarrow> (\<exists>bytes S names. fs_node (m_fs h) base = Some (FileNode bytes) \<and> fl_open lib bytes = Some S \<and>
        names = set (fst_keys S) \<union> input_hosts (map (input_text h) inputs) \<and> n = card names \<and>
        blocks_exactly lib output names h')) \<and>
    (m_fault h (RemoveFile c) = None \<longrightarrow> r \<in> range Inr \<or> fs_node (m_fs h) c = None \<longrightarrow>
      (\<nexists>body. fs_node (m_fs h') c = Some (FileNode body)))"
  using wpD [OF merge_spec [OF assms(1,2) assms(4)] assms(3)]
  by (auto simp: merged_def length_btree intro: held_blocks split: sum.splits)

section \<open>Witnesses\<close>

text \<open>A set file of a plain kind: every character of a key behind a mark, every key ended by a dot.\<close>

definition mark_key :: "string \<Rightarrow> string" where
  "mark_key k = concat (map (\<lambda>c. [CHR ''x'', c]) k) @ ''.''"

fun unmark :: "string \<Rightarrow> string \<Rightarrow> string list" where
  "unmark acc (m # rest) =
     (if m = CHR ''.'' then rev acc # unmark [] rest
      else case rest of [] \<Rightarrow> [] | c # rest' \<Rightarrow> unmark (c # acc) rest')"
| "unmark acc [] = []"

definition plain_fst :: fst_lib where
  "plain_fst = \<lparr>fl_bytes = (\<lambda>ks. Some (concat (map mark_key ks))),
     fl_open = (\<lambda>bytes. Some (list_fst (unmark [] bytes))),
     fl_union = (\<lambda>A B. insert_all (fst_keys A) (insert_all (fst_keys B) []))\<rparr>"

lemma unmark_key: "unmark acc (mark_key k @ rest) = (rev acc @ k) # unmark [] rest"
  by (induction k arbitrary: acc) (simp_all add: mark_key_def)

lemma unmark_marked: "unmark [] (concat (map mark_key ks)) = ks"
  by (induction ks) (simp_all add: unmark_key)

lemma plain_fst_ok: "fst_lib_ok plain_fst"
  by (auto simp: fst_lib_ok_def plain_fst_def unmark_marked list_fst_holds)

definition list_disk :: "unit machine" where
  "list_disk = \<lparr>m_instant = 0, m_utc = 0, m_random = (\<lambda>n. None), m_draws = 0, m_uuid = (\<lambda>n. 0), m_uuids = 0,
     m_fs = [([Normal ''h''], FileNode ''0.0.0.0 Ads.example.com # x''),
       ([Normal ''b''], FileNode (mark_key ''a.b''))],
     m_fault = (\<lambda>_. None), m_helpers = ()\<rparr>"

lemma list_disk_simps: "m_fault list_disk = (\<lambda>_. None)"
  "fs_node (m_fs list_disk) [Normal ''h''] = Some (FileNode ''0.0.0.0 Ads.example.com # x'')"
  "fs_node (m_fs list_disk) [Normal ''b''] = Some (FileNode (mark_key ''a.b''))"
  "fs_node (m_fs list_disk) [Normal ''o''] = None" "fs_node (m_fs list_disk) [Normal ''o.fst.tmp''] = None"
  "fs_node (m_fs list_disk) [Normal ''o.custom.fst.tmp''] = None"
  "fs_node (m_fs list_disk) [Normal ''o.custom.fst.fst.tmp''] = None"
  by (simp_all add: list_disk_def fs_node_def)

lemma list_disk_lines: "rust_lines ''0.0.0.0 Ads.example.com # x'' = [''0.0.0.0 Ads.example.com # x'']"
  by (simp add: rust_lines_def newline_def)

lemma list_disk_names: "with_extension ''fst.tmp'' [Normal ''o''] = [Normal ''o.fst.tmp'']"
  "with_extension ''custom.fst.tmp'' [Normal ''o''] = [Normal ''o.custom.fst.tmp'']"
  "with_extension ''fst.tmp'' [Normal ''o.custom.fst.tmp''] = [Normal ''o.custom.fst.fst.tmp'']"
  by (simp_all add: with_extension_def file_stem_def rsplit_once_def)

lemma make_parent_single: "make_parent [Normal x] h = (if m_fault h (CreateDirAll []) = None then (Inr (), h)
    else (Inl (the (m_fault h (CreateDirAll []))), h))"
  by (auto simp: make_parent_def parent_of_def create_dir_all_def faultable_def prefixes_def split: option.splits)

lemma list_disk_compiles: "\<exists>h'. compile_hosts plain_fst [[Normal ''h'']] [Normal ''o''] list_disk = (Inr 1, h')"
proof -
  have "wp (compile_hosts plain_fst [[Normal ''h'']] [Normal ''o'']) (\<lambda>r h'. r = Inr 1) list_disk"
    by (simp add: compile_hosts_def build_fst_def wp_rules list_disk_simps fs_target_def list_disk_lines
        example_line list_disk_names plain_fst_def Let_def wp_def [of "make_parent _"] make_parent_single
        btree_insert_def insort_insert_key_def)
  then show ?thesis by (auto simp: wp_def split: prod.splits)
qed

theorem compiled_list_blocks_exactly_its_inputs_witness:
  "\<exists>names h'. compile_hosts plain_fst [[Normal ''h'']] [Normal ''o''] list_disk = (Inr (card names), h') \<and>
     blocks_exactly plain_fst [Normal ''o''] names h'"
proof -
  obtain h' where c: "compile_hosts plain_fst [[Normal ''h'']] [Normal ''o''] list_disk = (Inr 1, h')"
    using list_disk_compiles by blast
  have "named_file [Normal ''o'']" by (auto simp: named_file_def)
  from compiled_list_blocks_exactly_its_inputs [OF plain_fst_ok this c refl] c show ?thesis by auto
qed

lemma list_disk_merges:
  "\<exists>n h'. merge_hosts_with_base plain_fst [Normal ''b''] [[Normal ''h'']] [Normal ''o''] list_disk = (Inr n, h')"
proof -
  have "wp (merge_hosts_with_base plain_fst [Normal ''b''] [[Normal ''h'']] [Normal ''o'']) (\<lambda>r h'. r \<in> range Inr) list_disk"
    by (simp add: merge_hosts_with_base_def merge_into_def open_fst_def compile_hosts_def build_fst_def wp_rules
        list_disk_simps fs_target_def list_disk_lines example_line list_disk_names plain_fst_def Let_def
        wp_def [of "make_parent _"] make_parent_single)
  then show ?thesis by (auto simp: wp_def split: prod.splits)
qed

theorem merge_is_union_with_base_witness:
  "\<exists>n h'. merge_hosts_with_base plain_fst [Normal ''b''] [[Normal ''h'']] [Normal ''o''] list_disk = (Inr n, h') \<and>
     (\<exists>names. ''a.b'' \<in> names \<and> n = card names \<and> blocks_exactly plain_fst [Normal ''o''] names h')"
proof -
  obtain n h' where c: "merge_hosts_with_base plain_fst [Normal ''b''] [[Normal ''h'']] [Normal ''o''] list_disk = (Inr n, h')"
    using list_disk_merges by blast
  have f: "named_file [Normal ''o'']" by (auto simp: named_file_def)
  from merge_is_union_with_base [OF plain_fst_ok f c refl]
  obtain bytes S names where "fs_node (m_fs list_disk) [Normal ''b''] = Some (FileNode bytes)"
    "fl_open plain_fst bytes = Some S" and n: "n = card names" "blocks_exactly plain_fst [Normal ''o''] names h'"
    and names: "names = set (fst_keys S) \<union> input_hosts (map (input_text list_disk) [[Normal ''h'']])"
    by auto
  then have "''a.b'' \<in> names" by (auto simp: list_disk_simps plain_fst_def list_fst_def mark_key_def)
  with c n show ?thesis by blast
qed

end
