(* ===== verification/RemoteConfig.thy ===== *)
theory RemoteConfig
  imports Config BlocklistFiles
begin

text \<open>
  \<open>src/remote_config.rs\<close>: the checks on a Git-backed directory of public configuration, and the
  merge of its session defaults into the daemon's configuration. JSON decoding is third-party: a
  reader gives the document of a text, or none. Strings are their UTF-8 bytes.
\<close>

section \<open>Documents\<close>

record remote_session =
  rs_initial_url :: "url option"
  rs_initial_profile :: "stream_profile option"
  rs_auto_burn_seconds :: "u64 option"

record remote_document =
  rd_schema_version :: u8
  rd_session :: remote_session

record bookmark =
  bm_id :: uuid
  bm_title :: string
  bm_url :: url

record bookmarks_document =
  bd_schema_version :: u8
  bd_bookmarks :: "bookmark list"

datatype redistribution = Reviewed | ExternalFetchOnly

record blocklist_source =
  bs_name :: string
  bs_file :: string
  bs_url :: url
  bs_revision :: string
  bs_sha256 :: string
  bs_license :: string
  bs_license_url :: url
  bs_redistribution :: redistribution

record metadata_document =
  md_schema_version :: u8
  md_generated_at :: nat
  md_entry_count :: u64
  md_sources :: "blocklist_source list"

record json_readers =
  jr_config :: "string \<Rightarrow> remote_document option"
  jr_bookmarks :: "string \<Rightarrow> bookmarks_document option"
  jr_metadata :: "string \<Rightarrow> metadata_document option"

definition max_bookmarks :: nat where "max_bookmarks = 500"
definition max_blocklist_sources :: nat where "max_blocklist_sources = 32"

section \<open>Checks on documents\<close>

definition credential_free :: "url \<Rightarrow> bool" where
  "credential_free u \<longleftrightarrow> url_host_str u \<noteq> None \<and> url_username u = [] \<and> url_password u = None"

definition require_schema_v1 :: "u8 \<Rightarrow> string + unit" where
  "require_schema_v1 version = require (version = 1) ''schema_version must be 1''"

definition web_or_home :: "url \<Rightarrow> bool" where
  "web_or_home u \<longleftrightarrow> url_str u = ''xanhtab://home'' \<or> (http_scheme u \<and> credential_free u)"

definition check_remote_config :: "remote_document \<Rightarrow> string + unit" where
  "check_remote_config d =
     (let s = rd_session d
      in all_of
        [require_schema_v1 (rd_schema_version d),
         require (\<not> (rs_initial_url s = None \<and> rs_initial_profile s = None \<and> rs_auto_burn_seconds s = None))
           ''session must contain at least one reviewed setting'',
         require (case rs_initial_url s of None \<Rightarrow> True | Some u \<Rightarrow> web_or_home u)
           ''initial_url must be HTTP(S) without credentials or xanhtab://home'',
         require (case rs_auto_burn_seconds s of None \<Rightarrow> True
             | Some n \<Rightarrow> n = 0 \<or> (60 \<le> n \<and> n \<le> 86400))
           ''auto_burn_seconds must be zero or between 60 and 86400''])"

fun check_bookmarks :: "bookmark list \<Rightarrow> uuid list \<Rightarrow> string + unit" where
  "check_bookmarks [] ids = Inr ()"
| "check_bookmarks (b # rest) ids =
     (if bm_id b \<in> set ids then Inl ''bookmark IDs must be unique''
      else if \<not> (1 \<le> chars_count (bm_title b) \<and> chars_count (bm_title b) \<le> 256)
      then Inl ''bookmark title must contain between 1 and 256 characters''
      else if 4096 < length (url_str (bm_url b)) \<or> \<not> http_scheme (bm_url b) \<or> \<not> credential_free (bm_url b)
      then Inl ''bookmark URL must be a credential-free HTTP(S) URL''
      else check_bookmarks rest (bm_id b # ids))"

definition check_bookmarks_document :: "bookmarks_document \<Rightarrow> string + unit" where
  "check_bookmarks_document d = all_of
     [require_schema_v1 (bd_schema_version d),
      require (length (bd_bookmarks d) \<le> max_bookmarks) ''bookmarks exceeds the 500-item limit'',
      check_bookmarks (bd_bookmarks d) []]"

definition starts_alphanumeric :: "string \<Rightarrow> bool" where
  "starts_alphanumeric s \<longleftrightarrow> s \<noteq> [] \<and> is_ascii_alphanumeric (hd s)"

definition bounded_text :: "string \<Rightarrow> string \<Rightarrow> bool" where
  "bounded_text extra s \<longleftrightarrow> s \<noteq> [] \<and> length s \<le> 128 \<and> starts_alphanumeric s \<and>
     list_all (\<lambda>b. is_ascii_alphanumeric b \<or> b \<in> set extra) s"

definition source_name_ok :: "string \<Rightarrow> bool" where
  "source_name_ok s \<longleftrightarrow> s \<noteq> [] \<and> chars_count s \<le> 128 \<and> starts_alphanumeric s \<and>
     last s \<noteq> CHR '' '' \<and> list_all (\<lambda>b. is_ascii_alphanumeric b \<or> b \<in> set '' ._-'') s"

definition sha256_ok :: "string \<Rightarrow> bool" where
  "sha256_ok s \<longleftrightarrow> length s = 64 \<and>
     list_all (\<lambda>b. is_ascii_digit b \<or> (97 \<le> byte b \<and> byte b \<le> 102)) s"

definition license_ok :: "string \<Rightarrow> bool" where
  "license_ok s \<longleftrightarrow> s \<noteq> [] \<and> length s \<le> 128 \<and> hd s \<noteq> CHR '' '' \<and> last s \<noteq> CHR '' '' \<and>
     list_all (\<lambda>b. b = CHR '' '' \<or> is_ascii_graphic b) s"

definition secure_link :: "url \<Rightarrow> bool" where
  "secure_link u \<longleftrightarrow> url_scheme u = ''https'' \<and> credential_free u"

definition check_source :: "blocklist_source \<Rightarrow> string list \<Rightarrow> string list \<Rightarrow> string + unit" where
  "check_source s names files = all_of
     [require (source_name_ok (bs_name s) \<and> bs_name s \<notin> set names)
        ''blocklist source names must be non-empty, bounded, and unique'',
      require (bounded_text ''._-'' (bs_file s) \<and> bs_file s \<notin> set files)
        ''blocklist source filenames must be safe, bounded, and unique'',
      require (secure_link (bs_url s)) ''blocklist source URL must be credential-free HTTPS'',
      require (bounded_text ''._-/'' (bs_revision s)) ''blocklist source revision is invalid'',
      require (sha256_ok (bs_sha256 s)) ''blocklist source checksum must be lowercase SHA-256'',
      require (license_ok (bs_license s)) ''blocklist source license identifier is invalid'',
      require (secure_link (bs_license_url s)) ''blocklist source license URL must be credential-free HTTPS'']"

fun check_sources :: "blocklist_source list \<Rightarrow> string list \<Rightarrow> string list \<Rightarrow> string + unit" where
  "check_sources [] names files = Inr ()"
| "check_sources (s # rest) names files =
     (case check_source s names files of
        Inl e \<Rightarrow> Inl e
      | Inr _ \<Rightarrow> check_sources rest (bs_name s # names) (bs_file s # files))"

definition check_metadata_document :: "metadata_document \<Rightarrow> string + unit" where
  "check_metadata_document d = all_of
     [require_schema_v1 (md_schema_version d),
      require (md_sources d \<noteq> [] \<and> length (md_sources d) \<le> max_blocklist_sources)
        ''blocklist metadata must contain between 1 and 32 sources'',
      check_sources (md_sources d) [] []]"

section \<open>Files\<close>

definition path_exists_without_following :: "path_component list \<Rightarrow> ('b machine, string, bool) op" where
  "path_exists_without_following p =
     and_then (with_context (''failed to inspect '' @ path_text p) (inspect p)) (\<lambda>n. ret (n \<noteq> None))"

definition require_regular_file :: "path_component list \<Rightarrow> ('b machine, string, unit) op" where
  "require_regular_file p =
     and_then (path_is_symlink p) (\<lambda>link.
     and_then (path_is_file p) (\<lambda>file.
       if link \<or> \<not> file then raise (''public config path is not a regular file: '' @ path_text p) else ret ()))"

text \<open>Opening, reading, decoding and checking a document; the caller's context hides the reason.\<close>

definition read_document ::
  "(string \<Rightarrow> 'd option) \<Rightarrow> ('d \<Rightarrow> string + unit) \<Rightarrow> path_component list \<Rightarrow> ('b machine, string, 'd) op" where
  "read_document reader check p =
     and_then (with_context (''failed to read '' @ path_text p) (open_read p)) (\<lambda>file.
       with_context (''invalid public config '' @ path_text p)
         (and_then (read_all p file) (\<lambda>text.
            case reader text of
              None \<Rightarrow> raise ''invalid JSON''
            | Some d \<Rightarrow> and_then (from_result (check d)) (\<lambda>_. ret d))))"

definition validate_optional_json ::
  "(string \<Rightarrow> 'd option) \<Rightarrow> ('d \<Rightarrow> string + unit) \<Rightarrow> path_component list \<Rightarrow> ('b machine, string, unit) op" where
  "validate_optional_json reader check p =
     and_then (path_exists_without_following p) (\<lambda>there.
       if \<not> there then ret ()
       else
         and_then (require_regular_file p) (\<lambda>_.
         and_then (read_document reader check p) (\<lambda>_. ret ())))"

definition validate_public_config_dir ::
  "json_readers \<Rightarrow> path_component list \<Rightarrow> ('b machine, string, unit) op" where
  "validate_public_config_dir jr directory =
     and_then (path_is_dir directory) (\<lambda>is_dir.
     and_then (path_is_symlink directory) (\<lambda>link.
       if \<not> is_dir \<or> link
       then raise (''public config directory is unavailable or unsafe: '' @ path_text directory)
       else
         and_then (validate_optional_json (jr_config jr) check_remote_config
           (join_path directory ''config.json'')) (\<lambda>_.
         and_then (validate_optional_json (jr_bookmarks jr) check_bookmarks_document
           (join_path directory ''bookmarks.json'')) (\<lambda>_.
         and_then (validate_optional_json (jr_metadata jr) check_metadata_document
           (join_path directory ''blocklist-metadata.json'')) (\<lambda>_.
         let custom_hosts = join_path directory ''custom_hosts.txt'' in
         and_then (path_exists_without_following custom_hosts) (\<lambda>there.
           if \<not> there then ret ()
           else
             and_then (require_regular_file custom_hosts) (\<lambda>_.
             and_then (validate_hosts_file custom_hosts) (\<lambda>_. ret ()))))))))"

text \<open>The settings a document carries, over the configuration's.\<close>

definition with_session_defaults :: "remote_session \<Rightarrow> config \<Rightarrow> config" where
  "with_session_defaults rs c =
     (let s = cf_session c;
          s = (case rs_initial_url rs of None \<Rightarrow> s | Some u \<Rightarrow> s\<lparr>sc_initial_url := url_str u\<rparr>);
          s = (case rs_initial_profile rs of None \<Rightarrow> s | Some p \<Rightarrow> s\<lparr>sc_initial_profile := p\<rparr>);
          s = (case rs_auto_burn_seconds rs of None \<Rightarrow> s | Some n \<Rightarrow> s\<lparr>sc_auto_burn_seconds := n\<rparr>)
      in c\<lparr>cf_session := s\<rparr>)"

text \<open>The changed configuration; after an error the caller drops it.\<close>

definition apply_public_config_file ::
  "(string \<Rightarrow> url option) \<Rightarrow> json_readers \<Rightarrow> config \<Rightarrow> path_component list \<Rightarrow> ('b machine, string, config) op" where
  "apply_public_config_file parse_url jr c p =
     and_then (require_regular_file p) (\<lambda>_.
     and_then (read_document (jr_config jr) check_remote_config p) (\<lambda>d.
     let c' = with_session_defaults (rd_session d) c in
     and_then (from_result (validate_config parse_url c')) (\<lambda>_. ret c')))"

section \<open>Facts\<close>

lemma check_bookmarks_ok:
  "check_bookmarks bs ids = Inr () \<longleftrightarrow> distinct (map bm_id bs) \<and> set (map bm_id bs) \<inter> set ids = {} \<and>
     (\<forall>b \<in> set bs. 1 \<le> chars_count (bm_title b) \<and> chars_count (bm_title b) \<le> 256 \<and>
        length (url_str (bm_url b)) \<le> 4096 \<and> http_scheme (bm_url b) \<and> credential_free (bm_url b))"
  by (induction bs arbitrary: ids) auto

lemma check_source_ok: "check_source s names files = Inr () \<longleftrightarrow> source_name_ok (bs_name s) \<and>
    bs_name s \<notin> set names \<and> bounded_text ''._-'' (bs_file s) \<and> bs_file s \<notin> set files \<and> secure_link (bs_url s) \<and>
    bounded_text ''._-/'' (bs_revision s) \<and> sha256_ok (bs_sha256 s) \<and> license_ok (bs_license s) \<and>
    secure_link (bs_license_url s)"
  by (auto simp: check_source_def)

lemma check_sources_ok:
  "check_sources ss names files = Inr () \<Longrightarrow> distinct (map bs_name ss) \<and> distinct (map bs_file ss) \<and>
     set (map bs_name ss) \<inter> set names = {} \<and> set (map bs_file ss) \<inter> set files = {} \<and>
     (\<forall>s \<in> set ss. check_source s [] [] = Inr ())"
proof (induction ss arbitrary: names files)
  case (Cons s ss)
  then have s: "check_source s names files = Inr ()"
    and ss: "check_sources ss (bs_name s # names) (bs_file s # files) = Inr ()"
    by (auto split: sum.splits)
  from Cons.IH [OF ss] s show ?case by (auto simp: check_source_ok)
qed simp

text \<open>A reviewed file name is one plain component: the file is directly in the directory.\<close>

lemma bounded_file_name:
  assumes "bounded_text ''._-'' f"
  shows "components f = [Normal f]"
proof -
  have a: "list_all (\<lambda>b. is_ascii_alphanumeric b \<or> b \<in> set ''._-'') f" "f \<noteq> []" "is_ascii_alphanumeric (hd f)"
    using assms by (auto simp: bounded_text_def starts_alphanumeric_def)
  have n: "CHR ''/'' \<notin> set f"
    using a(1) by (auto simp: list_all_iff is_ascii_alphanumeric_def is_ascii_digit_def is_ascii_upper_def
        is_ascii_lower_def)
  have h: "hd f \<noteq> CHR ''.''" "hd f \<noteq> CHR ''/''"
    using a(3) by (auto simp: is_ascii_alphanumeric_def is_ascii_digit_def is_ascii_upper_def is_ascii_lower_def)
  then have "f \<noteq> ''.''" "f \<noteq> ''..''" by auto
  moreover have "\<not> is_absolute f" using a(2) h(2) by (cases f) (auto simp: is_absolute_def)
  ultimately show ?thesis
    using a(2) split_on_no_sep [OF n] by (simp add: components_def List.map_filter_def)
qed

definition reviewed_slot :: "'b machine \<Rightarrow> path_component list \<Rightarrow> (string \<Rightarrow> bool) \<Rightarrow> bool" where
  "reviewed_slot h p P \<longleftrightarrow> fs_node (m_fs h) p = None \<or>
     (\<exists>text. fs_node (m_fs h) p = Some (FileNode text) \<and> P text)"

lemma validate_optional_json_spec:
  "wp (validate_optional_json reader check p) (\<lambda>r h'. h' = h \<and> (r = Inr () \<longrightarrow>
     reviewed_slot h p (\<lambda>text. \<exists>d. reader text = Some d \<and> check d = Inr ()))) h"
  unfolding validate_optional_json_def path_exists_without_following_def require_regular_file_def read_document_def
  by (auto simp: wp_rules reviewed_slot_def fs_target_def split: option.splits fnode.splits sum.splits)

lemma validate_hosts_slot:
  "wp (and_then (path_exists_without_following p) (\<lambda>there. if \<not> there then ret () else
     and_then (require_regular_file p) (\<lambda>_. and_then (validate_hosts_file p) (\<lambda>_. ret ())))) (\<lambda>r h'. h' = h \<and>
     (r = Inr () \<longrightarrow> reviewed_slot h p (\<lambda>text. \<exists>n. validate_lines (path_text p) 0 (rust_lines text) [] = Inr n))) h"
  unfolding path_exists_without_following_def require_regular_file_def validate_hosts_file_def
  by (auto simp: wp_rules reviewed_slot_def fs_target_def split: option.splits fnode.splits sum.splits)

text \<open>Two checks that change nothing, one after the other.\<close>

lemma wp_check_then:
  assumes "wp m (\<lambda>r h'. h' = h \<and> (r = Inr () \<longrightarrow> A)) h" and "wp k (\<lambda>r h'. h' = h \<and> (r = Inr () \<longrightarrow> B)) h"
  shows "wp (and_then m (\<lambda>_ :: unit. k)) (\<lambda>r h'. h' = h \<and> (r = Inr () \<longrightarrow> A \<and> B)) h"
  unfolding wp_and_then
  by (rule wp_mono [OF assms(1)]) (auto split: sum.splits intro: wp_mono [OF assms(2)])

definition config_slot :: "json_readers \<Rightarrow> string \<Rightarrow> bool" where
  "config_slot jr text \<longleftrightarrow> (\<exists>d. jr_config jr text = Some d \<and>
     (\<forall>u. rs_initial_url (rd_session d) = Some u \<longrightarrow> web_or_home u) \<and>
     (\<forall>n. rs_auto_burn_seconds (rd_session d) = Some n \<longrightarrow> n = 0 \<or> (60 \<le> n \<and> n \<le> 86400)))"

definition bookmarks_slot :: "json_readers \<Rightarrow> string \<Rightarrow> bool" where
  "bookmarks_slot jr text \<longleftrightarrow> (\<exists>d. jr_bookmarks jr text = Some d \<and> length (bd_bookmarks d) \<le> 500 \<and>
     distinct (map bm_id (bd_bookmarks d)) \<and>
     (\<forall>b \<in> set (bd_bookmarks d). http_scheme (bm_url b) \<and> credential_free (bm_url b)))"

definition metadata_slot :: "json_readers \<Rightarrow> path_component list \<Rightarrow> string \<Rightarrow> bool" where
  "metadata_slot jr directory text \<longleftrightarrow> (\<exists>d. jr_metadata jr text = Some d \<and>
     distinct (map bs_name (md_sources d)) \<and> distinct (map bs_file (md_sources d)) \<and>
     (\<forall>s \<in> set (md_sources d). secure_link (bs_url s) \<and> secure_link (bs_license_url s) \<and> sha256_ok (bs_sha256 s) \<and>
        join_path directory (bs_file s) = directory @ [Normal (bs_file s)]))"

lemma joined_source: "bounded_text ''._-'' f \<Longrightarrow> join_path directory f = directory @ [Normal f]"
  using bounded_file_name [of f] by (auto simp: join_path_def components_def Let_def split: if_splits)

lemma slots:
  "jr_config jr text = Some d \<Longrightarrow> check_remote_config d = Inr () \<Longrightarrow> config_slot jr text"
  "jr_bookmarks jr text = Some bd \<Longrightarrow> check_bookmarks_document bd = Inr () \<Longrightarrow> bookmarks_slot jr text"
  "jr_metadata jr text = Some md \<Longrightarrow> check_metadata_document md = Inr () \<Longrightarrow> metadata_slot jr directory text"
  by (auto simp: config_slot_def bookmarks_slot_def metadata_slot_def check_remote_config_def Let_def
      check_bookmarks_document_def check_metadata_document_def check_bookmarks_ok max_bookmarks_def
      check_source_ok joined_source dest!: check_sources_ok)

end
