(* ===== verification/NetPlan.thy ===== *)
theory NetPlan
  imports Config
begin

text \<open>
  \<open>src/netd.rs\<close>, the plans: which programs the privileged helper runs, with which arguments and
  which nftables script on standard input, for the kill-switch, for each egress mode and for the
  WireGuard interface. The scripts are the literal texts. The second half reads them back with an
  interpreter for the few nftables statements they use and gives each a packet-level meaning.
\<close>

section \<open>Commands\<close>

definition wireguard_interface :: string where "wireguard_interface = ''wg0''"
definition wireguard_route_table :: string where "wireguard_route_table = ''51820''"
definition wireguard_rule_priority :: string where "wireguard_rule_priority = ''10000''"
definition nft_program :: string where "nft_program = ''/usr/sbin/nft''"
definition ip_program :: string where "ip_program = ''/usr/sbin/ip''"
definition wg_program :: string where "wg_program = ''/usr/bin/wg''"
definition wg_quick_program :: string where "wg_quick_program = ''/usr/bin/wg-quick''"

record command_spec =
  cs_program :: string
  cs_args :: "string list"
  cs_stdin :: "string option"

definition plain :: "string \<Rightarrow> string list \<Rightarrow> command_spec" where
  "plain program args = \<lparr>cs_program = program, cs_args = args, cs_stdin = None\<rparr>"

section \<open>Scripts\<close>

definition add_rule :: string where
  "add_rule = ''add rule inet xanhtab browser_output meta skuid ''"

definition add_drop :: "u32 \<Rightarrow> string" where
  "add_drop uid = add_rule @ show_nat (unat uid) @ '' counter drop'' @ [newline]"

definition add_proxy_guard :: "u32 \<Rightarrow> string \<Rightarrow> u16 \<Rightarrow> string" where
  "add_proxy_guard uid address port =
     (let family = (if CHR '':'' \<in> set address then ''ip6'' else ''ip'')
      in add_rule @ show_nat (unat uid) @ '' '' @ family @ '' daddr '' @ address @ '' tcp dport '' @
         show_nat (unat port) @ '' accept'' @ [newline] @ add_drop uid)"

definition script_header :: string where
  "script_header = ''flush table inet xanhtab'' @ [newline] @
     ''add chain inet xanhtab browser_output { type filter hook output priority filter; policy accept; }''
     @ [newline]"

text \<open>\<open>None\<close> is the panic of \<open>expect\<close> on a proxy mode without an endpoint.\<close>

definition nft_script :: "u32 \<Rightarrow> egress_mode option \<Rightarrow> socket_addr option \<Rightarrow> string option" where
  "nft_script uid mode proxy_endpoint =
     (case mode of
        None \<Rightarrow> Some (script_header @ add_drop uid)
      | Some Direct \<Rightarrow> Some script_header
      | Some WireGuard \<Rightarrow> Some (script_header @ add_rule @ show_nat (unat uid) @ '' oifname '' @
          [CHR 0x22] @ wireguard_interface @ [CHR 0x22] @ '' accept'' @ [newline] @ add_drop uid)
      | Some _ \<Rightarrow>
          (case proxy_endpoint of
             None \<Rightarrow> None
           | Some e \<Rightarrow> Some (script_header @
               add_proxy_guard uid (show_ip_addr (sa_ip e)) (sa_port e))))"

definition nft_transaction ::
  "network_config \<Rightarrow> egress_mode option \<Rightarrow> socket_addr option \<Rightarrow> command_spec option" where
  "nft_transaction c mode proxy_endpoint =
     (case nft_script (nw_browser_uid c) mode proxy_endpoint of
        None \<Rightarrow> None
      | Some script \<Rightarrow> Some \<lparr>cs_program = nft_program, cs_args = [''-f'', ''-''], cs_stdin = Some script\<rparr>)"

section \<open>Plans\<close>

definition add_table :: command_spec where
  "add_table = plain nft_program [''add'', ''table'', ''inet'', ''xanhtab'']"

definition delete_table :: command_spec where
  "delete_table = plain nft_program [''delete'', ''table'', ''inet'', ''xanhtab'']"

definition kill_switch_script :: "network_config \<Rightarrow> string" where
  "kill_switch_script c = script_header @ add_drop (nw_browser_uid c)"

definition kill_switch_plan :: "network_config \<Rightarrow> command_spec list" where
  "kill_switch_plan c = [add_table,
     \<lparr>cs_program = nft_program, cs_args = [''-f'', ''-''], cs_stdin = Some (kill_switch_script c)\<rparr>]"

definition is_proxy_mode :: "egress_mode \<Rightarrow> bool" where
  "is_proxy_mode m \<longleftrightarrow> m = Tor \<or> m = Warp \<or> m = Proxy"

definition active_policy_plan ::
  "network_config \<Rightarrow> egress_mode \<Rightarrow> socket_addr option \<Rightarrow> (string + command_spec list) option" where
  "active_policy_plan c mode proxy_endpoint =
     (if is_proxy_mode mode \<and> proxy_endpoint = None
      then Some (Inl ''proxy egress requires a validated endpoint'')
      else (case nft_transaction c (Some mode) proxy_endpoint of
              None \<Rightarrow> None | Some spec \<Rightarrow> Some (Inr [spec])))"

definition uid_range :: "network_config \<Rightarrow> string" where
  "uid_range c = show_nat (unat (nw_browser_uid c)) @ ''-'' @ show_nat (unat (nw_browser_uid c))"

definition wireguard_setup_plan :: "network_config \<Rightarrow> command_spec list" where
  "wireguard_setup_plan c =
     [plain wg_quick_program [''up'', nw_wireguard_config c],
      plain ip_program [''route'', ''replace'', ''default'', ''dev'', wireguard_interface,
        ''table'', wireguard_route_table],
      plain ip_program [''-6'', ''route'', ''replace'', ''default'', ''dev'', wireguard_interface,
        ''table'', wireguard_route_table],
      plain ip_program [''rule'', ''add'', ''priority'', wireguard_rule_priority, ''uidrange'',
        uid_range c, ''lookup'', wireguard_route_table],
      plain ip_program [''-6'', ''rule'', ''add'', ''priority'', wireguard_rule_priority,
        ''uidrange'', uid_range c, ''lookup'', wireguard_route_table],
      plain wg_program [''show'', wireguard_interface]]"

definition wireguard_teardown_plan :: "network_config \<Rightarrow> command_spec list" where
  "wireguard_teardown_plan c =
     [plain ip_program [''rule'', ''del'', ''priority'', wireguard_rule_priority, ''uidrange'',
        uid_range c, ''lookup'', wireguard_route_table],
      plain ip_program [''-6'', ''rule'', ''del'', ''priority'', wireguard_rule_priority,
        ''uidrange'', uid_range c, ''lookup'', wireguard_route_table],
      plain ip_program [''route'', ''flush'', ''table'', wireguard_route_table],
      plain ip_program [''-6'', ''route'', ''flush'', ''table'', wireguard_route_table],
      plain ip_program [''link'', ''delete'', ''dev'', wireguard_interface]]"

text \<open>\<open>command_plan\<close>; \<open>None\<close> is a panic of one of its \<open>expect\<close> calls.\<close>

definition command_plan :: "network_config \<Rightarrow> egress_mode \<Rightarrow> command_spec list option" where
  "command_plan c mode =
     (let with_policy = (\<lambda>endpoint.
        case active_policy_plan c mode endpoint of
          Some (Inr policy) \<Rightarrow> Some (kill_switch_plan c @
            (if mode = WireGuard then wireguard_setup_plan c else []) @ policy)
        | _ \<Rightarrow> None);
        parsed = (\<lambda>s. case parse_socket_addr s of None \<Rightarrow> None | Some e \<Rightarrow> with_policy (Some e))
      in case mode of
           Tor \<Rightarrow> parsed ''127.0.0.1:9050''
         | Warp \<Rightarrow> parsed ''127.0.0.1:40000''
         | Proxy \<Rightarrow> parsed (nw_proxy_endpoint c)
         | _ \<Rightarrow> with_policy None)"

section \<open>What the scripts mean\<close>

text \<open>
  The nftables statements in use. A chain with policy accept is walked rule by rule; the first
  rule whose matches all hold decides.
\<close>

datatype nft_match = Skuid nat | Oifname string | Daddr ip_addr | TcpDport nat

record nft_rule =
  nr_matches :: "nft_match list"
  nr_accept :: bool

record packet =
  pk_uid :: u32
  pk_oifname :: string
  pk_daddr :: ip_addr
  pk_tcp_dport :: "u16 option"

fun matches :: "packet \<Rightarrow> nft_match \<Rightarrow> bool" where
  "matches p (Skuid u) = (unat (pk_uid p) = u)"
| "matches p (Oifname i) = (pk_oifname p = i)"
| "matches p (Daddr a) = (pk_daddr p = a)"
| "matches p (TcpDport d) = (case pk_tcp_dport p of None \<Rightarrow> False | Some q \<Rightarrow> unat q = d)"

fun verdict :: "nft_rule list \<Rightarrow> packet \<Rightarrow> bool" where
  "verdict [] p = True"
| "verdict (r # rs) p = (if list_all (matches p) (nr_matches r) then nr_accept r else verdict rs p)"

text \<open>Reading one rule line: its words after the chain's name.\<close>

fun read_matches :: "string list \<Rightarrow> nft_match list \<Rightarrow> nft_rule option" where
  "read_matches ws acc =
     (case ws of
        [w] \<Rightarrow> if w = ''accept'' then Some \<lparr>nr_matches = acc, nr_accept = True\<rparr> else None
      | [v, w] \<Rightarrow> if v = ''counter'' \<and> w = ''drop'' then Some \<lparr>nr_matches = acc, nr_accept = False\<rparr>
                 else None
      | a # b # c # rest \<Rightarrow>
          if a = ''meta'' \<and> b = ''skuid''
          then (case parse_uint (2 ^ 32 - 1) c of None \<Rightarrow> None
                | Some u \<Rightarrow> read_matches rest (acc @ [Skuid u]))
          else if a = ''oifname''
          then read_matches (c # rest) (acc @ [Oifname (butlast (tl b))])
          else if (a = ''ip'' \<or> a = ''ip6'') \<and> b = ''daddr''
          then (case parse_ip_addr c of
                  Some (V4 w x y z) \<Rightarrow>
                    if a = ''ip'' then read_matches rest (acc @ [Daddr (V4 w x y z)]) else None
                | Some (V6 gs) \<Rightarrow>
                    if a = ''ip6'' then read_matches rest (acc @ [Daddr (V6 gs)]) else None
                | None \<Rightarrow> None)
          else if a = ''tcp'' \<and> b = ''dport''
          then (case parse_uint 65535 c of None \<Rightarrow> None
                | Some d \<Rightarrow> read_matches rest (acc @ [TcpDport d]))
          else None
      | [] \<Rightarrow> None)"

declare read_matches.simps [simp del]

definition read_rule :: "string \<Rightarrow> nft_rule option" where
  "read_rule line =
     (case split_on CHR '' '' line of
        a # b # c # d # e # ws \<Rightarrow>
          if [a, b, c, d, e] = [''add'', ''rule'', ''inet'', ''xanhtab'', ''browser_output'']
          then read_matches ws [] else None
      | _ \<Rightarrow> None)"

fun read_rules :: "string list \<Rightarrow> nft_rule list option" where
  "read_rules [] = Some []"
| "read_rules (l # ls) =
     (case read_rule l of None \<Rightarrow> None
      | Some r \<Rightarrow> (case read_rules ls of None \<Rightarrow> None | Some rs \<Rightarrow> Some (r # rs)))"

text \<open>
  A whole script: it empties the table, declares the output chain with policy accept, and adds
  its rules, all in one transaction.
\<close>

definition read_script :: "string \<Rightarrow> nft_rule list option" where
  "read_script s =
     (case rust_lines s of
        flush # chain # rules \<Rightarrow>
          if flush # [chain] = rust_lines script_header then read_rules rules else None
      | _ \<Rightarrow> None)"

section \<open>Facts\<close>

definition net_char :: "char \<Rightarrow> bool" where
  "net_char c \<longleftrightarrow> is_ascii_alphanumeric c \<or> c = CHR ''.'' \<or> c = CHR '':''"

lemma net_char_punct [simp]: "net_char CHR ''.''" "net_char CHR '':''" "net_char CHR ''f''"
  by (simp_all add: net_char_def is_ascii_alphanumeric_def is_ascii_lower_def)

lemma show_nat_net: "c \<in> set (show_nat n) \<Longrightarrow> net_char c"
  using show_nat_digits by (simp add: net_char_def is_ascii_alphanumeric_def)

lemma show_hex_net: "c \<in> set (show_hex n) \<Longrightarrow> net_char c"
proof (induction n rule: show_hex.induct)
  case (1 n)
  have d: "net_char (show_hex_digit k)" if "k < 16" for k
    using that by (auto simp: net_char_def show_hex_digit_def is_ascii_alphanumeric_def
        is_ascii_digit_def is_ascii_lower_def is_ascii_upper_def)
  from 1 show ?case
    by (subst (asm) show_hex.simps) (auto simp: d split: if_splits)
qed

lemma join_chars: "c \<in> set (join sep ps) \<Longrightarrow> c \<in> set sep \<or> (\<exists>p \<in> set ps. c \<in> set p)"
  by (induction ps rule: join.induct [of _ sep]) auto

lemma show_ipv4_net: "c \<in> set (show_ipv4 w x y z) \<Longrightarrow> net_char c"
  unfolding show_ipv4_def by (auto dest!: join_chars show_nat_net)

lemma show_groups_net: "c \<in> set (show_groups gs) \<Longrightarrow> net_char c"
  unfolding show_groups_def by (auto dest!: join_chars show_hex_net)

lemma show_ip_net: "c \<in> set (show_ip_addr ip) \<Longrightarrow> net_char c"
proof (cases ip)
  case (V6 gs)
  assume "c \<in> set (show_ip_addr ip)"
  with V6 show ?thesis
    by (auto simp: show_ipv6_def split: if_splits prod.splits
        dest: show_groups_net show_ipv4_net)
qed (auto dest: show_ipv4_net)

lemma net_char_not [simp]: "\<not> net_char CHR '' ''" "\<not> net_char newline" "\<not> net_char carriage_return"
  by (simp_all add: net_char_def is_ascii_alphanumeric_def is_ascii_digit_def is_ascii_lower_def
      is_ascii_upper_def newline_def carriage_return_def)

lemma no_blank [simp]: "CHR '' '' \<notin> set (show_nat n)" "CHR '' '' \<notin> set (show_ip_addr ip)"
  using show_nat_net show_ip_net net_char_not(1) by blast+

lemma no_newline [simp]: "newline \<notin> set (show_nat n)" "newline \<notin> set (show_ip_addr ip)"
  using show_nat_net show_ip_net net_char_not(2) by blast+

lemma rust_lines_Cons:
  assumes "newline \<notin> set l" and "l = [] \<or> last l \<noteq> carriage_return"
  shows "rust_lines (l @ newline # rest) = l # rust_lines rest"
  using assms by (auto simp: rust_lines_def split_on_append_sep strip_cr_def Let_def)

lemma rust_lines_Nil [simp]: "rust_lines [] = []"
  by (simp add: rust_lines_def)

definition flush_line :: string where "flush_line = ''flush table inet xanhtab''"
definition chain_line :: string where
  "chain_line = ''add chain inet xanhtab browser_output { type filter hook output priority filter; policy accept; }''"

lemma header_lines: "rust_lines (script_header @ rest) = flush_line # chain_line # rust_lines rest"
proof -
  have e: "script_header @ rest = flush_line @ newline # (chain_line @ newline # rest)"
    by (simp add: script_header_def flush_line_def chain_line_def)
  have "newline \<notin> set flush_line" "last flush_line \<noteq> carriage_return"
    "newline \<notin> set chain_line" "last chain_line \<noteq> carriage_return"
    by (simp_all add: flush_line_def chain_line_def newline_def carriage_return_def)
  then show ?thesis unfolding e by (simp add: rust_lines_Cons)
qed

lemma read_script_header: "read_script (script_header @ rest) = read_rules (rust_lines rest)"
  using header_lines [of rest] header_lines [of "[]"] by (simp add: read_script_def)

definition drop_line :: "u32 \<Rightarrow> string" where
  "drop_line uid = add_rule @ show_nat (unat uid) @ '' counter drop''"

definition tcp_line :: "u32 \<Rightarrow> string \<Rightarrow> string \<Rightarrow> u16 \<Rightarrow> string" where
  "tcp_line uid family address port = add_rule @ show_nat (unat uid) @ '' '' @ family @ '' daddr '' @
     address @ '' tcp dport '' @ show_nat (unat port) @ '' accept''"

definition wg_rule_line :: "u32 \<Rightarrow> string" where
  "wg_rule_line uid = add_rule @ show_nat (unat uid) @ '' oifname '' @
     [CHR 0x22] @ wireguard_interface @ [CHR 0x22] @ '' accept''"

lemma uid_bound [simp]: "unat (uid :: u32) \<le> 4294967295"
  using unsigned_less [where 'a = nat, of uid] by simp

lemma port_bound [simp]: "unat (port :: u16) \<le> 65535"
  using unsigned_less [where 'a = nat, of port] by simp

lemma split_blank: "CHR '' '' \<notin> set a \<Longrightarrow> split_on CHR '' '' (a @ CHR '' '' # b) = a # split_on CHR '' '' b"
  by (rule split_on_append_sep)

lemma read_drop: "read_rule (drop_line uid) = Some \<lparr>nr_matches = [Skuid (unat uid)], nr_accept = False\<rparr>"
  by (simp add: read_rule_def drop_line_def add_rule_def split_blank read_matches.simps)

lemma read_wg: "read_rule (wg_rule_line uid) =
    Some \<lparr>nr_matches = [Skuid (unat uid), Oifname wireguard_interface], nr_accept = True\<rparr>"
  by (simp add: read_rule_def wg_rule_line_def add_rule_def split_blank read_matches.simps
      wireguard_interface_def)

lemma read_tcp:
  assumes "parse_ip_addr (show_ip_addr ip) = Some ip"
  shows "read_rule (tcp_line uid (case ip of V4 _ _ _ _ \<Rightarrow> ''ip'' | V6 _ \<Rightarrow> ''ip6'') (show_ip_addr ip) port) =
    Some \<lparr>nr_matches = [Skuid (unat uid), Daddr ip, TcpDport (unat port)], nr_accept = True\<rparr>"
  using assms
  by (cases ip) (simp_all add: read_rule_def tcp_line_def add_rule_def split_blank
      read_matches.simps del: show_ip_addr.simps)

lemma rule_lines:
  "rust_lines (drop_line uid @ newline # rest) = drop_line uid # rust_lines rest"
  "rust_lines (wg_rule_line uid @ newline # rest) = wg_rule_line uid # rust_lines rest"
  "rust_lines (tcp_line uid family (show_ip_addr ip) port @ newline # rest) =
     tcp_line uid family (show_ip_addr ip) port # rust_lines rest"
  if "family = ''ip'' \<or> family = ''ip6''"
proof -
  have d: "newline \<notin> set (drop_line uid)" "last (drop_line uid) \<noteq> carriage_return"
    by (simp_all add: drop_line_def add_rule_def) (simp_all add: newline_def carriage_return_def)
  have w: "newline \<notin> set (wg_rule_line uid)" "last (wg_rule_line uid) \<noteq> carriage_return"
    by (simp_all add: wg_rule_line_def add_rule_def wireguard_interface_def)
      (simp_all add: newline_def carriage_return_def)
  have t: "newline \<notin> set (tcp_line uid family (show_ip_addr ip) port)"
      "last (tcp_line uid family (show_ip_addr ip) port) \<noteq> carriage_return"
    using that by (auto simp: tcp_line_def add_rule_def) (auto simp: newline_def carriage_return_def)
  show "rust_lines (drop_line uid @ newline # rest) = drop_line uid # rust_lines rest"
    by (rule rust_lines_Cons) (use d in simp_all)
  show "rust_lines (wg_rule_line uid @ newline # rest) = wg_rule_line uid # rust_lines rest"
    by (rule rust_lines_Cons) (use w in simp_all)
  show "rust_lines (tcp_line uid family (show_ip_addr ip) port @ newline # rest) =
     tcp_line uid family (show_ip_addr ip) port # rust_lines rest"
    by (rule rust_lines_Cons) (use t in simp_all)
qed

lemma add_drop_line: "add_drop uid = drop_line uid @ newline # []"
  by (simp add: add_drop_def drop_line_def)

lemma guard_lines: "add_proxy_guard uid address port =
    tcp_line uid (if CHR '':'' \<in> set address then ''ip6'' else ''ip'') address port @ newline #
      drop_line uid @ newline # []"
  by (simp add: add_proxy_guard_def Let_def tcp_line_def add_drop_line)

lemma ip_family:
  assumes "parse_ip_addr (show_ip_addr ip) = Some ip"
  shows "(if CHR '':'' \<in> set (show_ip_addr ip) then ''ip6'' else ''ip'') =
    (case ip of V4 _ _ _ _ \<Rightarrow> ''ip'' | V6 _ \<Rightarrow> ''ip6'')"
proof (cases ip)
  case (V4 w x y z)
  then show ?thesis using colon_show_ipv4 by simp
next
  case (V6 gs)
  with assms have "length gs = 8" using parse_ip_addr_V6_length by auto
  with V6 show ?thesis using colon_show_ipv6 by simp
qed

text \<open>Which packets a mode lets out: others' always, the browser's only on the mode's path.\<close>

definition lets_out :: "u32 \<Rightarrow> egress_mode option \<Rightarrow> socket_addr option \<Rightarrow> packet \<Rightarrow> bool" where
  "lets_out uid mode endpoint p \<longleftrightarrow> pk_uid p \<noteq> uid \<or>
     (case mode of
        None \<Rightarrow> False
      | Some Direct \<Rightarrow> True
      | Some WireGuard \<Rightarrow> pk_oifname p = ''wg0''
      | Some _ \<Rightarrow> (case endpoint of None \<Rightarrow> False
          | Some e \<Rightarrow> pk_daddr p = sa_ip e \<and> pk_tcp_dport p = Some (sa_port e)))"

definition policy_rules :: "u32 \<Rightarrow> egress_mode option \<Rightarrow> socket_addr option \<Rightarrow> nft_rule list" where
  "policy_rules uid mode endpoint =
     (let drop = \<lparr>nr_matches = [Skuid (unat uid)], nr_accept = False\<rparr>
      in case mode of
           None \<Rightarrow> [drop]
         | Some Direct \<Rightarrow> []
         | Some WireGuard \<Rightarrow>
             [\<lparr>nr_matches = [Skuid (unat uid), Oifname wireguard_interface], nr_accept = True\<rparr>, drop]
         | Some _ \<Rightarrow> (case endpoint of None \<Rightarrow> [drop]
             | Some e \<Rightarrow> [\<lparr>nr_matches = [Skuid (unat uid), Daddr (sa_ip e), TcpDport (unat (sa_port e))],
                           nr_accept = True\<rparr>, drop]))"

lemma verdict_policy: "verdict (policy_rules uid mode endpoint) p = lets_out uid mode endpoint p"
proof -
  have u: "unat (pk_uid p) = unat uid \<longleftrightarrow> pk_uid p = uid" by (simp add: word_unat_eq_iff)
  have d: "(case pk_tcp_dport p of None \<Rightarrow> False | Some q \<Rightarrow> unat q = unat d) \<longleftrightarrow> pk_tcp_dport p = Some d"
    for d by (cases "pk_tcp_dport p") (simp_all add: word_unat_eq_iff)
  show ?thesis
    by (auto simp: policy_rules_def lets_out_def Let_def u d wireguard_interface_def
        split: option.splits egress_mode.splits)
qed

definition readable_endpoint :: "socket_addr option \<Rightarrow> bool" where
  "readable_endpoint e = (case e of None \<Rightarrow> True
     | Some e \<Rightarrow> parse_ip_addr (show_ip_addr (sa_ip e)) = Some (sa_ip e))"

lemma read_guard:
  assumes "parse_ip_addr (show_ip_addr ip) = Some ip"
  shows "read_script (script_header @ add_proxy_guard uid (show_ip_addr ip) port) =
    Some [\<lparr>nr_matches = [Skuid (unat uid), Daddr ip, TcpDport (unat port)], nr_accept = True\<rparr>,
          \<lparr>nr_matches = [Skuid (unat uid)], nr_accept = False\<rparr>]"
proof -
  let ?f = "case ip of V4 _ _ _ _ \<Rightarrow> ''ip'' | V6 _ \<Rightarrow> ''ip6''"
  have f: "?f = ''ip'' \<or> ?f = ''ip6''" by (cases ip) simp_all
  have "rust_lines (add_proxy_guard uid (show_ip_addr ip) port) =
      [tcp_line uid ?f (show_ip_addr ip) port, drop_line uid]"
    unfolding guard_lines ip_family [OF assms] rule_lines(3) [OF f] rule_lines(1) [OF f]
    by simp
  then show ?thesis
    by (simp add: read_script_header read_tcp [OF assms] read_drop)
qed

lemma read_nft_script:
  assumes "nft_script uid mode endpoint = Some s" and "readable_endpoint endpoint"
  shows "read_script s = Some (policy_rules uid mode endpoint)"
proof -
  have kill: "read_script (script_header @ add_drop uid) = Some [\<lparr>nr_matches = [Skuid (unat uid)], nr_accept = False\<rparr>]"
    using rule_lines(1) [of "''ip''" uid "[]"] by (simp add: read_script_header add_drop_line read_drop)
  have direct: "read_script script_header = Some []"
    using read_script_header [of "[]"] by simp
  have "script_header @ add_rule @ show_nat (unat uid) @ '' oifname '' @ [CHR 0x22] @
      wireguard_interface @ [CHR 0x22] @ '' accept'' @ [newline] @ add_drop uid =
      script_header @ wg_rule_line uid @ newline # drop_line uid @ newline # []"
    by (simp add: wg_rule_line_def add_drop_line)
  then have wg: "read_script (script_header @ add_rule @ show_nat (unat uid) @ '' oifname '' @ [CHR 0x22] @
      wireguard_interface @ [CHR 0x22] @ '' accept'' @ [newline] @ add_drop uid) =
      Some [\<lparr>nr_matches = [Skuid (unat uid), Oifname wireguard_interface], nr_accept = True\<rparr>,
            \<lparr>nr_matches = [Skuid (unat uid)], nr_accept = False\<rparr>]"
    using rule_lines(2) [of "''ip''" uid "drop_line uid @ newline # []"] rule_lines(1) [of "''ip''" uid "[]"]
    by (simp only: read_script_header) (simp add: read_wg read_drop)
  show ?thesis
  proof (cases mode)
    case None
    with assms(1) kill show ?thesis by (simp add: nft_script_def policy_rules_def)
  next
    case (Some m)
    with assms show ?thesis
      by (cases m; cases endpoint)
        (auto simp: nft_script_def policy_rules_def direct wg [simplified] readable_endpoint_def read_guard)
  qed
qed

section \<open>Properties\<close>

text \<open>
  C28. Every nftables script the helper can load means what its mode promises: the traffic of
  other users is never touched; the browser's is all dropped by the kill-switch, let out only
  over \<open>wg0\<close> by the WireGuard policy, only as TCP to the proxy's address and port by a proxy
  policy, and freely by the direct one.
\<close>

theorem nft_script_means_policy:
  assumes "nft_script uid mode endpoint = Some script" and "readable_endpoint endpoint"
  shows "\<exists>rules. read_script script = Some rules \<and>
    (\<lambda>p. verdict rules p) = (\<lambda>p. lets_out uid mode endpoint p)"
  using read_nft_script [OF assms] verdict_policy by blast

theorem nft_script_means_policy_witness:
  "\<exists>s rules. nft_script 988 (Some Tor) (Some (socket_addr_new (V4 127 0 0 1) 9050)) = Some s \<and>
     read_script s = Some rules \<and>
     \<not> verdict rules \<lparr>pk_uid = 988, pk_oifname = ''eth0'', pk_daddr = V4 192 0 2 1, pk_tcp_dport = Some 443\<rparr>"
proof -
  let ?e = "socket_addr_new (V4 127 0 0 1) 9050"
  obtain s where s: "nft_script 988 (Some Tor) (Some ?e) = Some s" by (simp add: nft_script_def)
  have "readable_endpoint (Some ?e)"
    using parse_show_ipv4 by (simp add: readable_endpoint_def socket_addr_new_def)
  from nft_script_means_policy [OF s this] obtain rules where r: "read_script s = Some rules"
    "(\<lambda>p. verdict rules p) = (\<lambda>p. lets_out 988 (Some Tor) (Some ?e) p)" by blast
  from fun_cong [OF r(2)] have "\<not> verdict rules \<lparr>pk_uid = 988, pk_oifname = ''eth0'',
      pk_daddr = V4 192 0 2 1, pk_tcp_dport = Some 443\<rparr>"
    by (simp add: lets_out_def socket_addr_new_def)
  with s r(1) show ?thesis by blast
qed

end
