(* ===== verification/ConfigProps.thy ===== *)
theory ConfigProps imports NetPlan Session begin

text \<open>
  What a configuration that \<open>src/config.rs\<close> accepts can and cannot be, the two configurations the
  repository ships with (its defaults, and \<open>config/xanhtab.production.toml\<close>), and that the plans
  of \<open>src/netd.rs\<close> made from an accepted one never panic.
\<close>


section \<open>What the checks say\<close>

lemma normalize_origins_scheme:
  "normalize_origins parse_url origins = Inr os \<Longrightarrow>
     list_all2 (\<lambda>origin o'. \<exists>u. parse_url origin = Some u \<and> http_scheme u \<and> bare_origin u \<and>
       url_origin u = o') origins os"
  by (induction origins arbitrary: os) (auto split: option.splits if_splits sum.splits)

lemma normalized_is_plain:
  "is_normalized_absolute p \<Longrightarrow> \<not> list_ex (\<lambda>c. c = ParentDir \<or> c = CurDir) (components p)"
  by (auto simp: is_normalized_absolute_def list_all_iff list_ex_iff)

lemma check_paths_runtime: "check_paths c = Inr () \<Longrightarrow> \<not> unsafe_runtime_path (sc_runtime_dir (cf_session c))"
  using normalized_is_plain [of "sc_runtime_dir (cf_session c)"]
  by (auto simp: check_paths_def Let_def unsafe_runtime_path_def is_normalized_absolute_def)

section \<open>Two configurations\<close>

text \<open>The default configuration and the installed \<open>config/xanhtab.production.toml\<close>, under a URL parser for
  the URLs they hold, for the witnesses.\<close>

definition demo_parse_url :: "string \<Rightarrow> url option" where
  "demo_parse_url s =
     (let u = (\<lambda>scheme host port path. Some \<lparr>url_str = s, url_scheme = scheme, url_host_str = Some host,
        url_port_or_known_default = port, url_path = path, url_query = None, url_fragment = None,
        url_username = [], url_password = None, url_origin = s\<rparr>)
      in if s = ''http://127.0.0.1:8088'' then u ''http'' ''127.0.0.1'' (Some 8088) ''/''
         else if s = ''xanhtab://home'' then u ''xanhtab'' ''home'' None []
         else if s = ''socks5://127.0.0.1:9050'' then u ''socks5'' ''127.0.0.1'' (Some 9050) []
         else if s = ''socks5://127.0.0.1:40000'' then u ''socks5'' ''127.0.0.1'' (Some 40000) []
         else if s = ''https://xanhtab.local:8443'' then u ''https'' ''xanhtab.local'' (Some 8443) ''/''
         else if s = ''socks5h://127.0.0.1:9050'' then u ''socks5h'' ''127.0.0.1'' (Some 9050) []
         else if s = ''socks5h://127.0.0.1:40000'' then u ''socks5h'' ''127.0.0.1'' (Some 40000) []
         else if s = ''ws://127.0.0.1:8444'' then u ''ws'' ''127.0.0.1'' (Some 8444) ''/''
         else None)"

lemma demo_managed:
  "check_managed_proxy demo_parse_url ''tor_proxy'' ''socks5://127.0.0.1:9050'' = Inr ()"
  "check_managed_proxy demo_parse_url ''warp_proxy'' ''socks5://127.0.0.1:40000'' = Inr ()"
  "check_managed_proxy demo_parse_url ''tor_proxy'' ''socks5h://127.0.0.1:9050'' = Inr ()"
  "check_managed_proxy demo_parse_url ''warp_proxy'' ''socks5h://127.0.0.1:40000'' = Inr ()"
proof -
  have t: "trim ''socks5://127.0.0.1:9050'' = ''socks5://127.0.0.1:9050''"
    "trim ''socks5://127.0.0.1:40000'' = ''socks5://127.0.0.1:40000''"
    "trim ''socks5h://127.0.0.1:9050'' = ''socks5h://127.0.0.1:9050''"
    "trim ''socks5h://127.0.0.1:40000'' = ''socks5h://127.0.0.1:40000''" by (simp_all add: str_eval)
  have h: "proxy_host ''127.0.0.1'' = Some (V4 127 0 0 1)" by (simp add: proxy_host_def trim_start_matches_def trim_end_matches_def loopback_ip)
  show "check_managed_proxy demo_parse_url ''tor_proxy'' ''socks5://127.0.0.1:9050'' = Inr ()"
    "check_managed_proxy demo_parse_url ''warp_proxy'' ''socks5://127.0.0.1:40000'' = Inr ()"
    "check_managed_proxy demo_parse_url ''tor_proxy'' ''socks5h://127.0.0.1:9050'' = Inr ()"
    "check_managed_proxy demo_parse_url ''warp_proxy'' ''socks5h://127.0.0.1:40000'' = Inr ()"
    by (simp_all add: check_managed_proxy_def validate_proxy_url_def t max_proxy_url_bytes_def
        demo_parse_url_def h socket_addr_new_def Let_def)
qed

lemma demo_loopback_host: "is_loopback_host ''127.0.0.1''"
proof -
  show ?thesis by (simp add: is_loopback_host_def bracketed_def strip_prefix_char_def loopback_ip)
qed

lemma demo_config_paths: "components ''/run/xanhtab-session'' = [RootDir, Normal ''run'', Normal ''xanhtab-session'']"
  "components ''/run/xanhtab/pairing.txt'' = [RootDir, Normal ''run'', Normal ''xanhtab'', Normal ''pairing.txt'']"
  "components ''/run/xanhtab/browser.sock'' = [RootDir, Normal ''run'', Normal ''xanhtab'', Normal ''browser.sock'']"
  "components ''/run/xanhtab/netd.sock'' = [RootDir, Normal ''run'', Normal ''xanhtab'', Normal ''netd.sock'']"
  "components ''/etc/xanhtab/secrets/wg0.conf'' = [RootDir, Normal ''etc'', Normal ''xanhtab'', Normal ''secrets'', Normal ''wg0.conf'']"
  "components ''/etc/xanhtab/secrets/proxy-url'' = [RootDir, Normal ''etc'', Normal ''xanhtab'', Normal ''secrets'', Normal ''proxy-url'']"
  "components ''/usr/share/xanhtab/web'' = [RootDir, Normal ''usr'', Normal ''share'', Normal ''xanhtab'', Normal ''web'']"
  "components ''/usr/local/libexec/xanhtab-browser'' = [RootDir, Normal ''usr'', Normal ''local'', Normal ''libexec'', Normal ''xanhtab-browser'']"
  "components ''/run'' = [RootDir, Normal ''run'']"
  by (simp_all add: components_def is_absolute_def Let_def List.map_filter_def)

lemma default_config_valid: "validate_config demo_parse_url default_config = Inr ()"
proof -
  have e: "parse_socket_addr ''127.0.0.1:1080'' \<noteq> None" by (simp add: loopback_sockets)
  have s: "file_stem ''wg0.conf'' = ''wg0''" by (simp add: file_stem_def rsplit_once_def)
  let ?u = "\<lparr>url_str = ''http://127.0.0.1:8088'', url_scheme = ''http'', url_host_str = Some ''127.0.0.1'',
        url_port_or_known_default = Some 8088, url_path = ''/'', url_query = None, url_fragment = None,
        url_username = [], url_password = None, url_origin = ''http://127.0.0.1:8088''\<rparr>"
  have p: "demo_parse_url ''http://127.0.0.1:8088'' = Some ?u" by (simp add: demo_parse_url_def)
  have 1: "check_public_url default_server ?u = Inr ()"
    by (simp add: check_public_url_def http_scheme_def bare_origin_def default_server_def absolute_if_some_def)
  have 2: "normalize_origins demo_parse_url [''http://127.0.0.1:8088''] = Inr [''http://127.0.0.1:8088'']"
    by (simp add: p http_scheme_def bare_origin_def)
  have 3: "check_mode default_config ?u [''http://127.0.0.1:8088''] = Inr ()"
    by (simp add: check_mode_def default_config_def default_server_def socket_addr_new_def demo_loopback_host)
  have 4: "check_lifetimes default_config = Inr ()"
    by (simp add: check_lifetimes_def default_config_def default_session_def default_browser_def
        default_network_def default_server_def Let_def)
  have 5: "check_paths default_config = Inr ()"
    by (simp add: check_paths_def default_config_def default_session_def default_browser_def
        default_network_def default_server_def Let_def is_normalized_absolute_def demo_config_paths is_absolute_def)
  have i: "demo_parse_url ''xanhtab://home'' \<noteq> None" by (simp add: demo_parse_url_def)
  have 6: "check_network demo_parse_url default_config = Inr ()"
    using e by (simp add: check_network_def default_config_def default_session_def default_network_def
        Let_def i demo_managed is_normalized_absolute_def demo_config_paths is_absolute_def path_file_stem_def s)
  have 7: "check_signaling demo_parse_url default_signaling = Inr ()"
    by (simp add: check_signaling_def default_signaling_def demo_parse_url_def Let_def is_absolute_def
        absolute_if_some_def demo_loopback_host)
  show ?thesis
    unfolding validate_config_ok
    using 1 2 3 4 5 6 7 p by (auto simp: default_config_def default_server_def)
qed

definition installed_config :: config where
  "installed_config = default_config
     \<lparr>cf_server := \<lparr>sv_listen = socket_addr_new (V4 0 0 0 0) 8443,
        sv_public_base_url = ''https://xanhtab.local:8443'',
        sv_static_dir = ''/usr/share/xanhtab/web'',
        sv_tls_cert = Some ''/etc/xanhtab/tls/server.crt'',
        sv_tls_key = Some ''/etc/xanhtab/tls/server.key'', sv_secure_cookies = True,
        sv_allow_insecure_http = False, sv_allowed_origins = [''https://xanhtab.local:8443'']\<rparr>,
      cf_browser := default_browser\<lparr>bc_enabled := True\<rparr>,
      cf_signaling := default_signaling\<lparr>sg_enabled := True\<rparr>,
      cf_network := default_network\<lparr>nw_enabled := True, nw_ipc_timeout_seconds := 10,
        nw_control_uid := Some 987, nw_tor_proxy := ''socks5h://127.0.0.1:9050'',
        nw_warp_proxy := ''socks5h://127.0.0.1:40000''\<rparr>\<rparr>"

lemma installed_config_valid: "validate_config demo_parse_url installed_config = Inr ()"
proof -
  let ?c = installed_config
  have e: "parse_socket_addr ''127.0.0.1:1080'' \<noteq> None" by (simp add: loopback_sockets)
  have s: "file_stem ''wg0.conf'' = ''wg0''" by (simp add: file_stem_def rsplit_once_def)
  let ?u = "\<lparr>url_str = ''https://xanhtab.local:8443'', url_scheme = ''https'', url_host_str = Some ''xanhtab.local'',
        url_port_or_known_default = Some 8443, url_path = ''/'', url_query = None, url_fragment = None,
        url_username = [], url_password = None, url_origin = ''https://xanhtab.local:8443''\<rparr>"
  have p: "demo_parse_url ''https://xanhtab.local:8443'' = Some ?u" by (simp add: demo_parse_url_def)
  have 1: "check_public_url (cf_server ?c) ?u = Inr ()"
    by (simp add: check_public_url_def http_scheme_def bare_origin_def installed_config_def
        absolute_if_some_def is_absolute_def)
  have 2: "normalize_origins demo_parse_url [''https://xanhtab.local:8443''] = Inr [''https://xanhtab.local:8443'']"
    by (simp add: p http_scheme_def bare_origin_def)
  have 3: "check_mode ?c ?u [''https://xanhtab.local:8443''] = Inr ()"
    by (simp add: check_mode_def installed_config_def)
  have 4: "check_lifetimes ?c = Inr ()"
    by (simp add: check_lifetimes_def installed_config_def default_config_def default_session_def
        default_browser_def default_network_def Let_def)
  have 5: "check_paths ?c = Inr ()"
    by (simp add: check_paths_def installed_config_def default_config_def default_session_def
        default_browser_def default_network_def Let_def is_normalized_absolute_def
        demo_config_paths is_absolute_def path_starts_with_def)
  have i: "demo_parse_url ''xanhtab://home'' \<noteq> None" by (simp add: demo_parse_url_def)
  have 6: "check_network demo_parse_url ?c = Inr ()"
    using e by (simp add: check_network_def installed_config_def default_config_def default_session_def
        default_network_def Let_def i demo_managed is_normalized_absolute_def demo_config_paths
        is_absolute_def path_file_stem_def s)
  have 7: "check_signaling demo_parse_url (cf_signaling ?c) = Inr ()"
    by (simp add: check_signaling_def installed_config_def default_signaling_def demo_parse_url_def
        Let_def is_absolute_def absolute_if_some_def demo_loopback_host)
  show ?thesis
    unfolding validate_config_ok
    using 1 2 3 4 5 6 7 p by (auto simp: installed_config_def)
qed

section \<open>Properties\<close>

text \<open>
  A configuration that passes validation outside development mode is closed: it serves TLS
  with its own certificate and key, keeps cookies secure, runs all three real backends, accepts
  only https origins, relays signaling to loopback only, runs the browser under a user that is
  neither root nor the control user, and keeps its runtime directory, pairing file and both
  sockets strictly under \<open>/run\<close> with no \<open>..\<close> to leave it.
\<close>

theorem validated_production_is_closed:
  assumes "validate_config parse_url c = Inr ()" and "\<not> sv_allow_insecure_http (cf_server c)"
  shows "sv_tls_cert (cf_server c) \<noteq> None \<and> sv_tls_key (cf_server c) \<noteq> None \<and>
    sv_secure_cookies (cf_server c) \<and> bc_enabled (cf_browser c) \<and> nw_enabled (cf_network c) \<and>
    sg_enabled (cf_signaling c) \<and>
    (\<forall>origin \<in> set (sv_allowed_origins (cf_server c)).
       \<exists>u. parse_url origin = Some u \<and> prefix ''https://'' (url_origin u)) \<and>
    (\<exists>u host. parse_url (sg_upstream_uri (cf_signaling c)) = Some u \<and>
       url_host_str u = Some host \<and> is_loopback_host host) \<and>
    (\<exists>uid. nw_control_uid (cf_network c) = Some uid \<and> distinct [0, uid, nw_browser_uid (cf_network c)]) \<and>
    (\<forall>p \<in> {sc_runtime_dir (cf_session c), sc_pairing_file (cf_session c), bc_socket (cf_browser c),
          nw_netd_socket (cf_network c)}.
       \<exists>names. components p = RootDir # Normal ''run'' # names \<and> ParentDir \<notin> set names)"
proof -
  from assms(1) obtain u os where o: "normalize_origins parse_url (sv_allowed_origins (cf_server c)) = Inr os"
    and m: "check_mode c u os = Inr ()" and pu: "check_public_url (cf_server c) u = Inr ()"
    and l: "check_lifetimes c = Inr ()" and p: "check_paths c = Inr ()"
    and sg: "check_signaling parse_url (cf_signaling c) = Inr ()"
    unfolding validate_config_ok by blast
  have tls: "sv_tls_cert (cf_server c) \<noteq> None \<and> sv_tls_key (cf_server c) \<noteq> None"
    using pu assms(2) by (simp add: check_public_url_def)
  have mode: "sv_secure_cookies (cf_server c)" "bc_enabled (cf_browser c)" "nw_enabled (cf_network c)"
    "sg_enabled (cf_signaling c)" "list_all (prefix ''https://'') os"
    using m assms(2) by (simp_all add: check_mode_def)
  have origins: "\<exists>u. parse_url origin = Some u \<and> prefix ''https://'' (url_origin u)"
    if "origin \<in> set (sv_allowed_origins (cf_server c))" for origin
    using normalize_origins_scheme [OF o] mode(5) that
    by (fastforce simp: list_all2_conv_all_nth in_set_conv_nth list_all_iff)
  have up: "\<exists>u host. parse_url (sg_upstream_uri (cf_signaling c)) = Some u \<and>
       url_host_str u = Some host \<and> is_loopback_host host"
    using sg mode(4) by (auto simp: check_signaling_def split: option.splits if_splits)
  have uid: "\<exists>uid. nw_control_uid (cf_network c) = Some uid \<and> distinct [0, uid, nw_browser_uid (cf_network c)]"
    using l assms(2) by (auto simp: check_lifetimes_def Let_def split: option.splits)
  have paths: "\<exists>names. components p = RootDir # Normal ''run'' # names \<and> ParentDir \<notin> set names"
    if "p \<in> {sc_runtime_dir (cf_session c), sc_pairing_file (cf_session c), bc_socket (cf_browser c),
          nw_netd_socket (cf_network c)}" for p
  proof -
    have "is_normalized_absolute p" "path_starts_with p ''/run''"
      using that \<open>check_paths c = Inr ()\<close> assms(2) by (auto simp: check_paths_def Let_def)
    then show ?thesis
      by (auto simp: is_normalized_absolute_def path_starts_with_def demo_config_paths prefix_def
          list_all_iff split: path_component.splits)
  qed
  from tls mode(1-4) origins up uid paths show ?thesis by blast
qed

theorem validated_production_is_closed_witness:
  "sv_tls_cert (cf_server installed_config) \<noteq> None \<and>
   (\<exists>names. components (sc_runtime_dir (cf_session installed_config)) = RootDir # Normal ''run'' # names)"
proof -
  have "\<not> sv_allow_insecure_http (cf_server installed_config)" by (simp add: installed_config_def)
  from validated_production_is_closed [OF installed_config_valid this] show ?thesis by blast
qed

text \<open>
  Whatever the mode, a validated configuration stays inside its limits: development mode
  listens and publishes on loopback only, sessions last at least five minutes and tickets between
  one second and five minutes, every backend timeout is one to thirty seconds, and the runtime
  directory is never one that the cleanup would refuse to clear.
\<close>

theorem validated_config_in_limits:
  assumes "validate_config parse_url c = Inr ()"
  shows "(sv_allow_insecure_http (cf_server c) \<longrightarrow> is_loopback (sa_ip (sv_listen (cf_server c)))) \<and>
    300000000000 \<le> auth_ttl c \<and> ticket_ttl c \<in> {1000000000..300000000000} \<and>
    (\<forall>t \<in> {bc_stop_timeout_seconds (cf_browser c), bc_ipc_timeout_seconds (cf_browser c),
         nw_ipc_timeout_seconds (cf_network c)}. unat t \<in> {1..30}) \<and>
    \<not> unsafe_runtime_path (sc_runtime_dir (cf_session c))"
proof -
  have le: "unat a \<le> unat b" if "a \<le> b" for a b :: u64 using that by (simp add: word_le_nat_alt)
  from assms obtain u os where m: "check_mode c u os = Inr ()" and l: "check_lifetimes c = Inr ()"
    and p: "check_paths c = Inr ()"
    unfolding validate_config_ok by blast
  have "is_loopback (sa_ip (sv_listen (cf_server c)))" if "sv_allow_insecure_http (cf_server c)"
    using m that by (simp add: check_mode_def)
  moreover have "300 \<le> unat (sc_auth_ttl_seconds (cf_session c))"
    using l le [of 300 "sc_auth_ttl_seconds (cf_session c)"] by (simp add: check_lifetimes_def Let_def)
  moreover have "unat (sc_ticket_ttl_seconds (cf_session c)) \<in> {1..300}"
    using l le [of "sc_ticket_ttl_seconds (cf_session c)" 300] unat_eq_0
    by (auto simp: check_lifetimes_def Let_def not_less Suc_le_eq unat_gt_0)
  moreover have "unat t \<in> {1..30}"
    if "t \<in> {bc_stop_timeout_seconds (cf_browser c), bc_ipc_timeout_seconds (cf_browser c),
         nw_ipc_timeout_seconds (cf_network c)}" for t
    using l le [of 1 t] le [of t 30] that by (auto simp: check_lifetimes_def Let_def)
  ultimately show ?thesis
    using check_paths_runtime [OF p] by (auto simp: auth_ttl_def ticket_ttl_def)
qed

theorem validated_config_in_limits_witness:
  "ticket_ttl installed_config \<in> {1000000000..300000000000}"
  using validated_config_in_limits [OF installed_config_valid] by blast

text \<open>
  No plan runs a shell or anything off the list: every command of every plan is one of four
  absolute programs, a script is only ever given to \<open>nft\<close>, and a validated configuration never
  makes the planner panic.
\<close>

theorem plans_use_listed_programs:
  assumes "validate_config parse_url c = Inr ()"
  shows "\<exists>plan. command_plan (cf_network c) mode = Some plan \<and>
    (\<forall>spec \<in> set (plan @ wireguard_teardown_plan (cf_network c) @ [delete_table]).
       cs_program spec \<in> {nft_program, ip_program, wg_program, wg_quick_program} \<and>
       hd (cs_program spec) = CHR ''/'' \<and> (cs_stdin spec = None \<or> cs_program spec = nft_program))"
proof -
  have pe: "parse_socket_addr (nw_proxy_endpoint (cf_network c)) \<noteq> None"
    using assms by (auto simp: validate_config_ok check_network_def Let_def)
  have t: "parse_socket_addr ''127.0.0.1:9050'' \<noteq> None" "parse_socket_addr ''127.0.0.1:40000'' \<noteq> None"
    by (simp_all add: loopback_sockets)
  have "command_plan (cf_network c) mode \<noteq> None"
    using pe t by (cases mode) (auto simp: command_plan_def Let_def active_policy_plan_def
        nft_transaction_def nft_script_def is_proxy_mode_def split: option.splits)
  then obtain plan where p: "command_plan (cf_network c) mode = Some plan" by blast
  have "\<forall>spec \<in> set plan. cs_program spec \<in> {nft_program, ip_program, wg_program, wg_quick_program} \<and>
       hd (cs_program spec) = CHR ''/'' \<and> (cs_stdin spec = None \<or> cs_program spec = nft_program)"
    using p by (cases mode) (auto simp: command_plan_def Let_def active_policy_plan_def
        nft_transaction_def nft_script_def is_proxy_mode_def kill_switch_plan_def
        wireguard_setup_plan_def plain_def add_table_def nft_program_def ip_program_def
        wg_program_def wg_quick_program_def split: option.splits if_splits)
  moreover have "\<forall>spec \<in> set (wireguard_teardown_plan (cf_network c) @ [delete_table]).
       cs_program spec \<in> {nft_program, ip_program, wg_program, wg_quick_program} \<and>
       hd (cs_program spec) = CHR ''/'' \<and> (cs_stdin spec = None \<or> cs_program spec = nft_program)"
    by (simp add: wireguard_teardown_plan_def delete_table_def plain_def nft_program_def
        ip_program_def)
  ultimately show ?thesis using p by auto
qed

theorem plans_use_listed_programs_witness:
  "\<exists>plan. command_plan default_network Tor = Some plan \<and>
     (\<Union>spec \<in> set plan. {cs_program spec}) \<subseteq> {nft_program, ip_program, wg_program, wg_quick_program}"
  using plans_use_listed_programs [OF default_config_valid, of Tor] by (auto simp: default_config_def)


end
