(* ===== verification/RemoteConfigProps.thy ===== *)
theory RemoteConfigProps
  imports RemoteConfig ConfigProps
begin

text \<open>
  What the public configuration of \<open>src/remote_config.rs\<close> can and cannot do: a reviewed directory
  holds only plain files within their limits, and merging it changes nothing but three session
  defaults of a configuration that still validates.
\<close>

section \<open>The directory\<close>

text \<open>A hosts file without a rejected word: nothing the compiler would silently drop.\<close>

definition hosts_reviewed :: "string \<Rightarrow> bool" where
  "hosts_reviewed text \<longleftrightarrow> (\<forall>l \<in> set (rust_lines text). line_content l = [] \<or>
     (line_candidates (line_content l) \<noteq> [] \<and>
      set (parse_hosts_line l) = set (map (the \<circ> normalize_domain) (line_candidates (line_content l))) \<and>
      (\<forall>c \<in> set (line_candidates (line_content l)). normalize_domain c \<noteq> None)))"

lemma add_strict_all: "add_strict cs acc = Some acc' \<Longrightarrow> \<forall>c \<in> set cs. normalize_domain c \<noteq> None"
  by (induction cs arbitrary: acc) (auto split: option.splits)

lemma validated_lines:
  "validate_lines p i ls acc = Inr n \<Longrightarrow> l \<in> set ls \<Longrightarrow> line_content l \<noteq> [] \<Longrightarrow>
     line_candidates (line_content l) \<noteq> [] \<and> (\<forall>c \<in> set (line_candidates (line_content l)). normalize_domain c \<noteq> None)"
proof (induction ls arbitrary: i acc)
  case (Cons k ls)
  show ?case
  proof (cases "l \<in> set ls")
    case True
    with Cons show ?thesis by (auto simp: Let_def split: if_splits option.splits)
  next
    case False
    with Cons.prems have "l = k" by simp
    with Cons.prems show ?thesis by (auto simp: Let_def dest: add_strict_all split: if_splits option.splits)
  qed
qed simp

lemma hosts_reviewedI: "validate_lines p i (rust_lines text) acc = Inr n \<Longrightarrow> hosts_reviewed text"
  unfolding hosts_reviewed_def
  by (auto dest!: validated_lines simp: parse_hosts_line_def map_filter_def)

text \<open>The directory itself is looked at first, and left alone when it is not one.\<close>

lemma wp_directory_guard:
  assumes "fs_target (m_fs h) dir = Some DirNode \<Longrightarrow> wp m Q h"
    and "\<And>e. Q (Inl e) h"
  shows "wp (and_then (path_is_dir dir) (\<lambda>is_dir. and_then (path_is_symlink dir) (\<lambda>link.
    if \<not> is_dir \<or> link then raise e else m))) Q h"
  using assms by (auto simp: wp_rules)

lemma validated_directory:
  assumes "validate_public_config_dir jr dir h = (Inr (), h')"
  shows "h' = h \<and> fs_target (m_fs h) dir = Some DirNode \<and>
    reviewed_slot h (join_path dir ''config.json'') (config_slot jr) \<and>
    reviewed_slot h (join_path dir ''bookmarks.json'') (bookmarks_slot jr) \<and>
    reviewed_slot h (join_path dir ''blocklist-metadata.json'') (metadata_slot jr dir) \<and>
    reviewed_slot h (join_path dir ''custom_hosts.txt'') hosts_reviewed"
proof -
  let ?slot = "\<lambda>name reader check. reviewed_slot h (join_path dir name) (\<lambda>text. \<exists>d. reader text = Some d \<and> check d = Inr ())"
  let ?A = "?slot ''config.json'' (jr_config jr) check_remote_config"
  let ?B = "?slot ''bookmarks.json'' (jr_bookmarks jr) check_bookmarks_document"
  let ?C = "?slot ''blocklist-metadata.json'' (jr_metadata jr) check_metadata_document"
  let ?D = "reviewed_slot h (join_path dir ''custom_hosts.txt'')
    (\<lambda>text. \<exists>n. validate_lines (path_text (join_path dir ''custom_hosts.txt'')) 0 (rust_lines text) [] = Inr n)"
  have "wp (validate_public_config_dir jr dir) (\<lambda>r h'. r = Inr () \<longrightarrow> h' = h \<and> fs_target (m_fs h) dir = Some DirNode \<and>
      ?A \<and> ?B \<and> ?C \<and> ?D) h"
    unfolding validate_public_config_dir_def Let_def
    by (rule wp_directory_guard, rule wp_mono [OF wp_check_then [OF validate_optional_json_spec
        wp_check_then [OF validate_optional_json_spec
          wp_check_then [OF validate_optional_json_spec validate_hosts_slot]]]]) simp_all
  from wpD [OF this assms] show ?thesis
    by (auto simp: reviewed_slot_def intro: slots hosts_reviewedI)
qed

text \<open>
  C36. A public configuration directory that passes the check is a directory in which each of
  the four files is absent or a plain file, never a link: session defaults within their limits and
  without credentials, at most 500 bookmarks with distinct identities and plain web addresses,
  sources with distinct names, checksums, secure links and file names that stay inside the
  directory, and a hosts file of which the compiler drops no word. The check changes nothing.
\<close>

theorem reviewed_directory_is_safe:
  assumes "validate_public_config_dir jr dir h = (Inr (), h')"
  shows "h' = h \<and> fs_target (m_fs h) dir = Some DirNode \<and>
    reviewed_slot h (join_path dir ''config.json'') (config_slot jr) \<and>
    reviewed_slot h (join_path dir ''bookmarks.json'') (bookmarks_slot jr) \<and>
    reviewed_slot h (join_path dir ''blocklist-metadata.json'') (metadata_slot jr dir) \<and>
    reviewed_slot h (join_path dir ''custom_hosts.txt'') hosts_reviewed"
  by (rule validated_directory [OF assms])

text \<open>A directory with session defaults and a hosts file, and readers that know those two texts.\<close>

definition public_disk :: "unit machine" where
  "public_disk = list_disk\<lparr>m_fs :=
     [([Normal ''d''], DirNode), ([Normal ''d'', Normal ''config.json''], FileNode ''c''),
      ([Normal ''d'', Normal ''custom_hosts.txt''], FileNode ''0.0.0.0 Ads.example.com # x'')]\<rparr>"

definition demo_document :: remote_document where
  "demo_document = \<lparr>rd_schema_version = 1, rd_session =
     \<lparr>rs_initial_url = None, rs_initial_profile = Some Hd15, rs_auto_burn_seconds = Some 600\<rparr>\<rparr>"

definition demo_readers :: json_readers where
  "demo_readers = \<lparr>jr_config = (\<lambda>s. if s = ''c'' then Some demo_document else None),
     jr_bookmarks = (\<lambda>_. None), jr_metadata = (\<lambda>_. None)\<rparr>"

lemma demo_joined: "join_path [Normal ''d''] ''config.json'' = [Normal ''d'', Normal ''config.json'']"
  "join_path [Normal ''d''] ''bookmarks.json'' = [Normal ''d'', Normal ''bookmarks.json'']"
  "join_path [Normal ''d''] ''blocklist-metadata.json'' = [Normal ''d'', Normal ''blocklist-metadata.json'']"
  "join_path [Normal ''d''] ''custom_hosts.txt'' = [Normal ''d'', Normal ''custom_hosts.txt'']"
  by (simp_all add: join_path_def components_def is_absolute_def Let_def List.map_filter_def)

lemma demo_document_ok: "check_remote_config demo_document = Inr ()"
  by (simp add: check_remote_config_def demo_document_def require_schema_v1_def)

lemma public_disk_simps: "m_fault public_disk = (\<lambda>_. None)"
  "fs_node (m_fs public_disk) [Normal ''d''] = Some DirNode"
  "fs_node (m_fs public_disk) [Normal ''d'', Normal ''config.json''] = Some (FileNode ''c'')"
  "fs_node (m_fs public_disk) [Normal ''d'', Normal ''custom_hosts.txt''] = Some (FileNode ''0.0.0.0 Ads.example.com # x'')"
  "fs_node (m_fs public_disk) [Normal ''d'', Normal ''bookmarks.json''] = None"
  "fs_node (m_fs public_disk) [Normal ''d'', Normal ''blocklist-metadata.json''] = None"
  by (simp_all add: public_disk_def list_disk_def fs_node_def)

lemma public_disk_valid: "\<exists>h'. validate_public_config_dir demo_readers [Normal ''d''] public_disk = (Inr (), h')"
proof -
  have "wp (validate_public_config_dir demo_readers [Normal ''d'']) (\<lambda>r h'. r = Inr ()) public_disk"
    by (simp add: validate_public_config_dir_def Let_def demo_joined validate_optional_json_def
        path_exists_without_following_def require_regular_file_def read_document_def validate_hosts_file_def
        wp_rules public_disk_simps fs_target_def demo_readers_def demo_document_ok list_disk_lines example_content
        example_candidates example_domain)
  then show ?thesis by (auto simp: wp_def split: prod.splits)
qed

theorem reviewed_directory_is_safe_witness:
  "reviewed_slot public_disk [Normal ''d'', Normal ''custom_hosts.txt''] hosts_reviewed"
proof -
  obtain h' where "validate_public_config_dir demo_readers [Normal ''d''] public_disk = (Inr (), h')"
    using public_disk_valid by blast
  from reviewed_directory_is_safe [OF this] show ?thesis by (simp add: demo_joined)
qed

section \<open>The session defaults\<close>

lemma applied_config:
  "wp (apply_public_config_file parse_url jr c p) (\<lambda>r h'. \<forall>c'. r = Inr c' \<longrightarrow> h' = h \<and>
      validate_config parse_url c' = Inr () \<and>
      (\<exists>d. c' = with_session_defaults (rd_session d) c \<and> check_remote_config d = Inr ())) h"
  unfolding apply_public_config_file_def require_regular_file_def read_document_def Let_def
  by (auto simp: wp_rules split: option.splits fnode.splits sum.splits)


lemma demo_defaults_valid:
  "validate_config demo_parse_url (with_session_defaults (rd_session demo_document) default_config) = Inr ()"
proof -
  let ?c = "with_session_defaults (rd_session demo_document) default_config"
  have c: "?c = default_config\<lparr>cf_session := (cf_session default_config)\<lparr>sc_initial_profile := Hd15,
      sc_auto_burn_seconds := 600\<rparr>\<rparr>"
    by (simp add: with_session_defaults_def demo_document_def Let_def)
  show ?thesis
    using default_config_valid unfolding c validate_config_ok
    by (auto simp: check_mode_def check_lifetimes_def check_paths_def check_network_def Let_def default_config_def default_session_def)
qed


end
