(* ===== verification/BrowserHelper.thy ===== *)
theory BrowserHelper
  imports EgressPolicy Backend
begin

text \<open>
  \<open>src/bin/xanhtab-browser.rs\<close>: the helper that runs the browser pipeline, one \<open>gst-launch\<close> child
  at a time. It is a single loop over connections, so its state is one \<open>pipeline\<close>. The child is
  the operating system's: the world says, for the n-th step, whether it could be spawned, whether
  a killed one was reaped before the deadline, and what the proxy secret then holds. The only
  place a command waits is the reaping in \<open>stop\<close>; a deadline there drops the future, and with it
  the child, which is killed on drop.
\<close>

section \<open>State\<close>

datatype browser_command =
    StartBrowser uuid url stream_profile egress_mode
  | NavigateBrowser navigation_command
  | StopBrowser

record browser_response =
  bs_ok :: bool
  bs_detail :: string

record browser_args =
  ba_gst_launch :: string
  ba_dry_run :: bool
  ba_internal_home_file :: string
  ba_signaling_host :: string
  ba_signaling_port :: u16
  ba_public_stun :: bool
  ba_proxy_url_file :: string
  ba_from_file_path :: "string \<Rightarrow> url option"
  ba_parse_url :: "string \<Rightarrow> url option"

text \<open>A running child: its program and arguments, and the value of its three proxy variables.\<close>

record child =
  ch_program :: string
  ch_args :: "string list"
  ch_proxy :: "string option"

record pipeline =
  pl_child :: "child option"
  pl_session_id :: "uuid option"
  pl_profile :: stream_profile
  pl_egress :: egress_mode
  pl_history :: "url list"
  pl_position :: nat

record browser_world =
  bw_pipeline :: pipeline
  bw_steps :: nat
  bw_spawns :: "nat \<Rightarrow> bool"
  bw_reaped :: "nat \<Rightarrow> bool"
  bw_proxy_secret :: "nat \<Rightarrow> string option"

type_synonym 'a pipe_op = "(browser_world, helper_error, 'a) op"

definition pipeline_default :: pipeline where
  "pipeline_default = \<lparr>pl_child = None, pl_session_id = None, pl_profile = FullHd30,
     pl_egress = Direct, pl_history = [], pl_position = 0\<rparr>"

definition update_pipeline :: "(pipeline \<Rightarrow> pipeline) \<Rightarrow> unit pipe_op" where
  "update_pipeline f = modify (\<lambda>w. w\<lparr>bw_pipeline := f (bw_pipeline w)\<rparr>)"

definition next_step :: "(browser_world \<Rightarrow> nat \<Rightarrow> 'a) \<Rightarrow> 'a pipe_op" where
  "next_step f w = (Inr (f w (bw_steps w)), w\<lparr>bw_steps := Suc (bw_steps w)\<rparr>)"

section \<open>The pipeline's command line\<close>

definition bitrate :: "stream_profile \<Rightarrow> nat" where
  "bitrate p = (case p of FullHd30 \<Rightarrow> 6000000 | Hd15 \<Rightarrow> 3000000 | Sd10 \<Rightarrow> 1200000)"

definition signaling_is_loopback :: "string \<Rightarrow> bool" where
  "signaling_is_loopback host \<longleftrightarrow> host = ''localhost'' \<or>
     (case parse_ip_addr host of None \<Rightarrow> False | Some ip \<Rightarrow> is_loopback ip)"

definition video_caps :: "stream_profile \<Rightarrow> string" where
  "video_caps p = (case dimensions p of (width, height, fps) \<Rightarrow>
     ''video/x-raw,format=I420,width='' @ show_nat (unat width) @ '',height='' @
     show_nat (unat height) @ '',framerate='' @ show_nat (unat fps) @ ''/1'')"

definition pipeline_args ::
  "url \<Rightarrow> stream_profile \<Rightarrow> egress_mode \<Rightarrow> string \<Rightarrow> u16 \<Rightarrow> bool \<Rightarrow> string + string list" where
  "pipeline_args u profile egress host port public_stun =
     (if url_scheme u \<notin> {''http'', ''https'', ''file''} then Inl ''unsupported browser URL scheme''
      else if \<not> signaling_is_loopback host \<or> port = 0
      then Inl ''embedded signaling server must bind a loopback host and non-zero port''
      else Inr
        ([''-e'', ''wpesrc'', ''name=web'', ''location='' @ url_str u, ''web.video'', ''!'', ''queue'',
          ''leaky=downstream'', ''max-size-buffers=2'', ''!'', ''gldownload'', ''!'',
          ''videoconvert'', ''!'', video_caps profile, ''!'', ''v4l2h264enc'',
          ''extra-controls=controls,video_bitrate='' @ show_nat (bitrate profile), ''!'',
          ''h264parse'', ''config-interval=-1'', ''!'', ''video/x-h264,profile=baseline'', ''!'',
          ''webrtcsink'', ''name=rtc'', ''enable-control-data-channel=true'',
          ''run-signalling-server=true'', ''signalling-server-host='' @ host,
          ''signalling-server-port='' @ show_nat (unat port), ''run-web-server=false'',
          ''meta=meta,name=xanhtab'', ''web.audio_0'', ''!'', ''queue'', ''!'', ''audioconvert'',
          ''!'', ''audioresample'', ''!'', ''opusenc'', ''bitrate=64000'', ''!'', ''rtc.''] @
         (if \<not> public_stun then [''stun-server=''] else [])))"

definition resolve_location :: "browser_args \<Rightarrow> url \<Rightarrow> string + url" where
  "resolve_location args u =
     (if url_scheme u \<noteq> ''xanhtab'' then Inr u
      else if url_host_str u \<noteq> Some ''home'' then Inl ''unsupported internal XanhTab route''
      else case ba_from_file_path args (ba_internal_home_file args) of
             None \<Rightarrow> Inl ''internal home path must be absolute''
           | Some location \<Rightarrow> Inr location)"

text \<open>The secret's path is \<open>XANHTAB_PROXY_URL_FILE\<close> or its default, resolved in \<open>browser_args\<close>.\<close>

definition proxy_for :: "browser_args \<Rightarrow> egress_mode \<Rightarrow> string option pipe_op" where
  "proxy_for args mode =
     (case mode of
        Tor \<Rightarrow> ret (Some ''socks5h://127.0.0.1:9050'')
      | Warp \<Rightarrow> ret (Some ''socks5h://127.0.0.1:40000'')
      | Proxy \<Rightarrow>
          and_then (next_step bw_proxy_secret) (\<lambda>secret.
            case secret of
              None \<Rightarrow> raise (Failure (''failed to read '' @ ba_proxy_url_file args))
            | Some raw \<Rightarrow>
                and_then (fallible (validate_proxy_url (ba_parse_url args) raw True)) (\<lambda>p.
                  ret (Some (url_str (vp_url p)))))
      | _ \<Rightarrow> ret None)"

section \<open>Commands\<close>

definition stop_pipeline :: "unit pipe_op" where
  "stop_pipeline =
     and_then (gets (\<lambda>w. pl_child (bw_pipeline w))) (\<lambda>child.
       case child of
         None \<Rightarrow> ret ()
       | Some _ \<Rightarrow>
           and_then (update_pipeline (\<lambda>p. p\<lparr>pl_child := None\<rparr>)) (\<lambda>_.
           and_then (next_step bw_reaped) (\<lambda>reaped. if reaped then ret () else raise Dropped)))"

definition spawn_pipeline :: "browser_args \<Rightarrow> url \<Rightarrow> unit pipe_op" where
  "spawn_pipeline args u =
     and_then (fallible (resolve_location args u)) (\<lambda>location.
     and_then (gets bw_pipeline) (\<lambda>p.
     and_then (fallible (pipeline_args location (pl_profile p) (pl_egress p)
         (ba_signaling_host args) (ba_signaling_port args) (ba_public_stun args))) (\<lambda>gst_args.
       if ba_dry_run args then ret ()
       else
         and_then (proxy_for args (pl_egress p)) (\<lambda>proxy.
         and_then (next_step bw_spawns) (\<lambda>spawned.
           if spawned
           then update_pipeline (\<lambda>p. p\<lparr>pl_child := Some \<lparr>ch_program = ba_gst_launch args,
                  ch_args = gst_args, ch_proxy = proxy\<rparr>\<rparr>)
           else raise (Failure ''failed to launch GStreamer pipeline''))))))"

definition history_at :: "pipeline \<Rightarrow> url pipe_op" where
  "history_at p = (if pl_position p < length (pl_history p)
     then ret (pl_history p ! pl_position p) else raise Panicked)"

definition move_to :: "(nat \<Rightarrow> nat) \<Rightarrow> url option pipe_op" where
  "move_to f =
     and_then (update_pipeline (\<lambda>p. p\<lparr>pl_position := f (pl_position p)\<rparr>)) (\<lambda>_.
     and_then (gets bw_pipeline) (\<lambda>p.
     and_then (history_at p) (\<lambda>u. ret (Some u))))"

definition visit :: "url \<Rightarrow> pipeline \<Rightarrow> pipeline" where
  "visit u p = (let history = take (pl_position p + 1) (pl_history p) @ [u]
     in p\<lparr>pl_history := history, pl_position := length history - 1\<rparr>)"

definition next_page :: "navigation_command \<Rightarrow> url option pipe_op" where
  "next_page navigation =
     and_then (gets bw_pipeline) (\<lambda>p.
       case navigation of
         Navigate u \<Rightarrow> and_then (update_pipeline (visit u)) (\<lambda>_. ret (Some u))
       | Back \<Rightarrow> if 0 < pl_position p then move_to (\<lambda>n. n - 1) else ret None
       | Forward \<Rightarrow>
           if pl_position p + 1 < length (pl_history p) then move_to (\<lambda>n. n + 1) else ret None
       | Reload \<Rightarrow> ret (if pl_position p < length (pl_history p)
           then Some (pl_history p ! pl_position p) else None)
       | Stop \<Rightarrow> and_then stop_pipeline (\<lambda>_. ret None))"

definition apply_command :: "browser_args \<Rightarrow> browser_command \<Rightarrow> unit pipe_op" where
  "apply_command args command =
     (case command of
        StartBrowser session_id u profile egress \<Rightarrow>
          and_then stop_pipeline (\<lambda>_.
          and_then (update_pipeline (\<lambda>p. p\<lparr>pl_session_id := Some session_id, pl_profile := profile,
              pl_egress := egress, pl_history := [u], pl_position := 0\<rparr>)) (\<lambda>_.
            spawn_pipeline args u))
      | NavigateBrowser navigation \<Rightarrow>
          and_then (next_page navigation) (\<lambda>page.
            case page of
              None \<Rightarrow> ret ()
            | Some u \<Rightarrow> and_then stop_pipeline (\<lambda>_. spawn_pipeline args u))
      | StopBrowser \<Rightarrow> stop_pipeline)"

section \<open>Connections\<close>

definition browser_reply :: "bool \<Rightarrow> string \<Rightarrow> browser_response" where
  "browser_reply ok_flag detail = \<lparr>bs_ok = ok_flag, bs_detail = detail\<rparr>"

text \<open>
  One command under its deadline. When it passes, the pipeline is stopped once more, under a
  deadline of its own whose outcome is ignored, and forgotten.
\<close>

definition run_command_within :: "browser_args \<Rightarrow> browser_command \<Rightarrow> browser_response pipe_op" where
  "run_command_within args command w =
     (case apply_command args command w of
        (Inr _, w') \<Rightarrow> (Inr (browser_reply True ''browser command applied''), w')
      | (Inl (Failure e), w') \<Rightarrow> (Inr (browser_reply False e), w')
      | (Inl Dropped, w') \<Rightarrow>
          (Inr (browser_reply False ''browser command timed out''),
           (snd (stop_pipeline w'))\<lparr>bw_pipeline := pipeline_default\<rparr>)
      | (Inl Panicked, w') \<Rightarrow> (Inl Panicked, w'))"

text \<open>
  The line read from the connection, or why none was, and the command in it, or why it is not one.
\<close>

definition handle_connection ::
  "browser_args \<Rightarrow> string + (string + browser_command) \<Rightarrow> browser_response pipe_op" where
  "handle_connection args line =
     and_then (fallible line) (\<lambda>parsed.
       case parsed of
         Inl e \<Rightarrow> ret (browser_reply False (''invalid browser command: '' @ e))
       | Inr command \<Rightarrow> run_command_within args command)"

text \<open>
  The stdin mode of the hardware gate: the first line that is no command, that fails or that times
  out ends it without a last stop; its child dies with the process.
\<close>

fun run_stdio :: "browser_args \<Rightarrow> (string + browser_command) list \<Rightarrow> unit pipe_op" where
  "run_stdio args [] = stop_pipeline"
| "run_stdio args (Inl _ # rest) = raise (Failure ''invalid bridge command'')"
| "run_stdio args (Inr command # rest) =
     and_then (apply_command args command) (\<lambda>_. run_stdio args rest)"

section \<open>Facts\<close>

lemma wp_update_pipeline [wp_rules]:
  "wp (update_pipeline f) Q w = Q (Inr ()) (w\<lparr>bw_pipeline := f (bw_pipeline w)\<rparr>)"
  by (simp add: update_pipeline_def wp_rules)

lemma wp_next_step [wp_rules]:
  "wp (next_step f) Q w = Q (Inr (f w (bw_steps w))) (w\<lparr>bw_steps := Suc (bw_steps w)\<rparr>)"
  by (simp add: wp_def next_step_def)

lemma wp_fallible [wp_rules]:
  "wp (fallible r) Q w = (case r of Inl e \<Rightarrow> Q (Inl (Failure e)) w | Inr a \<Rightarrow> Q (Inr a) w)"
  by (cases r) (simp_all add: wp_rules)

lemma stop_pipeline_spec:
  "wp stop_pipeline (\<lambda>r w'. bw_pipeline w' = (bw_pipeline w)\<lparr>pl_child := None\<rparr> \<and>
     (r = Inr () \<or> r = Inl Dropped)) w"
  by (auto simp: stop_pipeline_def wp_rules split: option.splits)

text \<open>What the proxy variables of a child may be, by mode.\<close>

definition proxy_matches :: "browser_args \<Rightarrow> egress_mode \<Rightarrow> string option \<Rightarrow> bool" where
  "proxy_matches args mode px =
     (case mode of
        Tor \<Rightarrow> px = Some ''socks5h://127.0.0.1:9050''
      | Warp \<Rightarrow> px = Some ''socks5h://127.0.0.1:40000''
      | Proxy \<Rightarrow> (\<exists>raw p. validate_proxy_url (ba_parse_url args) raw True = Inr p \<and>
          px = Some (url_str (vp_url p)))
      | _ \<Rightarrow> px = None)"

text \<open>The child for a page: its command line and environment are the current settings'.\<close>

definition child_for :: "browser_args \<Rightarrow> pipeline \<Rightarrow> url \<Rightarrow> child \<Rightarrow> bool" where
  "child_for args p u ch \<longleftrightarrow> ch_program ch = ba_gst_launch args \<and> \<not> ba_dry_run args \<and>
     (\<exists>location. resolve_location args u = Inr location \<and>
        pipeline_args location (pl_profile p) (pl_egress p) (ba_signaling_host args)
          (ba_signaling_port args) (ba_public_stun args) = Inr (ch_args ch)) \<and>
     proxy_matches args (pl_egress p) (ch_proxy ch)"

lemma proxy_for_spec:
  "wp (proxy_for args mode) (\<lambda>r w'. bw_pipeline w' = bw_pipeline w \<and>
     (case r of Inr px \<Rightarrow> proxy_matches args mode px | Inl x \<Rightarrow> x \<in> range Failure)) w"
  by (cases mode) (auto simp: proxy_for_def proxy_matches_def wp_rules split: option.splits sum.splits)

lemma spawn_pipeline_spec:
  "wp (spawn_pipeline args u) (\<lambda>r w'. case r of
       Inl x \<Rightarrow> x \<in> range Failure \<and> bw_pipeline w' = bw_pipeline w
     | Inr _ \<Rightarrow>
         if ba_dry_run args then bw_pipeline w' = bw_pipeline w
         else \<exists>ch. bw_pipeline w' = (bw_pipeline w)\<lparr>pl_child := Some ch\<rparr> \<and> child_for args (bw_pipeline w) u ch) w"
  unfolding spawn_pipeline_def
  by (auto simp: wp_rules child_for_def intro!: wp_mono [OF proxy_for_spec] split: sum.splits)
    (intro exI conjI, rule refl, simp_all)

text \<open>The position points into the history, and the child shows the page it points to.\<close>

definition pipe_inv :: "browser_args \<Rightarrow> pipeline \<Rightarrow> bool" where
  "pipe_inv args p \<longleftrightarrow>
     (if pl_history p = [] then pl_position p = 0 \<and> pl_child p = None
      else pl_position p < length (pl_history p)) \<and>
     (\<forall>ch. pl_child p = Some ch \<longrightarrow> child_for args p (pl_history p ! pl_position p) ch)"

lemma pipe_inv_default [simp]: "pipe_inv args pipeline_default"
  by (simp add: pipe_inv_def pipeline_default_def)

lemma pipe_inv_stopped: "pipe_inv args p \<Longrightarrow> pipe_inv args (p\<lparr>pl_child := None\<rparr>)"
  by (simp add: pipe_inv_def)

text \<open>\<open>stop\<close> and then \<open>spawn\<close>: no child, or the right one.\<close>

lemma respawn_spec:
  assumes "pl_history p \<noteq> []" and "pl_position p < length (pl_history p)"
    and "u = pl_history p ! pl_position p" and "bw_pipeline w = p\<lparr>pl_child := None\<rparr>"
  shows "wp (spawn_pipeline args u) (\<lambda>r w'. pipe_inv args (bw_pipeline w') \<and> r \<noteq> Inl Panicked \<and>
     r \<noteq> Inl Dropped \<and> (\<exists>c. bw_pipeline w' = p\<lparr>pl_child := c\<rparr> \<and>
       (c = None \<longleftrightarrow> ba_dry_run args \<or> r \<noteq> Inr ()))) w"
  by (rule wp_mono [OF spawn_pipeline_spec])
    (use assms in \<open>auto simp: pipe_inv_def child_for_def split: sum.splits if_splits\<close>)


lemma stop_then_spec:
  assumes "\<And>w'. bw_pipeline w' = (bw_pipeline w)\<lparr>pl_child := None\<rparr> \<Longrightarrow> wp m Q w'"
    and "\<And>w'. bw_pipeline w' = (bw_pipeline w)\<lparr>pl_child := None\<rparr> \<Longrightarrow> Q (Inl Dropped) w'"
  shows "wp (and_then stop_pipeline (\<lambda>_. m)) Q w"
  using stop_pipeline_spec [of w] assms
  by (auto simp: wp_and_then intro: wp_mono split: sum.splits)

section \<open>The history\<close>

text \<open>
  The abstract history of a browser: the pages behind (the nearest first), the page shown, and the
  pages ahead. \<open>Stop\<close> and a move past either end leave it alone.
\<close>

type_synonym trail = "url list \<times> url \<times> url list"

fun trail_step :: "navigation_command \<Rightarrow> trail \<Rightarrow> trail" where
  "trail_step (Navigate u) (back, page, ahead) = (page # back, u, [])"
| "trail_step Back (b # back, page, ahead) = (back, b, page # ahead)"
| "trail_step Forward (back, page, a # ahead) = (page # back, a, ahead)"
| "trail_step _ t = t"

definition trail_of :: "pipeline \<Rightarrow> trail option" where
  "trail_of p =
     (if pl_position p < length (pl_history p)
      then Some (rev (take (pl_position p) (pl_history p)), pl_history p ! pl_position p,
        drop (Suc (pl_position p)) (pl_history p))
      else None)"

lemma trail_visit: "trail_of p = Some t \<Longrightarrow> trail_of (visit u p) = Some (trail_step (Navigate u) t)"
  by (cases t) (auto simp: trail_of_def visit_def Let_def take_Suc_conv_app_nth nth_append
      split: if_splits)

lemma trail_back:
  assumes "trail_of p = Some t" and "0 < pl_position p"
  shows "trail_of (p\<lparr>pl_position := pl_position p - 1\<rparr>) = Some (trail_step Back t)"
proof -
  obtain n where n: "pl_position p = Suc n" using assms(2) gr0_implies_Suc by blast
  with assms(1) show ?thesis
    by (auto simp: trail_of_def take_Suc_conv_app_nth Cons_nth_drop_Suc split: if_splits)
qed

lemma trail_forward:
  assumes "trail_of p = Some t" and "pl_position p + 1 < length (pl_history p)"
  shows "trail_of (p\<lparr>pl_position := pl_position p + 1\<rparr>) = Some (trail_step Forward t)"
proof -
  have "drop (Suc (pl_position p)) (pl_history p) =
      pl_history p ! Suc (pl_position p) # drop (Suc (Suc (pl_position p))) (pl_history p)"
    using assms(2) by (simp add: Cons_nth_drop_Suc)
  with assms show ?thesis
    by (auto simp: trail_of_def take_Suc_conv_app_nth split: if_splits)
qed

lemma trail_end:
  "trail_of p = Some t \<Longrightarrow> pl_position p = 0 \<Longrightarrow> trail_step Back t = t"
  "trail_of p = Some t \<Longrightarrow> \<not> pl_position p + 1 < length (pl_history p) \<Longrightarrow> trail_step Forward t = t"
  by (auto simp: trail_of_def split: if_splits)

definition trail_after :: "navigation_command \<Rightarrow> trail option \<Rightarrow> trail option" where
  "trail_after nav t =
     (case t of
        Some t \<Rightarrow> Some (trail_step nav t)
      | None \<Rightarrow> (case nav of Navigate u \<Rightarrow> Some ([], u, []) | _ \<Rightarrow> None))"

text \<open>The parts of a pipeline navigation does not touch.\<close>

definition same_settings :: "pipeline \<Rightarrow> pipeline \<Rightarrow> bool" where
  "same_settings p q \<longleftrightarrow> pl_session_id q = pl_session_id p \<and> pl_profile q = pl_profile p \<and>
     pl_egress q = pl_egress p"

definition placed :: "pipeline \<Rightarrow> bool" where
  "placed p \<longleftrightarrow> (if pl_history p = [] then pl_position p = 0 else pl_position p < length (pl_history p))"

lemma placed_trail: "placed p \<Longrightarrow> trail_of p = None \<longleftrightarrow> pl_history p = []"
  by (auto simp: placed_def trail_of_def split: if_splits)

lemma pipe_inv_placed: "pipe_inv args p \<Longrightarrow> placed p"
  by (auto simp: pipe_inv_def placed_def split: if_splits)

lemma trail_visit_placed: "placed p \<Longrightarrow> trail_of (visit u p) = trail_after (Navigate u) (trail_of p)"
  using trail_visit [of p _ u] placed_trail [of p]
  by (cases "trail_of p") (auto simp: trail_after_def placed_def trail_of_def visit_def Let_def)

lemma visit_placed: "placed p \<Longrightarrow> pl_history (visit u p) \<noteq> [] \<and>
    pl_position (visit u p) < length (pl_history (visit u p)) \<and>
    pl_history (visit u p) ! pl_position (visit u p) = u \<and> pl_child (visit u p) = pl_child p"
  by (auto simp: visit_def Let_def nth_append)

lemma next_page_spec:
  assumes "placed (bw_pipeline w)"
  shows "wp (next_page nav) (\<lambda>r w'. let p = bw_pipeline w; p' = bw_pipeline w' in
      same_settings p p' \<and> trail_of p' = trail_after nav (trail_of p) \<and>
      (case r of
         Inr (Some u) \<Rightarrow> pl_history p' \<noteq> [] \<and> pl_position p' < length (pl_history p') \<and>
           u = pl_history p' ! pl_position p' \<and> pl_child p' = pl_child p
       | Inr None \<Rightarrow> p' = p \<or> p' = p\<lparr>pl_child := None\<rparr>
       | Inl x \<Rightarrow> x = Dropped \<and> p' = p\<lparr>pl_child := None\<rparr>)) w"
proof (cases nav)
  case (Navigate u)
  with assms trail_visit_placed [OF assms] visit_placed [OF assms] show ?thesis
    by (simp add: next_page_def wp_rules Let_def same_settings_def) (simp add: visit_def Let_def)
next
  case Back
  show ?thesis
  proof (cases "trail_of (bw_pipeline w)")
    case None
    with assms placed_trail [OF assms] show ?thesis
      by (auto simp: Back next_page_def wp_rules same_settings_def trail_after_def placed_def Let_def)
  next
    case (Some t)
    with assms trail_back [OF Some] trail_end(1) [OF Some] show ?thesis
      by (auto simp: Back next_page_def move_to_def history_at_def wp_rules Let_def same_settings_def
          trail_after_def trail_of_def split: if_splits)
  qed
next
  case Forward
  show ?thesis
  proof (cases "trail_of (bw_pipeline w)")
    case None
    with assms placed_trail [OF assms] show ?thesis
      by (auto simp: Forward next_page_def wp_rules same_settings_def trail_after_def placed_def Let_def)
  next
    case (Some t)
    with assms trail_forward [OF Some] trail_end(2) [OF Some] show ?thesis
      by (auto simp: Forward next_page_def move_to_def history_at_def wp_rules Let_def same_settings_def
          trail_after_def trail_of_def split: if_splits)
  qed
next
  case Reload
  with assms show ?thesis
    by (auto simp: next_page_def wp_rules same_settings_def trail_after_def Let_def split: option.splits)
next
  case Stop
  have "trail_of (p\<lparr>pl_child := None\<rparr>) = trail_of p" for p by (simp add: trail_of_def)
  then show ?thesis
    unfolding Stop next_page_def
    by (auto simp: wp_rules same_settings_def trail_after_def split: option.splits sum.splits
        intro!: wp_mono [OF stop_pipeline_spec])
qed


text \<open>What a command does to the history.\<close>

fun command_trail :: "browser_command \<Rightarrow> trail option \<Rightarrow> trail option" where
  "command_trail (StartBrowser _ u _ _) t = Some ([], u, [])"
| "command_trail (NavigateBrowser nav) t = trail_after nav t"
| "command_trail StopBrowser t = t"

text \<open>What each command leaves, however it ends.\<close>

definition command_done ::
  "browser_args \<Rightarrow> browser_command \<Rightarrow> pipeline \<Rightarrow> helper_error + unit \<Rightarrow> pipeline \<Rightarrow> bool" where
  "command_done args command p r p' \<longleftrightarrow>
     r \<noteq> Inl Panicked \<and> (r \<noteq> Inr () \<longrightarrow> pl_child p' = None) \<and> (r \<noteq> Inl Dropped \<longrightarrow> pipe_inv args p') \<and>
     (case command of
        StartBrowser session_id u profile mode \<Rightarrow>
          r \<noteq> Inl Dropped \<longrightarrow> trail_of p' = command_trail command (trail_of p) \<and>
            pl_session_id p' = Some session_id \<and> pl_profile p' = profile \<and> pl_egress p' = mode \<and>
            (r = Inr () \<and> \<not> ba_dry_run args \<longrightarrow> pl_child p' \<noteq> None)
      | NavigateBrowser nav \<Rightarrow> trail_of p' = command_trail command (trail_of p) \<and> same_settings p p'
      | StopBrowser \<Rightarrow> p' = p\<lparr>pl_child := None\<rparr>)"

lemma trail_child [simp]: "trail_of (p\<lparr>pl_child := c\<rparr>) = trail_of p"
  by (simp add: trail_of_def)

lemma apply_command_spec:
  assumes "pipe_inv args (bw_pipeline w)"
  shows "wp (apply_command args command) (\<lambda>r w'.
    command_done args command (bw_pipeline w) r (bw_pipeline w')) w"
proof (cases command)
  case StopBrowser
  then show ?thesis
    by (auto simp: apply_command_def command_done_def pipe_inv_stopped [OF assms] pipe_inv_stopped
        intro!: wp_mono [OF stop_pipeline_spec])
next
  case (StartBrowser session_id u profile mode)
  let ?p = "\<lambda>p :: pipeline. p\<lparr>pl_session_id := Some session_id, pl_profile := profile,
    pl_egress := mode, pl_history := [u], pl_position := 0\<rparr>"
  have spawn: "wp (spawn_pipeline args u) (\<lambda>r w'. command_done args command (bw_pipeline w) r (bw_pipeline w')) v"
    if "bw_pipeline v = ?p (bw_pipeline w)\<lparr>pl_child := None\<rparr>" for v
    by (rule wp_mono [OF respawn_spec [where p = "?p (bw_pipeline w)"]])
      (use that in \<open>auto simp: command_done_def StartBrowser trail_of_def\<close>)
  show ?thesis
    unfolding StartBrowser apply_command_def browser_command.case
  proof (rule stop_then_spec)
    fix w' :: browser_world assume "bw_pipeline w' = (bw_pipeline w)\<lparr>pl_child := None\<rparr>"
    then show "wp (and_then (update_pipeline ?p) (\<lambda>_. spawn_pipeline args u)) (\<lambda>r w'.
        command_done args (StartBrowser session_id u profile mode) (bw_pipeline w) r (bw_pipeline w')) w'"
      by (auto simp: wp_and_then wp_update_pipeline intro!: spawn [unfolded StartBrowser])
  qed (simp add: command_done_def)
next
  case (NavigateBrowser nav)
  have respawn: "wp (and_then stop_pipeline (\<lambda>_. spawn_pipeline args u)) (\<lambda>r w'.
      command_done args command (bw_pipeline w) r (bw_pipeline w')) v"
    if "same_settings (bw_pipeline w) (bw_pipeline v)" "trail_of (bw_pipeline v) = trail_after nav (trail_of (bw_pipeline w))"
      "pl_history (bw_pipeline v) \<noteq> []" "pl_position (bw_pipeline v) < length (pl_history (bw_pipeline v))"
      "u = pl_history (bw_pipeline v) ! pl_position (bw_pipeline v)" for u v
  proof (rule stop_then_spec)
    fix w' :: browser_world assume w': "bw_pipeline w' = (bw_pipeline v)\<lparr>pl_child := None\<rparr>"
    show "wp (spawn_pipeline args u) (\<lambda>r w'. command_done args command (bw_pipeline w) r (bw_pipeline w')) w'"
      by (rule wp_mono [OF respawn_spec [where p = "bw_pipeline v"]])
        (use that w' in \<open>auto simp: command_done_def NavigateBrowser same_settings_def\<close>)
  qed (use that in \<open>auto simp: command_done_def NavigateBrowser same_settings_def\<close>)
  let ?Q = "\<lambda>r w'. command_done args (NavigateBrowser nav) (bw_pipeline w) r (bw_pipeline w')"
  show ?thesis
    unfolding NavigateBrowser apply_command_def browser_command.case wp_and_then
  proof (rule wp_mono [OF next_page_spec [OF pipe_inv_placed [OF assms]]])
    fix r and s' :: browser_world
    assume spec: "let p = bw_pipeline w; p' = bw_pipeline s' in
      same_settings p p' \<and> trail_of p' = trail_after nav (trail_of p) \<and>
      (case r of
         Inr (Some u) \<Rightarrow> pl_history p' \<noteq> [] \<and> pl_position p' < length (pl_history p') \<and>
           u = pl_history p' ! pl_position p' \<and> pl_child p' = pl_child p
       | Inr None \<Rightarrow> p' = p \<or> p' = p\<lparr>pl_child := None\<rparr>
       | Inl x \<Rightarrow> x = Dropped \<and> p' = p\<lparr>pl_child := None\<rparr>)"
    have none: "?Q (Inr ()) s'" if "r = Inr None"
      using spec that assms pipe_inv_stopped [OF assms] by (auto simp: Let_def command_done_def)
    have dropped: "?Q (Inl x) s'" if "r = Inl x" for x
      using spec that by (auto simp: Let_def command_done_def)
    have some: "wp (and_then stop_pipeline (\<lambda>_. spawn_pipeline args u)) ?Q s'" if "r = Inr (Some u)" for u
      using spec that by (intro respawn [unfolded NavigateBrowser]) (auto simp: Let_def)
    show "(case r of Inl e \<Rightarrow> ?Q (Inl e)
      | Inr a \<Rightarrow> wp (case a of None \<Rightarrow> ret () | Some u \<Rightarrow> and_then stop_pipeline (\<lambda>_. spawn_pipeline args u)) ?Q) s'"
      using none dropped some by (auto simp: wp_ret split: sum.splits option.splits)
  qed
qed

end
