(* ===== verification/NetHelper.thy ===== *)
theory NetHelper
  imports NetPlan Backend
begin

text \<open>
  \<open>src/bin/xanhtab-netd.rs\<close>: the privileged helper that puts one egress policy in force. It runs
  the plans of \<open>src/netd.rs\<close> as external programs, each transition behind the kill-switch, and
  answers one request per connection.

  What an external program does is not the helper's: the world gives, for the n-th thing waited
  for, how it ended and whether an nftables change it was given took effect. The state keeps the
  script now loaded in table \<open>inet xanhtab\<close>, the mode the helper believes is active, and every
  command started. The deadline of \<open>handle\<close> drops the running transition where it waits: no code
  of the transition runs after it, which is the error \<open>Dropped\<close> that nothing below \<open>handle\<close>
  catches (outside a request it is a program that never ends).
\<close>

section \<open>The world outside\<close>

text \<open>
  How one external command ends. The fields are read in order: an error from \<open>spawn\<close>, one from
  writing its input, the deadline, and \<open>wait_with_output\<close> (\<open>None\<close> its error, else success,
  stdout and stderr as text).
\<close>

record run_result =
  rr_spawned :: bool
  rr_write_error :: "string option"
  rr_deadline :: bool
  rr_exit :: "(bool \<times> string \<times> string) option"
  rr_effect :: bool

datatype connect_result = Connected | Refused | ConnectTimedOut | ConnectDeadline

record net_world =
  wd_steps :: nat
  wd_run :: "nat \<Rightarrow> run_result"
  wd_connect :: "nat \<Rightarrow> connect_result"
  wd_link_exists :: "nat \<Rightarrow> bool"
  wd_files :: "nat \<Rightarrow> secret_files"
  wd_script :: "string option"
  wd_started :: "command_spec list"
  wd_active :: "egress_mode option"

datatype egress_command = Apply egress_mode | Reset | QueryStatus

record egress_request =
  rq_version :: u8
  rq_command :: egress_command

record net_daemon =
  nd_config :: network_config
  nd_dry_run :: bool
  nd_parse_url :: "string \<Rightarrow> url option"
  nd_decode :: "string \<Rightarrow> u8 list option"
  nd_parse_request :: "string \<Rightarrow> egress_request option"

type_synonym 'a net_op = "(net_world, helper_error, 'a) op"

text \<open>Code after a \<open>match\<close> on a result runs for a returned error only.\<close>

definition catch :: "'a net_op \<Rightarrow> (string + 'a) net_op" where
  "catch m s =
     (case m s of
        (Inl (Failure e), s') \<Rightarrow> (Inr (Inl e), s')
      | (Inl e, s') \<Rightarrow> (Inl e, s')
      | (Inr a, s') \<Rightarrow> (Inr (Inr a), s'))"

section \<open>Running commands\<close>

text \<open>
  A script given to \<open>nft\<close> that takes effect is the table's content from then on (it flushes the
  table first); a deleted table has none. Nothing else changes the table.
\<close>

definition script_after :: "command_spec \<Rightarrow> string option \<Rightarrow> string option" where
  "script_after spec old =
     (if spec = delete_table then None
      else if cs_program spec = nft_program \<and> cs_stdin spec \<noteq> None then cs_stdin spec
      else old)"

definition run_command :: "command_spec \<Rightarrow> run_result net_op" where
  "run_command spec w =
     (let r = wd_run w (wd_steps w)
      in (Inr r, w\<lparr>wd_steps := Suc (wd_steps w),
           wd_started := (if rr_spawned r then wd_started w @ [spec] else wd_started w),
           wd_script := (if rr_spawned r \<and> rr_effect r then script_after spec (wd_script w)
                         else wd_script w)\<rparr>))"

fun text_contains :: "string \<Rightarrow> string \<Rightarrow> bool" where
  "text_contains needle [] \<longleftrightarrow> needle = []"
| "text_contains needle (c # cs) \<longleftrightarrow> prefix needle (c # cs) \<or> text_contains needle cs"

text \<open>What \<open>run_plan\<close> makes of one command that ended.\<close>

definition judge_run :: "command_spec \<Rightarrow> bool \<Rightarrow> bool \<Rightarrow> run_result \<Rightarrow> unit net_op" where
  "judge_run spec allow_existing_table ignore_failures r =
     (if \<not> rr_spawned r then raise (Failure (''failed to run '' @ cs_program spec))
      else if cs_stdin spec \<noteq> None \<and> rr_write_error r \<noteq> None
      then raise (Failure (the (rr_write_error r)))
      else if rr_deadline r then raise Dropped
      else
        case rr_exit r of
          None \<Rightarrow> raise (Failure (''failed to wait for '' @ cs_program spec))
        | Some (success, _, stderr) \<Rightarrow>
            if success then ret ()
            else if allow_existing_table \<and> spec = add_table \<and> text_contains ''File exists'' stderr
            then ret ()
            else if ignore_failures then ret ()
            else raise (Failure (cs_program spec @ '' failed: '' @ trim stderr)))"

definition run_spec :: "bool \<Rightarrow> bool \<Rightarrow> bool \<Rightarrow> command_spec \<Rightarrow> unit net_op" where
  "run_spec dry_run allow_existing_table ignore_failures spec =
     (if dry_run then ret ()
      else and_then (run_command spec) (judge_run spec allow_existing_table ignore_failures))"

definition run_plan :: "command_spec list \<Rightarrow> bool \<Rightarrow> bool \<Rightarrow> bool \<Rightarrow> unit net_op" where
  "run_plan plan dry_run allow_existing_table ignore_failures =
     steps (map (run_spec dry_run allow_existing_table ignore_failures) plan)"

section \<open>Teardown and probes\<close>

text \<open>\<open>output()\<close> spawns and waits in one await; it is given no input.\<close>

definition rules_command :: "bool \<Rightarrow> command_spec" where
  "rules_command ipv6 = plain ip_program ((if ipv6 then [''-6''] else []) @ [''rule'', ''show''])"

definition rule_line_matches :: "network_config \<Rightarrow> string \<Rightarrow> bool" where
  "rule_line_matches c line \<longleftrightarrow>
     text_contains (''uidrange '' @ uid_range c) line \<and>
     text_contains (''lookup '' @ wireguard_route_table) line"

definition policy_rule_remains :: "network_config \<Rightarrow> bool \<Rightarrow> bool net_op" where
  "policy_rule_remains c ipv6 =
     and_then (run_command (rules_command ipv6)) (\<lambda>r.
       if \<not> rr_spawned r then raise (Failure ''failed to inspect policy routing rules'')
       else if rr_deadline r then raise Dropped
       else
         case rr_exit r of
           Some (True, stdout, _) \<Rightarrow> ret (list_ex (rule_line_matches c) (rust_lines stdout))
         | _ \<Rightarrow> raise (Failure ''failed to inspect policy routing rules''))"

definition link_exists :: "bool net_op" where
  "link_exists w = (Inr (wd_link_exists w (wd_steps w)), w\<lparr>wd_steps := Suc (wd_steps w)\<rparr>)"

definition check_rule :: "network_config \<Rightarrow> bool \<Rightarrow> unit net_op" where
  "check_rule c ipv6 =
     and_then (policy_rule_remains c ipv6) (\<lambda>remains.
       if remains
       then raise (Failure ''dedicated WireGuard UID policy rule remained after teardown'')
       else ret ())"

definition teardown_wireguard :: "network_config \<Rightarrow> bool \<Rightarrow> unit net_op" where
  "teardown_wireguard c dry_run =
     and_then (run_plan (wireguard_teardown_plan c) dry_run False True) (\<lambda>_.
       if dry_run then ret ()
       else
         and_then link_exists (\<lambda>remained.
           if remained
           then raise (Failure ''dedicated WireGuard interface remained after teardown'')
           else steps (map (check_rule c) [False, True])))"

definition probe_proxy :: "socket_addr \<Rightarrow> bool \<Rightarrow> unit net_op" where
  "probe_proxy endpoint dry_run =
     (if dry_run then ret ()
      else (\<lambda>w.
        let w' = w\<lparr>wd_steps := Suc (wd_steps w)\<rparr>
        in case wd_connect w (wd_steps w) of
             Connected \<Rightarrow> (Inr (), w')
           | ConnectTimedOut \<Rightarrow> (Inl (Failure ''egress proxy readiness check timed out''), w')
           | Refused \<Rightarrow> (Inl (Failure (''egress proxy endpoint '' @ show_socket_addr endpoint @
               '' is unavailable'')), w')
           | ConnectDeadline \<Rightarrow> (Inl Dropped, w')))"

section \<open>Transitions\<close>

definition load_kill_switch :: "net_daemon \<Rightarrow> unit net_op" where
  "load_kill_switch d = run_plan (kill_switch_plan (nd_config d)) (nd_dry_run d) True False"

definition secret_files_now :: "secret_files net_op" where
  "secret_files_now w = (Inr (wd_files w (wd_steps w)), w\<lparr>wd_steps := Suc (wd_steps w)\<rparr>)"

definition policy_endpoint :: "net_daemon \<Rightarrow> egress_mode \<Rightarrow> socket_addr option net_op" where
  "policy_endpoint d mode =
     (let c = nd_config d;
          managed = (\<lambda>url. and_then (fallible (validate_proxy_url (nd_parse_url d) url False))
                       (\<lambda>p. ret (Some (vp_endpoint p))))
      in case mode of
           Direct \<Rightarrow> ret None
         | WireGuard \<Rightarrow> ret None
         | Tor \<Rightarrow> managed (nw_tor_proxy c)
         | Warp \<Rightarrow> managed (nw_warp_proxy c)
         | Proxy \<Rightarrow>
             (case parse_socket_addr (nw_proxy_endpoint c) of
                None \<Rightarrow> raise (Failure ''invalid socket address syntax'')
              | Some expected \<Rightarrow>
                  and_then secret_files_now (\<lambda>fs.
                  and_then (fallible (validate_proxy_url_file (nd_parse_url d) fs
                      (nw_proxy_url_file c) (Some expected) (Some 0)))
                    (\<lambda>p. ret (Some (vp_endpoint p))))))"

definition set_up_wireguard :: "net_daemon \<Rightarrow> unit net_op" where
  "set_up_wireguard d =
     and_then secret_files_now (\<lambda>fs.
     and_then (fallible (validate_wireguard_config_file (nd_decode d) fs
         (nw_wireguard_config (nd_config d)) (Some 0))) (\<lambda>_.
       run_plan (wireguard_setup_plan (nd_config d)) (nd_dry_run d) False False))"

definition load_policy :: "net_daemon \<Rightarrow> egress_mode \<Rightarrow> socket_addr option \<Rightarrow> unit net_op" where
  "load_policy d mode endpoint =
     (case active_policy_plan (nd_config d) mode endpoint of
        None \<Rightarrow> raise Panicked
      | Some (Inl e) \<Rightarrow> raise (Failure e)
      | Some (Inr plan) \<Rightarrow> run_plan plan (nd_dry_run d) False False)"

definition transition_inner :: "net_daemon \<Rightarrow> egress_mode \<Rightarrow> unit net_op" where
  "transition_inner d mode =
     and_then (teardown_wireguard (nd_config d) (nd_dry_run d)) (\<lambda>_.
     and_then (policy_endpoint d mode) (\<lambda>endpoint.
     and_then (if mode = WireGuard then set_up_wireguard d else ret ()) (\<lambda>_.
     and_then (case endpoint of None \<Rightarrow> ret () | Some e \<Rightarrow> probe_proxy e (nd_dry_run d)) (\<lambda>_.
       load_policy d mode endpoint))))"

definition set_active :: "egress_mode option \<Rightarrow> unit net_op" where
  "set_active m = modify (\<lambda>w. w\<lparr>wd_active := m\<rparr>)"

definition labelled :: "string \<Rightarrow> string + unit \<Rightarrow> string list" where
  "labelled label r = (case r of Inl e \<Rightarrow> [label @ '': '' @ e] | Inr _ \<Rightarrow> [])"

definition transition :: "net_daemon \<Rightarrow> egress_mode \<Rightarrow> egress_response net_op" where
  "transition d mode =
     and_then (set_active None) (\<lambda>_.
     and_then (load_kill_switch d) (\<lambda>_.
     and_then (catch (transition_inner d mode)) (\<lambda>result.
       case result of
         Inl e \<Rightarrow>
           and_then (catch (teardown_wireguard (nd_config d) (nd_dry_run d))) (\<lambda>torn.
           and_then (catch (load_kill_switch d)) (\<lambda>restored.
             raise (Failure (join ''; '' (e # labelled ''WireGuard cleanup'' torn @
               labelled ''kill-switch restore'' restored)))))
       | Inr _ \<Rightarrow>
           and_then (set_active (Some mode)) (\<lambda>_.
             ret \<lparr>eg_ok = True, eg_active_mode = mode, eg_proxy_url = None,
                  eg_detail = ''egress policy applied after fail-closed transition''\<rparr>))))"

definition initialize_network :: "net_daemon \<Rightarrow> unit net_op" where
  "initialize_network d =
     and_then (load_kill_switch d) (\<lambda>_. teardown_wireguard (nd_config d) (nd_dry_run d))"

definition cleanup_network :: "net_daemon \<Rightarrow> unit net_op" where
  "cleanup_network d =
     and_then (load_kill_switch d) (\<lambda>_.
     and_then (teardown_wireguard (nd_config d) (nd_dry_run d)) (\<lambda>_.
       run_plan [delete_table] (nd_dry_run d) False True))"

section \<open>Requests\<close>

definition authorize_peer_uid :: "u32 \<Rightarrow> u32 option \<Rightarrow> u32 \<Rightarrow> string + unit" where
  "authorize_peer_uid peer_uid control_uid browser_uid =
     (case control_uid of
        Some expected \<Rightarrow>
          if peer_uid = expected then Inr ()
          else Inl ''netd peer is not the configured control-plane UID''
      | None \<Rightarrow>
          if peer_uid \<noteq> browser_uid then Inr ()
          else Inl ''browser UID is not authorized to call netd'')"

text \<open>In milliseconds, with the saturating arithmetic of u64.\<close>

definition helper_deadline :: "u64 \<Rightarrow> nat" where
  "helper_deadline ipc_timeout_seconds =
     max (min (unat ipc_timeout_seconds * 1000) (2 ^ 64 - 1) - 250) 1"

definition status_response :: "egress_mode option \<Rightarrow> egress_response" where
  "status_response active =
     \<lparr>eg_ok = (active \<noteq> None),
      eg_active_mode = (case active of None \<Rightarrow> Direct | Some m \<Rightarrow> m),
      eg_proxy_url = None,
      eg_detail = (if active \<noteq> None then ''egress policy active''
                   else ''browser UID is held by the transition kill-switch'')\<rparr>"

definition perform :: "net_daemon \<Rightarrow> egress_command \<Rightarrow> egress_response net_op" where
  "perform d command =
     (case command of
        Apply mode \<Rightarrow> transition d mode
      | Reset \<Rightarrow> transition d Direct
      | QueryStatus \<Rightarrow> gets (\<lambda>w. status_response (wd_active w)))"

definition refusal :: "string \<Rightarrow> egress_response" where
  "refusal detail = \<lparr>eg_ok = False, eg_active_mode = Direct, eg_proxy_url = None, eg_detail = detail\<rparr>"

text \<open>The \<open>timeout\<close> and the \<open>unwrap_or_else\<close> after it.\<close>

definition within_deadline :: "egress_response net_op \<Rightarrow> egress_response net_op" where
  "within_deadline m w =
     (case m w of
        (Inl (Failure e), w') \<Rightarrow> (Inr (refusal e), w')
      | (Inl Dropped, w') \<Rightarrow> (Inr (refusal ''netd command timed out''), w')
      | (Inl Panicked, w') \<Rightarrow> (Inl Panicked, w')
      | (Inr response, w') \<Rightarrow> (Inr response, w'))"

text \<open>
  One connection, given the peer's user and the line read from it (or why each could not be had).
  The result is the response written to the peer, or the error the connection is closed with.
\<close>

definition handle_request ::
  "net_daemon \<Rightarrow> string + u32 \<Rightarrow> string + string \<Rightarrow> egress_response net_op" where
  "handle_request d peer line =
     and_then (fallible peer) (\<lambda>peer_uid.
     and_then (fallible (authorize_peer_uid peer_uid (nw_control_uid (nd_config d))
         (nw_browser_uid (nd_config d)))) (\<lambda>_.
     and_then (fallible line) (\<lambda>text.
       case nd_parse_request d text of
         None \<Rightarrow> raise (Failure ''invalid request'')
       | Some request \<Rightarrow>
           if rq_version request \<noteq> 1 then raise (Failure ''unsupported netd protocol version'')
           else within_deadline (perform d (rq_command request)))))"

section \<open>Facts\<close>

subsection \<open>What a step leaves alone\<close>

definition honest_run :: "run_result \<Rightarrow> bool" where
  "honest_run r \<longleftrightarrow> rr_write_error r = None \<and> \<not> rr_deadline r \<longrightarrow>
     (case rr_exit r of None \<Rightarrow> True | Some (success, _, _) \<Rightarrow> rr_effect r = success)"

text \<open>
  The documented behaviour of \<open>nft -f\<close>: it loads a script as one transaction, so one that ran to
  its end took effect exactly when it reported success.
\<close>

definition honest :: "net_world \<Rightarrow> bool" where
  "honest w \<longleftrightarrow> (\<forall>n. honest_run (wd_run w n))"

lemma keeps_catch [keeps_rules]: "keeps I m \<Longrightarrow> keeps I (catch m)"
  by (auto simp: keeps_def catch_def split: prod.splits sum.splits helper_error.splits)

lemma keeps_judge_run [keeps_rules]: "keeps I (judge_run spec allow ign r)"
  by (auto simp: judge_run_def split: option.splits prod.splits intro!: keeps_rules)

lemma keeps_run_spec:
  "(\<not> dry \<Longrightarrow> keeps I (run_command spec)) \<Longrightarrow> keeps I (run_spec dry allow ign spec)"
  by (auto simp: run_spec_def intro!: keeps_rules)

lemma keeps_run_plan:
  "(\<And>spec. spec \<in> set plan \<Longrightarrow> \<not> dry \<Longrightarrow> keeps I (run_command spec)) \<Longrightarrow>
     keeps I (run_plan plan dry allow ign)"
  by (auto simp: run_plan_def intro!: keeps_steps keeps_run_spec)

text \<open>
  A predicate every step but the loading of a script keeps: closed under the step counter and
  the commands started.
\<close>

definition stepwise :: "(net_world \<Rightarrow> bool) \<Rightarrow> bool" where
  "stepwise I \<longleftrightarrow> (\<forall>w n cs. I w \<longrightarrow> I (w\<lparr>wd_steps := n\<rparr>) \<and> I (w\<lparr>wd_started := cs\<rparr>))"

definition quiet :: "command_spec \<Rightarrow> bool" where
  "quiet spec \<longleftrightarrow> cs_stdin spec = None \<and> spec \<noteq> delete_table"

lemma script_after_quiet: "quiet spec \<Longrightarrow> script_after spec old = old"
  by (simp add: script_after_def quiet_def)

text \<open>Loading a script: the predicate must allow the table to change to it.\<close>

lemma keeps_script_command:
  assumes "stepwise I" and "\<And>w. I w \<Longrightarrow> I (w\<lparr>wd_script := script_after spec (wd_script w)\<rparr>)"
  shows "keeps I (run_command spec)"
proof (rule keepsI)
  fix s r s' assume I: "I s" and run: "run_command spec s = (r, s')"
  define t where "t = (if rr_spawned (wd_run s (wd_steps s)) \<and> rr_effect (wd_run s (wd_steps s))
    then s\<lparr>wd_script := script_after spec (wd_script s)\<rparr> else s)"
  have "I t" using I assms(2) by (simp add: t_def)
  then have "I (t\<lparr>wd_steps := Suc (wd_steps s)\<rparr>)" using assms(1) by (simp add: stepwise_def)
  then have "I (t\<lparr>wd_steps := Suc (wd_steps s), wd_started := cs\<rparr>)" for cs
    using assms(1) by (simp add: stepwise_def)
  moreover have "s' = t\<lparr>wd_steps := Suc (wd_steps s), wd_started :=
      (if rr_spawned (wd_run s (wd_steps s)) then wd_started s @ [spec] else wd_started s)\<rparr>"
    using run by (auto simp: t_def run_command_def Let_def)
  ultimately show "I s'" by simp
qed

lemma keeps_quiet_command: "stepwise I \<Longrightarrow> quiet spec \<Longrightarrow> keeps I (run_command spec)"
  by (rule keeps_script_command) (simp_all add: script_after_quiet)

lemma quiet_plans:
  "spec \<in> set (wireguard_teardown_plan c) \<Longrightarrow> quiet spec"
  "spec \<in> set (wireguard_setup_plan c) \<Longrightarrow> quiet spec"
  by (auto simp: wireguard_teardown_plan_def wireguard_setup_plan_def quiet_def plain_def
      delete_table_def ip_program_def nft_program_def wg_program_def wg_quick_program_def)

lemma quiet_rules_command: "quiet (rules_command ipv6)"
  by (simp add: rules_command_def quiet_def plain_def delete_table_def ip_program_def nft_program_def)

lemma keeps_link_exists: "stepwise I \<Longrightarrow> keeps I link_exists"
  by (auto simp: keeps_def link_exists_def stepwise_def)

lemma keeps_check_rule: "stepwise I \<Longrightarrow> keeps I (check_rule c ipv6)"
  by (auto simp: check_rule_def policy_rule_remains_def split: option.splits bool.splits
      intro!: keeps_rules keeps_quiet_command quiet_rules_command)

lemma keeps_teardown: "stepwise I \<Longrightarrow> keeps I (teardown_wireguard c dry)"
  by (auto simp: teardown_wireguard_def intro!: keeps_rules keeps_run_plan keeps_quiet_command
      keeps_check_rule keeps_link_exists dest: quiet_plans)

lemma keeps_probe: "stepwise I \<Longrightarrow> keeps I (probe_proxy e dry)"
  by (auto simp: probe_proxy_def keeps_def ret_def stepwise_def Let_def split: connect_result.splits)

lemma keeps_secret_files_now: "stepwise I \<Longrightarrow> keeps I secret_files_now"
  by (auto simp: keeps_def secret_files_now_def stepwise_def)

lemma keeps_policy_endpoint: "stepwise I \<Longrightarrow> keeps I (policy_endpoint d mode)"
  by (auto simp: policy_endpoint_def Let_def split: egress_mode.splits option.splits
      intro!: keeps_rules keeps_secret_files_now)

lemma keeps_set_up_wireguard: "stepwise I \<Longrightarrow> keeps I (set_up_wireguard d)"
  by (auto simp: set_up_wireguard_def intro!: keeps_rules keeps_secret_files_now keeps_run_plan
      keeps_quiet_command dest: quiet_plans)

lemma keeps_load_kill_switch:
  assumes "stepwise I" and "\<And>w. I w \<Longrightarrow> I (w\<lparr>wd_script := Some (kill_switch_script (nd_config d))\<rparr>)"
  shows "keeps I (load_kill_switch d)"
proof -
  let ?kill = "\<lparr>cs_program = nft_program, cs_args = [''-f'', ''-''],
    cs_stdin = Some (kill_switch_script (nd_config d))\<rparr>"
  have "quiet add_table" by (simp add: quiet_def add_table_def delete_table_def plain_def)
  then have 1: "keeps I (run_command add_table)" by (rule keeps_quiet_command [OF assms(1)])
  have "script_after ?kill old = Some (kill_switch_script (nd_config d))" for old
    by (simp add: script_after_def delete_table_def plain_def)
  then have 2: "keeps I (run_command ?kill)" using assms by (intro keeps_script_command) simp_all
  show ?thesis
    unfolding load_kill_switch_def kill_switch_plan_def by (rule keeps_run_plan) (use 1 2 in auto)
qed

lemma keeps_load_policy:
  assumes "stepwise I" and "\<And>w script. nft_script (nw_browser_uid (nd_config d)) (Some mode) e = Some script \<Longrightarrow>
     I w \<Longrightarrow> I (w\<lparr>wd_script := Some script\<rparr>)"
  shows "keeps I (load_policy d mode e)"
proof (cases "active_policy_plan (nd_config d) mode e")
  case (Some r)
  then show ?thesis
  proof (cases r)
    case (Inr plan)
    with Some obtain script where n: "nft_script (nw_browser_uid (nd_config d)) (Some mode) e = Some script"
      and pl: "plan = [\<lparr>cs_program = nft_program, cs_args = [''-f'', ''-''], cs_stdin = Some script\<rparr>]"
      by (auto simp: active_policy_plan_def nft_transaction_def split: option.splits if_splits)
    let ?spec = "\<lparr>cs_program = nft_program, cs_args = [''-f'', ''-''], cs_stdin = Some script\<rparr>"
    have "script_after ?spec old = Some script" for old
      by (simp add: script_after_def delete_table_def plain_def)
    then have "keeps I (run_command ?spec)"
      using assms n by (intro keeps_script_command) simp_all
    then show ?thesis using Some Inr pl by (auto simp: load_policy_def intro!: keeps_run_plan)
  qed (simp add: load_policy_def keeps_rules)
qed (simp add: load_policy_def keeps_rules)

text \<open>What each part of a transition keeps, for predicates the loaded scripts keep too.\<close>

lemma keeps_transition_inner:
  assumes "stepwise I" and "\<And>e w script. nft_script (nw_browser_uid (nd_config d)) (Some mode) e = Some script \<Longrightarrow>
     I w \<Longrightarrow> I (w\<lparr>wd_script := Some script\<rparr>)"
  shows "keeps I (transition_inner d mode)"
  using assms
  by (auto simp: transition_inner_def split: option.splits
      intro!: keeps_and_then keeps_if keeps_ret keeps_teardown keeps_policy_endpoint
        keeps_set_up_wireguard keeps_probe keeps_load_policy)

lemma keeps_transition:
  assumes "stepwise I" and "\<And>e w script m. nft_script (nw_browser_uid (nd_config d)) m e = Some script \<Longrightarrow>
     I w \<Longrightarrow> I (w\<lparr>wd_script := Some script\<rparr>)" and "\<And>w m. I w \<Longrightarrow> I (w\<lparr>wd_active := m\<rparr>)"
  shows "keeps I (transition d mode)"
proof -
  have "nft_script (nw_browser_uid (nd_config d)) None None = Some (kill_switch_script (nd_config d))"
    by (simp add: nft_script_def kill_switch_script_def)
  with assms have k: "keeps I (load_kill_switch d)" by (intro keeps_load_kill_switch) blast+
  have i: "keeps I (transition_inner d mode)" using assms by (intro keeps_transition_inner) blast+
  have a: "keeps I (set_active m)" for m using assms(3) by (simp add: set_active_def keeps_def modify_def)
  show ?thesis
    unfolding transition_def
    by (auto split: sum.splits intro!: keeps_and_then keeps_catch keeps_ret keeps_raise k i a
        keeps_teardown assms(1))
qed

section \<open>What a finished step has done\<close>

lemma stepwise_facts [simp, intro]:
  "stepwise honest" "stepwise (\<lambda>w. wd_active w = m)" "stepwise (\<lambda>w. wd_script w = sc)"
  "stepwise (\<lambda>w. P (wd_script w))"
  by (simp_all add: stepwise_def honest_def)

lemma honest_load [simp]: "honest (w\<lparr>wd_script := s\<rparr>) = honest w" "honest (w\<lparr>wd_active := m\<rparr>) = honest w"
  by (simp_all add: honest_def)

lemma judge_run_state: "judge_run spec allow ign r w = (x, w') \<Longrightarrow> w' = w"
  using keepsD2 [OF keeps_judge_run [of "\<lambda>v. v = w"], of w] by blast

lemma judge_run_ok:
  "judge_run spec allow False r w = (Inr (), w') \<Longrightarrow> cs_stdin spec = Some s \<Longrightarrow> honest_run r \<Longrightarrow>
     rr_spawned r \<and> rr_effect r"
  by (auto simp: judge_run_def raise_def ret_def honest_run_def add_table_def plain_def
      split: if_splits option.splits prod.splits)

lemma run_nft_ok:
  assumes "honest w" and "run_spec False allow False spec w = (Inr (), w')"
    and "cs_program spec = nft_program" and "cs_stdin spec = Some s"
  shows "wd_script w' = Some s"
proof -
  let ?r = "wd_run w (wd_steps w)"
  obtain w1 where r: "run_command spec w = (Inr ?r, w1)" and j: "judge_run spec allow False ?r w1 = (Inr (), w')"
    using assms(2) by (auto simp: run_spec_def run_command_def Let_def elim!: and_then_InrE)
  have "rr_spawned ?r \<and> rr_effect ?r"
    using judge_run_ok [OF j assms(4)] assms(1) by (simp add: honest_def)
  moreover have "script_after spec old = Some s" for old
    using assms(3,4) by (auto simp: script_after_def delete_table_def plain_def)
  ultimately show ?thesis
    using r judge_run_state [OF j] by (auto simp: run_command_def Let_def)
qed

lemma load_kill_switch_ok:
  assumes "honest w" and "\<not> nd_dry_run d" and "load_kill_switch d w = (Inr (), w')"
  shows "wd_script w' = Some (kill_switch_script (nd_config d))"
proof -
  let ?kill = "\<lparr>cs_program = nft_program, cs_args = [''-f'', ''-''],
    cs_stdin = Some (kill_switch_script (nd_config d))\<rparr>"
  obtain w1 where a: "run_spec False True False add_table w = (Inr (), w1)"
    and b: "run_spec False True False ?kill w1 = (Inr (), w')"
    using assms(2,3) by (auto simp: load_kill_switch_def kill_switch_plan_def run_plan_def ret_def
        elim!: and_then_InrE)
  have "quiet add_table" by (simp add: quiet_def add_table_def delete_table_def plain_def)
  then have "keeps honest (run_spec False True False add_table)"
    by (intro keeps_run_spec keeps_quiet_command) simp_all
  then have "honest w1" using keepsD2 assms(1) a by metis
  then show ?thesis using run_nft_ok [OF _ b] by simp
qed

lemma load_policy_ok:
  assumes "honest w" and "\<not> nd_dry_run d" and "load_policy d mode e w = (Inr (), w')"
  shows "\<exists>s. nft_script (nw_browser_uid (nd_config d)) (Some mode) e = Some s \<and> wd_script w' = Some s"
proof -
  obtain s where n: "nft_script (nw_browser_uid (nd_config d)) (Some mode) e = Some s"
    and r: "run_spec False False False \<lparr>cs_program = nft_program, cs_args = [''-f'', ''-''],
      cs_stdin = Some s\<rparr> w = (Inr (), w')"
    using assms(2,3) by (auto simp: load_policy_def active_policy_plan_def nft_transaction_def
        raise_def run_plan_def ret_def split: option.splits sum.splits if_splits elim!: and_then_InrE)
  from run_nft_ok [OF assms(1) r] n show ?thesis by simp
qed

text \<open>The endpoint each mode is meant to go through, from the configuration.\<close>

definition intended_endpoint :: "net_daemon \<Rightarrow> egress_mode option \<Rightarrow> socket_addr option \<Rightarrow> bool" where
  "intended_endpoint d mode e \<longleftrightarrow>
     (let managed = (\<lambda>url. \<exists>p. validate_proxy_url (nd_parse_url d) url False = Inr p \<and>
        e = Some (vp_endpoint p))
      in case mode of
           Some Tor \<Rightarrow> managed (nw_tor_proxy (nd_config d))
         | Some Warp \<Rightarrow> managed (nw_warp_proxy (nd_config d))
         | Some Proxy \<Rightarrow> e \<noteq> None \<and> e = parse_socket_addr (nw_proxy_endpoint (nd_config d))
         | _ \<Rightarrow> e = None)"

lemma proxy_file_endpoint:
  "validate_proxy_url_file pu fs path (Some e) uid = Inr p \<Longrightarrow> vp_endpoint p = e"
  by (auto simp: validate_proxy_url_file_def split: sum.splits if_splits)

lemma policy_endpoint_ok:
  "policy_endpoint d mode w = (Inr e, w') \<Longrightarrow> intended_endpoint d (Some mode) e"
  by (cases mode; cases "parse_socket_addr (nw_proxy_endpoint (nd_config d))")
    (auto simp: policy_endpoint_def intended_endpoint_def Let_def fallible_Inr ret_def
      raise_def secret_files_now_def proxy_file_endpoint split: option.splits elim!: and_then_InrE, metis)

text \<open>The table holds the script of a policy.\<close>

definition in_force :: "net_daemon \<Rightarrow> egress_mode option \<Rightarrow> socket_addr option \<Rightarrow> net_world \<Rightarrow> bool" where
  "in_force d mode e w \<longleftrightarrow> intended_endpoint d mode e \<and>
     (\<exists>s. nft_script (nw_browser_uid (nd_config d)) mode e = Some s \<and> wd_script w = Some s)"

definition table_lets_out :: "net_world \<Rightarrow> packet \<Rightarrow> bool" where
  "table_lets_out w p =
     (case wd_script w of None \<Rightarrow> True
      | Some s \<Rightarrow> (case read_script s of None \<Rightarrow> True | Some rules \<Rightarrow> verdict rules p))"

lemma in_force_kill_switch:
  "wd_script w = Some (kill_switch_script (nd_config d)) \<Longrightarrow> in_force d None None w"
  by (simp add: in_force_def intended_endpoint_def nft_script_def kill_switch_script_def)

lemma in_force_lets_out:
  assumes "in_force d mode e w" and "readable_endpoint e"
  shows "table_lets_out w p = lets_out (nw_browser_uid (nd_config d)) mode e p"
proof -
  obtain s where s: "nft_script (nw_browser_uid (nd_config d)) mode e = Some s" "wd_script w = Some s"
    using assms(1) by (auto simp: in_force_def)
  show ?thesis
    using read_nft_script [OF s(1) assms(2)] s(2) by (simp add: table_lets_out_def verdict_policy)
qed

lemma transition_inner_ok:
  assumes "honest w" and "\<not> nd_dry_run d" and "transition_inner d mode w = (Inr (), w')"
  shows "\<exists>e. in_force d (Some mode) e w'"
proof -
  obtain w1 w2 w3 w4 e
    where a: "teardown_wireguard (nd_config d) (nd_dry_run d) w = (Inr (), w1)"
      and b: "policy_endpoint d mode w1 = (Inr e, w2)"
      and c: "(if mode = WireGuard then set_up_wireguard d else ret ()) w2 = (Inr (), w3)"
      and p: "(case e of None \<Rightarrow> ret () | Some e \<Rightarrow> probe_proxy e (nd_dry_run d)) w3 = (Inr (), w4)"
      and l: "load_policy d mode e w4 = (Inr (), w')"
    using assms(3) unfolding transition_inner_def by (auto elim!: and_then_InrE)
  have "honest w1" using keepsD2 [where I = honest, OF keeps_teardown _ a] assms(1) by simp
  then have "honest w2" using keepsD2 [where I = honest, OF keeps_policy_endpoint _ b] by blast
  then have "honest w3"
    using keepsD2 [where I = honest, OF keeps_if [OF keeps_set_up_wireguard keeps_ret] _ c] by blast
  moreover have "keeps honest (case e of None \<Rightarrow> ret () | Some e \<Rightarrow> probe_proxy e (nd_dry_run d))"
    by (cases e) (auto intro: keeps_ret keeps_probe)
  ultimately have "honest w4" using p by (blast dest: keepsD2)
  from load_policy_ok [OF this assms(2) l] policy_endpoint_ok [OF b] show ?thesis
    by (auto simp: in_force_def)
qed

definition caught :: "helper_error + unit \<Rightarrow> string + unit" where
  "caught r = (case r of Inl (Failure e) \<Rightarrow> Inl e | _ \<Rightarrow> Inr ())"

text \<open>
  The ways out of a transition: an error of the first kill-switch; a failed transition
  undone; a policy loaded.
\<close>

lemma transition_cases:
  assumes "transition d mode w = (r, w')"
  obtains (refused) x where "r = Inl x" and "load_kill_switch d (w\<lparr>wd_active := None\<rparr>) = (Inl x, w')"
  | (dropped) x w1 where "load_kill_switch d (w\<lparr>wd_active := None\<rparr>) = (Inr (), w1)" and
      "r = Inl x" and "\<forall>e. x \<noteq> Failure e" and "transition_inner d mode w1 = (Inl x, w')"
  | (stuck) x w1 w2 e where "load_kill_switch d (w\<lparr>wd_active := None\<rparr>) = (Inr (), w1)" and
      "transition_inner d mode w1 = (Inl (Failure e), w2)" and "r = Inl x" and "\<forall>e. x \<noteq> Failure e" and
      "teardown_wireguard (nd_config d) (nd_dry_run d) w2 = (Inl x, w')"
  | (undone) t q w1 w2 w3 e where "load_kill_switch d (w\<lparr>wd_active := None\<rparr>) = (Inr (), w1)" and
      "transition_inner d mode w1 = (Inl (Failure e), w2)" and
      "teardown_wireguard (nd_config d) (nd_dry_run d) w2 = (t, w3)" and
      "load_kill_switch d w3 = (q, w')" and
      "if \<exists>x. q = Inl x \<and> (\<forall>e. x \<noteq> Failure e) then \<exists>x. q = Inl x \<and> r = Inl x
       else r = Inl (Failure (join ''; '' (e # labelled ''WireGuard cleanup'' (caught t) @
         labelled ''kill-switch restore'' (caught q))))"
  | (finished) w1 w2 where "load_kill_switch d (w\<lparr>wd_active := None\<rparr>) = (Inr (), w1)" and
      "transition_inner d mode w1 = (Inr (), w2)" and "w' = w2\<lparr>wd_active := Some mode\<rparr>" and
      "r = Inr \<lparr>eg_ok = True, eg_active_mode = mode, eg_proxy_url = None,
         eg_detail = ''egress policy applied after fail-closed transition''\<rparr>"
proof -
  obtain k w1 where k: "load_kill_switch d (w\<lparr>wd_active := None\<rparr>) = (k, w1)" by fastforce
  obtain i w2 where i: "transition_inner d mode w1 = (i, w2)" by fastforce
  obtain t w3 where t: "teardown_wireguard (nd_config d) (nd_dry_run d) w2 = (t, w3)" by fastforce
  obtain q w4 where q: "load_kill_switch d w3 = (q, w4)" by fastforce
  note run = assms [unfolded transition_def set_active_def]
  show thesis
  proof (cases k)
    case (Inl x)
    with k run have "r = Inl x" "w' = w1" by (auto simp: op_defs)
    with k Inl refused show thesis by blast
  next
    case (Inr u)
    show thesis
    proof (cases i)
      case (Inr v)
      with k i run \<open>k = Inr u\<close> show thesis by (intro finished) (auto simp: op_defs catch_def)
    next
      case (Inl x)
      show thesis
      proof (cases "\<exists>e. x = Failure e")
        case False
        with k i run \<open>k = Inr u\<close> Inl have "r = Inl x" "w' = w2"
          by (auto simp: op_defs catch_def split: helper_error.splits)
        with k i \<open>k = Inr u\<close> Inl False dropped show thesis by auto
      next
        case True
        then obtain e where e: "x = Failure e" by blast
        show thesis
        proof (cases "\<exists>y. t = Inl y \<and> (\<forall>e. y \<noteq> Failure e)")
          case True
          then obtain y where y: "t = Inl y" "\<forall>e. y \<noteq> Failure e" by blast
          with k i t run \<open>k = Inr u\<close> Inl e have "r = Inl y" "w' = w3"
            by (auto simp: op_defs catch_def split: helper_error.splits)
          with k i t y \<open>k = Inr u\<close> Inl e stuck show thesis by auto
        next
          case False
          with k i t q run \<open>k = Inr u\<close> Inl e
          have "w' = w4 \<and> (if \<exists>x. q = Inl x \<and> (\<forall>e. x \<noteq> Failure e) then \<exists>x. q = Inl x \<and> r = Inl x
             else r = Inl (Failure (join ''; '' (e # labelled ''WireGuard cleanup'' (caught t) @
               labelled ''kill-switch restore'' (caught q)))))"
            by (cases t; cases q) (auto simp: op_defs catch_def caught_def split: helper_error.splits)
          with k i t q \<open>k = Inr u\<close> Inl e undone show thesis by auto
        qed
      qed
    qed
  qed
qed

end
