(* ===== verification/Clients.thy ===== *)
theory Clients
  imports BrowserHelper NetHelper Session
begin

text \<open>
  The daemon's side of its two helpers: \<open>SocketEgress\<close> (\<open>src/netd.rs\<close>) and \<open>SocketBrowser\<close>
  (\<open>src/browser.rs\<close>), one connection per request, against the helpers' own models. The machine's
  helper part holds both helpers and how each exchange over a socket goes.

  An exchange that fails to connect reaches no helper. One that fails later, or that the client's
  timeout cuts off, may have reached it all the same: the helper then does its work and only the
  answer is lost. An answer that arrives is the one the helper wrote. The JSON encoding between
  them is third-party: the helper's parser gets the encoded request, the response is passed as it
  is, and \<open>lk_eof\<close> is the parser's text for a connection closed without an answer.
\<close>

section \<open>Exchanges\<close>

datatype exchange =
    ConnectFails string
  | WriteFails bool string
  | ReadFails bool string
  | Garbled bool string
  | TimesOut bool
  | Completes

text \<open>Whether the helper got the request.\<close>

fun delivered :: "exchange \<Rightarrow> bool" where
  "delivered (ConnectFails _) = False"
| "delivered (WriteFails d _) = d"
| "delivered (ReadFails d _) = d"
| "delivered (Garbled d _) = d"
| "delivered (TimesOut d) = d"
| "delivered Completes = True"

record helpers =
  hp_net :: net_world
  hp_browser :: browser_world
  hp_exchange :: "nat \<Rightarrow> exchange"
  hp_exchanges :: nat

record links =
  lk_net :: net_daemon
  lk_browser :: browser_args
  lk_uid :: u32
  lk_encode_request :: "egress_request \<Rightarrow> string"
  lk_eof :: string

section \<open>SocketEgress\<close>

text \<open>
  The client's error texts around one exchange: \<open>answer\<close> is what the helper wrote, if it did.
\<close>

definition egress_result ::
  "links \<Rightarrow> exchange \<Rightarrow> egress_response option \<Rightarrow> app_error + egress_response" where
  "egress_result lk x answer =
     (case x of
        ConnectFails e \<Rightarrow> Inl (ServiceUnavailable (''netd connect: '' @ e))
      | WriteFails _ e \<Rightarrow> Inl (ServiceUnavailable (''netd write: '' @ e))
      | ReadFails _ e \<Rightarrow> Inl (ServiceUnavailable (''netd read: '' @ e))
      | Garbled _ e \<Rightarrow> Inl (ServiceUnavailable (''netd response: '' @ e))
      | TimesOut _ \<Rightarrow> Inl (ServiceUnavailable ''network helper timed out'')
      | Completes \<Rightarrow>
          (case answer of
             None \<Rightarrow> Inl (ServiceUnavailable (''netd response: '' @ lk_eof lk))
           | Some response \<Rightarrow>
               if \<not> eg_ok response then Inl (ServiceUnavailable (eg_detail response))
               else Inr response))"

definition written :: "helper_error + 'a \<Rightarrow> 'a option" where
  "written r = (case r of Inl _ \<Rightarrow> None | Inr a \<Rightarrow> Some a)"

definition egress_request_op ::
  "links \<Rightarrow> egress_command \<Rightarrow> (helpers machine, app_error, egress_response) op" where
  "egress_request_op lk command h =
     (let b = m_helpers h;
          x = hp_exchange b (hp_exchanges b);
          request = lk_encode_request lk \<lparr>rq_version = 1, rq_command = command\<rparr>;
          (r, net) = (if delivered x
                      then handle_request (lk_net lk) (Inr (lk_uid lk)) (Inr request) (hp_net b)
                      else (Inl (Failure []), hp_net b))
      in (egress_result lk x (written r),
          h\<lparr>m_helpers := b\<lparr>hp_net := net, hp_exchanges := Suc (hp_exchanges b)\<rparr>\<rparr>))"

definition socket_egress :: "links \<Rightarrow> helpers egress_backend" where
  "socket_egress lk = \<lparr>eg_apply = (\<lambda>mode. egress_request_op lk (Apply mode)),
     eg_reset = egress_request_op lk Reset\<rparr>"

section \<open>SocketBrowser\<close>

definition browser_result ::
  "links \<Rightarrow> exchange \<Rightarrow> browser_response option \<Rightarrow> app_error + unit" where
  "browser_result lk x answer =
     (case x of
        ConnectFails e \<Rightarrow> Inl (ServiceUnavailable (''browser connect: '' @ e))
      | WriteFails _ e \<Rightarrow> Inl (ServiceUnavailable (''browser request: '' @ e))
      | ReadFails _ e \<Rightarrow> Inl (ServiceUnavailable (''browser response: '' @ e))
      | Garbled _ e \<Rightarrow> Inl (ServiceUnavailable (''invalid browser response: '' @ e))
      | TimesOut _ \<Rightarrow> Inl (ServiceUnavailable ''browser helper timed out'')
      | Completes \<Rightarrow>
          (case answer of
             None \<Rightarrow> Inl (ServiceUnavailable (''invalid browser response: '' @ lk_eof lk))
           | Some response \<Rightarrow>
               if bs_ok response then Inr () else Inl (ServiceUnavailable (bs_detail response))))"

text \<open>The helper decodes a command the client encoded to that command.\<close>

definition browser_request_op ::
  "links \<Rightarrow> browser_command \<Rightarrow> (helpers machine, app_error, unit) op" where
  "browser_request_op lk command h =
     (let b = m_helpers h;
          x = hp_exchange b (hp_exchanges b);
          (r, browser) = (if delivered x
                          then handle_connection (lk_browser lk) (Inr (Inr command)) (hp_browser b)
                          else (Inl (Failure []), hp_browser b))
      in (browser_result lk x (written r),
          h\<lparr>m_helpers := b\<lparr>hp_browser := browser, hp_exchanges := Suc (hp_exchanges b)\<rparr>\<rparr>))"

definition socket_browser :: "links \<Rightarrow> helpers browser_backend" where
  "socket_browser lk = \<lparr>
     br_start = (\<lambda>session_id u profile egress.
       browser_request_op lk (StartBrowser session_id u profile egress)),
     br_stop = browser_request_op lk StopBrowser,
     br_navigate = (\<lambda>command. browser_request_op lk (NavigateBrowser command))\<rparr>"

end
