(* ===== verification/Conformance.thy ===== *)
theory Conformance
  imports SessionProps
begin

text \<open>
  The session layer against its backends: an active session's browser was started for the egress
  mode the session shows, and that mode's policy is in force. The contract is the locale
  \<open>backend_pair\<close>, interpreted here on the mock backends of \<open>src/browser.rs\<close> and \<open>src/netd.rs\<close>.
\<close>

section \<open>The backends' contract\<close>

text \<open>
  What a manager's two backends promise each other's side of the machine: \<open>running\<close> is the
  egress mode a browser runs for, if one may be running, \<open>ready\<close> the modes a navigation could
  start one for, and \<open>policy\<close> the mode whose firewall policy is in force. A helper that lost its
  state may come back ready for the modes \<open>fallback\<close>.
\<close>

locale backend_pair =
  fixes m :: "'b session_manager"
    and running :: "'b \<Rightarrow> egress_mode option" and ready :: "'b \<Rightarrow> egress_mode set"
    and fallback :: "egress_mode set" and policy :: "'b \<Rightarrow> egress_mode option" and invar :: "'b \<Rightarrow> bool"
  assumes start_invar: "invar (m_helpers h) \<Longrightarrow> invar (m_helpers (snd (br_start (sm_browser m) i u p e h)))"
    and start_runs: "invar (m_helpers h) \<Longrightarrow> fst (br_start (sm_browser m) i u p e h) = Inr () \<Longrightarrow>
      running (m_helpers (snd (br_start (sm_browser m) i u p e h))) = Some e"
    and start_ready: "invar (m_helpers h) \<Longrightarrow> fst (br_start (sm_browser m) i u p e h) = Inr () \<Longrightarrow>
      ready (m_helpers (snd (br_start (sm_browser m) i u p e h))) \<subseteq> {e}"
    and start_policy: "policy (m_helpers (snd (br_start (sm_browser m) i u p e h))) =
      policy (m_helpers h)"
    and stop_invar: "invar (m_helpers h) \<Longrightarrow> invar (m_helpers (snd (br_stop (sm_browser m) h)))"
    and stop_ends: "invar (m_helpers h) \<Longrightarrow> fst (br_stop (sm_browser m) h) = Inr () \<Longrightarrow>
      running (m_helpers (snd (br_stop (sm_browser m) h))) = None"
    and navigate_invar: "invar (m_helpers h) \<Longrightarrow>
      invar (m_helpers (snd (br_navigate (sm_browser m) c h)))"
    and navigate_runs: "invar (m_helpers h) \<Longrightarrow> running (m_helpers (snd (br_navigate (sm_browser m) c h)))
      \<in> {None, running (m_helpers h)} \<union> Some ` ready (m_helpers h)"
    and navigate_ready: "invar (m_helpers h) \<Longrightarrow>
      ready (m_helpers (snd (br_navigate (sm_browser m) c h))) \<subseteq> ready (m_helpers h) \<union> fallback"
    and navigate_policy: "policy (m_helpers (snd (br_navigate (sm_browser m) c h))) =
      policy (m_helpers h)"
    and apply_invar: "invar (m_helpers h) \<Longrightarrow> invar (m_helpers (snd (eg_apply (sm_egress m) e h)))"
    and apply_sets: "invar (m_helpers h) \<Longrightarrow> fst (eg_apply (sm_egress m) e h) = Inr x \<Longrightarrow>
      policy (m_helpers (snd (eg_apply (sm_egress m) e h))) = Some e"
    and reset_invar: "invar (m_helpers h) \<Longrightarrow> invar (m_helpers (snd (eg_reset (sm_egress m) h)))"
    and reset_runs: "running (m_helpers (snd (eg_reset (sm_egress m) h))) = running (m_helpers h)"
begin

lemmas invars = start_invar stop_invar navigate_invar apply_invar reset_invar

definition within :: "egress_mode \<Rightarrow> 'b \<Rightarrow> bool" where
  "within e b \<longleftrightarrow> policy b = Some e \<and> ready b \<subseteq> insert e fallback \<and>
     running b \<in> insert None (Some ` insert e fallback)"

definition conforming :: "'b sess \<Rightarrow> bool" where
  "conforming s \<longleftrightarrow> invar (m_helpers (ss_mach s)) \<and>
     (sn_phase (sd_snapshot (ss_data s)) = Active \<longrightarrow>
        within (sn_egress (sd_snapshot (ss_data s))) (m_helpers (ss_mach s))) \<and>
     (sn_phase (sd_snapshot (ss_data s)) = Idle \<longrightarrow> running (m_helpers (ss_mach s)) = None)"

lemma start_within:
  "invar (m_helpers h) \<Longrightarrow> policy (m_helpers h) = Some e \<Longrightarrow> fst (br_start (sm_browser m) i u p e h) = Inr () \<Longrightarrow>
   within e (m_helpers (snd (br_start (sm_browser m) i u p e h)))"
  using start_runs [of h i u p e] start_ready [of h i u p e] by (auto simp: within_def start_policy)

lemma navigate_within:
  "invar (m_helpers h) \<Longrightarrow> within e (m_helpers h) \<Longrightarrow>
   within e (m_helpers (snd (br_navigate (sm_browser m) c h)))"
  using navigate_runs [of h c] navigate_ready [of h c] by (auto simp: within_def navigate_policy)

lemma start_conforming: "conforming s \<Longrightarrow> wp (start m c u) (\<lambda>r s'. conforming s') s"
  unfolding start_def
  by (auto simp: wp_rules Let_def conforming_def starting_def start_within apply_sets invars
      split_def split: sum.splits)

lemma burn_conforming: "conforming s \<Longrightarrow> wp (burn_unchecked m) (\<lambda>r s'. conforming s') s"
  unfolding burn_unchecked_def
  by (auto simp: wp_rules Let_def conforming_def stop_ends reset_runs invars split_def split: sum.splits)

lemma navigate_conforming: "conforming s \<Longrightarrow> wp (navigate m c cmd) (\<lambda>r s'. conforming s') s"
  unfolding navigate_def
  by (cases cmd) (auto simp: wp_rules conforming_def navigate_within invars holds_active_def split: sum.splits)

lemma setting_conforming:
  assumes "conforming s" and "\<And>n. sn_phase (f n) = sn_phase n" "\<And>n. sn_egress (f n) = sn_egress n"
  shows "wp (change_setting c f ev) (\<lambda>r s'. conforming s') s"
  using assms unfolding change_setting_def by (auto simp: wp_rules conforming_def)

text \<open>Both halves of an egress switch leave the data alone and, when they succeed, the mode in force.\<close>

definition restarted :: "egress_mode \<Rightarrow> 'b sess \<Rightarrow> app_error + unit \<Rightarrow> 'b sess \<Rightarrow> bool" where
  "restarted e s r s' \<longleftrightarrow> ss_data s' = ss_data s \<and> invar (m_helpers (ss_mach s')) \<and>
     (r = Inr () \<longrightarrow> within e (m_helpers (ss_mach s')))"

lemma try_restarted:
  assumes "invar (m_helpers (ss_mach s))" and "ss_data t = ss_data s" "m_helpers (ss_mach t) = m_helpers (ss_mach s)"
  shows "wp (try_switch m i u p e) (restarted e s) t" and "wp (try_rollback m i u p e) (restarted e s) t"
  using assms by (auto simp: try_switch_def try_rollback_def restarted_def wp_rules invars start_within
      apply_sets split: sum.splits)

lemma rollback_conforming:
  assumes "invar (m_helpers (ss_mach s))" and "sn_phase (sd_snapshot (ss_data s)) = Burning"
  shows "wp (finish_rollback m u p e x) (\<lambda>r s'. conforming s') s"
  unfolding finish_rollback_def
  by (simp add: wp_rules, rule wp_mono [OF try_restarted(2) [OF assms(1)]])
    (auto simp: wp_rules Let_def restarted_def conforming_def assms(2) split: sum.splits)

lemma conforming_activeI:
  assumes "invar (m_helpers (ss_mach s))" and "sn_phase (sd_snapshot (ss_data s)) = Active"
    and "within (sn_egress (sd_snapshot (ss_data s))) (m_helpers (ss_mach s))"
  shows "conforming s"
  using assms by (simp add: conforming_def)

lemma switch_conforming: "conforming s \<Longrightarrow> wp (switch_egress m c mode) (\<lambda>r s'. conforming s') s"
proof -
  assume s: "conforming s"
  then have i: "invar (m_helpers (ss_mach s))" by (simp add: conforming_def)
  let ?b = "s\<lparr>ss_data := (ss_data s)\<lparr>sd_snapshot := (sd_snapshot (ss_data s))\<lparr>sn_phase := Burning\<rparr>\<rparr>\<rparr>"
  have b: "conforming ?b" using i by (simp add: conforming_def)
  show ?thesis
    unfolding switch_egress_def
    by (cases "sn_url (sd_snapshot (ss_data s))")
      (auto simp: wp_rules s b restarted_def i
        intro!: wp_mono [OF try_restarted(1) [of ?b]] rollback_conforming conforming_activeI split: sum.splits)
qed

lemma exec_conforming:
  assumes "conforming s" and "\<And>h. c \<noteq> SMachine h"
  shows "conforming (session_exec m c s)"
proof (cases c)
  case (SStart cl u)
  with start_conforming [OF assms(1)] show ?thesis by (simp add: wp_snd)
next
  case (SBurn cl)
  have "wp (burn m cl) (\<lambda>r s'. conforming s') s"
    using burn_conforming [OF assms(1)] assms(1) by (simp add: wp_burn)
  with SBurn show ?thesis by (simp add: wp_snd)
next
  case SForceBurn
  with burn_conforming [OF assms(1)] show ?thesis by (simp add: wp_snd force_burn_def)
next
  case (SNavigate cl cmd)
  with navigate_conforming [OF assms(1)] show ?thesis by (simp add: wp_snd)
next
  case (SSetProfile cl p)
  have "wp (set_stream_profile cl p) (\<lambda>r s'. conforming s') s"
    unfolding set_stream_profile_def by (rule setting_conforming [OF assms(1)]) simp_all
  with SSetProfile show ?thesis by (simp add: wp_snd)
next
  case (SSetBlocklist cl b)
  have "wp (set_blocklist_enabled cl b) (\<lambda>r s'. conforming s') s"
    unfolding set_blocklist_enabled_def by (rule setting_conforming [OF assms(1)]) simp_all
  with SSetBlocklist show ?thesis by (simp add: wp_snd)
next
  case (SSetAutoBurn cl n)
  have "wp (change_setting cl (\<lambda>x. x\<lparr>sn_auto_burn_seconds := n\<rparr>) ''auto_burn.setting'')
      (\<lambda>r s'. conforming s') s"
    by (rule setting_conforming [OF assms(1)]) simp_all
  with assms SSetAutoBurn show ?thesis by (simp add: set_auto_burn_seconds_def raise_def wp_snd)
next
  case (SSwitchEgress cl e)
  with switch_conforming [OF assms(1)] show ?thesis by (simp add: wp_snd)
qed (use assms in simp)

end

text \<open>
  A run in which the helpers change between the daemon's calls only as \<open>drift\<close> allows; clocks and
  files may change at any time.
\<close>

primrec session_run :: "'b session_manager \<Rightarrow> 'b session_call list \<Rightarrow> 'b sess \<Rightarrow> 'b sess" where
  "session_run m [] s = s"
| "session_run m (c # cs) s = session_run m cs (session_exec m c s)"

fun drifting ::
  "('b \<Rightarrow> 'b \<Rightarrow> bool) \<Rightarrow> 'b session_manager \<Rightarrow> 'b session_call list \<Rightarrow> 'b sess \<Rightarrow> bool" where
  "drifting drift m [] s = True"
| "drifting drift m (c # cs) s =
     ((case c of SMachine h \<Rightarrow> drift (m_helpers (ss_mach s)) (m_helpers h) | _ \<Rightarrow> True) \<and>
      drifting drift m cs (session_exec m c s))"

context backend_pair begin

text \<open>What the contract tolerates: a browser may end by itself, and its helper may lose its state.\<close>

definition harmless :: "'b \<Rightarrow> 'b \<Rightarrow> bool" where
  "harmless b b' \<longleftrightarrow> invar b' \<and> policy b' = policy b \<and> running b' \<in> {None, running b} \<and>
     ready b' \<subseteq> ready b \<union> fallback"

lemma machine_conforming:
  "conforming s \<Longrightarrow> harmless (m_helpers (ss_mach s)) (m_helpers h) \<Longrightarrow> conforming (s\<lparr>ss_mach := h\<rparr>)"
  by (auto simp: conforming_def harmless_def within_def)

lemma run_conforming:
  assumes "\<And>b b'. invar b \<Longrightarrow> drift b b' \<Longrightarrow> harmless b b'"
  shows "conforming s \<Longrightarrow> drifting drift m cs s \<Longrightarrow> conforming (session_run m cs s)"
proof (induction cs arbitrary: s)
  case (Cons c cs)
  have "conforming (session_exec m c s)"
  proof (cases "\<exists>h. c = SMachine h")
    case True
    then obtain h where c: "c = SMachine h" by blast
    have "invar (m_helpers (ss_mach s))" using Cons.prems(1) by (simp add: conforming_def)
    with Cons.prems(2) assms have "harmless (m_helpers (ss_mach s)) (m_helpers h)" by (simp add: c)
    with machine_conforming [OF Cons.prems(1)] show ?thesis by (simp add: c)
  next
    case False
    with Cons.prems(1) exec_conforming show ?thesis by blast
  qed
  with Cons show ?case by simp
qed simp

lemma new_conforming:
  "invar (m_helpers h) \<Longrightarrow> running (m_helpers h) = None \<Longrightarrow> conforming (session_new m h)"
  by (simp add: conforming_def session_new_def)

end

section \<open>The mock backends meet it\<close>

text \<open>
  The mock browser only records calls; the last start or stop among them says whether, and for
  which mode, a browser counts as running.
\<close>

definition call_mode :: "string \<Rightarrow> egress_mode option" where
  "call_mode c = (case rsplit_once CHR '':'' c of None \<Rightarrow> None
     | Some (_, mode) \<Rightarrow> (case egress_mode_from_str mode of Inl _ \<Rightarrow> None | Inr e \<Rightarrow> Some e))"

fun last_started :: "string list \<Rightarrow> egress_mode option" where
  "last_started [] = None"
| "last_started (c # cs) =
     (if prefix ''start:'' c then call_mode c
      else if c = ''stop'' then None else last_started cs)"

record mock_helpers =
  mh_calls :: "string list"
  mh_active :: egress_mode

definition mock_manager ::
  "(navigation_command \<Rightarrow> string) \<Rightarrow> path \<Rightarrow> egress_mode \<Rightarrow> stream_profile \<Rightarrow> u64 \<Rightarrow> blocklist \<Rightarrow>
     mock_helpers session_manager" where
  "mock_manager show_command dir egress profile seconds bl = \<lparr>
     sm_browser = mock_browser mh_calls_update show_command, sm_egress = mock_egress mh_active_update,
     sm_runtime_dir = dir, sm_initial_egress = egress, sm_initial_profile = profile,
     sm_initial_auto_burn = seconds, sm_blocklist = bl\<rparr>"

lemma call_mode_start: "call_mode (''start:'' @ u @ '':'' @ p @ '':'' @ egress_mode_display e) = Some e"
proof -
  have "CHR '':'' \<notin> set (egress_mode_display e)" by (cases e) auto
  then have "rsplit_once CHR '':'' ((''start:'' @ u @ '':'' @ p) @ CHR '':'' # egress_mode_display e) =
      Some (''start:'' @ u @ '':'' @ p, egress_mode_display e)"
    by (rule rsplit_once_append)
  then show ?thesis
    using egress_mode_roundtrip [of "egress_mode_display e" e]
    by (simp add: call_mode_def eq_ignore_ascii_case_def)
qed

lemmas mock_defs = mock_manager_def mock_browser_def mock_egress_def mock_apply_def
  helpers_op_def modify_def and_then_def ret_def

interpretation mock: backend_pair "mock_manager show_command dir egress profile seconds bl"
    "\<lambda>b. last_started (rev (mh_calls b))" "\<lambda>b. set_option (last_started (rev (mh_calls b)))" "{}"
    "\<lambda>b. Some (mh_active b)" "\<lambda>_. True"
  by unfold_locales (simp_all add: mock_defs call_mode_start [simplified])

text \<open>
  With the mock helpers, after every sequence of calls on a fresh manager, an active session
  has the policy of the mode it shows in force and its browser, if one is running, was started for
  exactly that mode; and no browser is running while the session is idle.
\<close>

theorem active_session_runs_under_its_policy:
  assumes "last_started (rev (mh_calls (m_helpers h))) = None"
    and "drifting (=) (mock_manager sc dir egress profile secs bl) cs
      (session_new (mock_manager sc dir egress profile secs bl) h)"
    and "s = session_run (mock_manager sc dir egress profile secs bl) cs
      (session_new (mock_manager sc dir egress profile secs bl) h)"
  shows "if sn_phase (sd_snapshot (ss_data s)) = Active
    then mh_active (m_helpers (ss_mach s)) = sn_egress (sd_snapshot (ss_data s)) \<and>
      last_started (rev (mh_calls (m_helpers (ss_mach s)))) \<in>
        {None, Some (sn_egress (sd_snapshot (ss_data s)))}
    else sn_phase (sd_snapshot (ss_data s)) = Idle \<longrightarrow>
      last_started (rev (mh_calls (m_helpers (ss_mach s)))) = None"
  using mock.run_conforming [OF _ mock.new_conforming [OF TrueI assms(1)] assms(2)]
  unfolding assms(3) [symmetric] mock.conforming_def mock.harmless_def mock.within_def by auto

theorem active_session_runs_under_its_policy_witness:
  "last_started (rev (mh_calls (m_helpers (ss_mach
     (session_run (mock_manager (\<lambda>_. []) ''/r/s'' Tor Hd15 600 None) [SForceBurn]
       (session_new (mock_manager (\<lambda>_. []) ''/r/s'' Tor Hd15 600 None)
         \<lparr>m_instant = 0, m_utc = 0, m_random = (\<lambda>n. None), m_draws = 0, m_uuid = (\<lambda>n. 0),
          m_uuids = 0, m_fs = [], m_fault = (\<lambda>_. None),
          m_helpers = \<lparr>mh_calls = [], mh_active = Direct\<rparr>\<rparr>)))))) = None"
proof -
  let ?m = "mock_manager (\<lambda>_. []) ''/r/s'' Tor Hd15 600 None"
  let ?h = "\<lparr>m_instant = 0, m_utc = 0, m_random = (\<lambda>n. None), m_draws = 0, m_uuid = (\<lambda>n. 0),
          m_uuids = 0, m_fs = [], m_fault = (\<lambda>_. None),
          m_helpers = \<lparr>mh_calls = [], mh_active = Direct\<rparr>\<rparr>"
  have u: "drifting (=) ?m [SForceBurn] (session_new ?m ?h)"
    by (simp add: session_new_def)
  have "wp (burn_unchecked ?m) (\<lambda>r s. sn_phase (sd_snapshot (ss_data s)) = Idle) (session_new ?m ?h)"
    by (simp add: burn_unchecked_def wp_rules session_new_def)
  then have i: "sn_phase (sd_snapshot (ss_data (session_run ?m [SForceBurn] (session_new ?m ?h)))) = Idle"
    by (simp add: wp_snd force_burn_def)
  show ?thesis
    using active_session_runs_under_its_policy [OF _ u refl] i by simp
qed

end
