(* ===== verification/NetHelperProps.thy ===== *)
theory NetHelperProps
  imports NetHelper ConfigProps
begin

text \<open>
  What the privileged helper of \<open>src/bin/xanhtab-netd.rs\<close> guarantees over any sequence of requests,
  commands that fail and deadlines that cut them off.
\<close>

section \<open>The table at every step\<close>

lemma in_force_script: "wd_script w' = wd_script w \<Longrightarrow> in_force d mode e w' = in_force d mode e w"
  by (simp add: in_force_def)

lemma load_kill_switch_script:
  "load_kill_switch d w = (r, w') \<Longrightarrow> wd_script w' = wd_script w \<or> in_force d None None w'"
  using keepsD2 [OF keeps_load_kill_switch [of "\<lambda>v. wd_script v = wd_script w \<or>
    wd_script v = Some (kill_switch_script (nd_config d))" d], of w]
  by (auto simp: stepwise_def in_force_kill_switch)

lemma load_policy_script:
  assumes "intended_endpoint d (Some mode) e" and "load_policy d mode e w = (r, w')"
  shows "wd_script w' = wd_script w \<or> in_force d (Some mode) e w'"
proof -
  have "keeps (\<lambda>v. wd_script v = wd_script w \<or> in_force d (Some mode) e v) (load_policy d mode e)"
    by (rule keeps_load_policy) (auto simp: stepwise_def in_force_def assms(1))
  from keepsD2 [OF this _ assms(2)] show ?thesis by simp
qed

lemma transition_inner_script:
  assumes "transition_inner d mode w = (r, w')"
  shows "wd_script w' = wd_script w \<or> (\<exists>e. in_force d (Some mode) e w')"
proof -
  let ?I = "\<lambda>v. wd_script v = wd_script w"
  let ?Q = "\<lambda>r v. wd_script v = wd_script w \<or> (\<exists>e. in_force d (Some mode) e v)"
  have st: "stepwise ?I" by (simp add: stepwise_def)
  have load: "?Q r v'" if "policy_endpoint d mode u = (Inr e, u')" "?I v" "load_policy d mode e v = (r, v')"
    for e u u' v v' r
    using load_policy_script [OF policy_endpoint_ok [OF that(1)] that(3)] that(2) by auto
  have probe: "keeps ?I (case e of None \<Rightarrow> ret () | Some e \<Rightarrow> probe_proxy e (nd_dry_run d))" for e
    by (cases e) (auto intro: keeps_ret keeps_probe st)
  obtain r1 w1 where 1: "teardown_wireguard (nd_config d) (nd_dry_run d) w = (r1, w1)" by fastforce
  obtain r2 w2 where 2: "policy_endpoint d mode w1 = (r2, w2)" by fastforce
  obtain r3 w3 where 3: "(if mode = WireGuard then set_up_wireguard d else ret ()) w2 = (r3, w3)" by fastforce
  have i1: "?I w1" using keepsD2 [where I = ?I, OF keeps_teardown _ 1] st by simp
  then have i2: "?I w2" using keepsD2 [where I = ?I, OF keeps_policy_endpoint _ 2] st by simp
  then have i3: "?I w3" using keepsD2 [where I = ?I, OF keeps_if [OF keeps_set_up_wireguard keeps_ret] _ 3] st by simp
  have "wp (and_then (case e of None \<Rightarrow> ret () | Some e \<Rightarrow> probe_proxy e (nd_dry_run d)) (\<lambda>_.
      load_policy d mode e)) ?Q w3" if "r2 = Inr e" for e
  proof (rule wpI)
    fix r s' assume run: "and_then (case e of None \<Rightarrow> ret () | Some e \<Rightarrow> probe_proxy e (nd_dry_run d))
      (\<lambda>_. load_policy d mode e) w3 = (r, s')"
    obtain r4 w4 where 4: "(case e of None \<Rightarrow> ret () | Some e \<Rightarrow> probe_proxy e (nd_dry_run d)) w3 = (r4, w4)"
      by fastforce
    have "?I w4" using keepsD2 [OF probe i3 4] .
    with 2 that 4 run load show "?Q r s'" by (cases r4) (auto simp: op_simps)
  qed
  with assms 1 2 3 i1 i2 i3 show ?thesis
    unfolding transition_inner_def
    by (cases r1; cases r2; cases r3) (auto simp: op_simps wp_def split: prod.splits)
qed

text \<open>Some policy is whole in the table, and no other is claimed.\<close>

definition net_inv :: "net_daemon \<Rightarrow> net_world \<Rightarrow> bool" where
  "net_inv d w \<longleftrightarrow> honest w \<and>
     (\<exists>mode e. in_force d mode e w \<and> (wd_active w = None \<or> wd_active w = mode))"

lemma active_unchanged:
  "load_kill_switch d w = (r1, w1) \<Longrightarrow> wd_active w1 = wd_active w"
  "transition_inner d mode w = (r2, w2) \<Longrightarrow> wd_active w2 = wd_active w"
  "teardown_wireguard c dry w = (r3, w3) \<Longrightarrow> wd_active w3 = wd_active w"
proof -
  let ?I = "\<lambda>v. wd_active v = wd_active w"
  have "keeps ?I (load_kill_switch d)" by (rule keeps_load_kill_switch) simp_all
  then show "load_kill_switch d w = (r1, w1) \<Longrightarrow> wd_active w1 = wd_active w"
    by (rule keepsD2 [where I = ?I]) simp_all
  have "keeps ?I (transition_inner d mode)" by (rule keeps_transition_inner) simp_all
  then show "transition_inner d mode w = (r2, w2) \<Longrightarrow> wd_active w2 = wd_active w"
    by (rule keepsD2 [where I = ?I]) simp_all
  have "keeps ?I (teardown_wireguard c dry)" by (rule keeps_teardown) simp
  then show "teardown_wireguard c dry w = (r3, w3) \<Longrightarrow> wd_active w3 = wd_active w"
    by (rule keepsD2 [where I = ?I]) simp_all
qed

lemma teardown_script: "teardown_wireguard c dry w = (r, w') \<Longrightarrow> wd_script w' = wd_script w"
proof -
  let ?I = "\<lambda>v. wd_script v = wd_script w"
  have "keeps ?I (teardown_wireguard c dry)" by (rule keeps_teardown) simp
  then show "teardown_wireguard c dry w = (r, w') \<Longrightarrow> wd_script w' = wd_script w"
    by (rule keepsD2 [where I = ?I]) simp_all
qed

lemma keeps_honest:
  "keeps honest (load_kill_switch d)" "keeps honest (transition_inner d mode)"
  "keeps honest (teardown_wireguard c dry)" "keeps honest (transition d mode)"
  by (auto intro!: keeps_load_kill_switch keeps_transition_inner keeps_teardown keeps_transition)

lemma transition_error_inactive:
  assumes "transition d mode w = (Inl x, w')"
  shows "wd_active w' = None"
  using assms
proof (cases rule: transition_cases)
  case refused
  show ?thesis using active_unchanged(1) [OF refused(2)] by simp
next
  case dropped
  show ?thesis using active_unchanged(1) [OF dropped(1)] active_unchanged(2) [OF dropped(4)] by simp
next
  case stuck
  show ?thesis
    using active_unchanged(1) [OF stuck(1)] active_unchanged(2) [OF stuck(2)] active_unchanged(3) [OF stuck(5)]
    by simp
next
  case undone
  show ?thesis
    using active_unchanged(1) [OF undone(1)] active_unchanged(2) [OF undone(2)]
      active_unchanged(3) [OF undone(3)] active_unchanged(1) [OF undone(4)] by simp
qed simp

text \<open>The table is as it was, or holds a policy.\<close>

definition reloaded :: "net_daemon \<Rightarrow> net_world \<Rightarrow> net_world \<Rightarrow> bool" where
  "reloaded d w w' \<longleftrightarrow> wd_script w' = wd_script w \<or> (\<exists>mode e. in_force d mode e w')"

lemma reloaded_trans [trans]: "reloaded d u v \<Longrightarrow> reloaded d v w \<Longrightarrow> reloaded d u w"
  using in_force_script by (metis reloaded_def)

lemma reloaded_steps:
  "load_kill_switch d w = (r1, w1) \<Longrightarrow> reloaded d w w1"
  "transition_inner d mode w = (r2, w2) \<Longrightarrow> reloaded d w w2"
  "teardown_wireguard c dry w = (r3, w3) \<Longrightarrow> reloaded d w w3"
  using load_kill_switch_script [of d w r1 w1] transition_inner_script [of d mode w r2 w2]
    teardown_script [of c dry w r3 w3]
  by (auto simp: reloaded_def)

lemma reloaded_active [simp]: "reloaded d (w\<lparr>wd_active := m\<rparr>) w' = reloaded d w w'"
    "reloaded d w (w'\<lparr>wd_active := m\<rparr>) = reloaded d w w'"
  by (simp_all add: reloaded_def in_force_def)

lemma transition_script:
  assumes "transition d mode w = (r, w')"
  shows "reloaded d w w'"
  using assms
proof (cases rule: transition_cases)
  case refused
  show ?thesis using reloaded_steps(1) [OF refused(2)] by simp
next
  case (dropped x w1)
  have "reloaded d w w1" using reloaded_steps(1) [OF dropped(1)] by simp
  also have "reloaded d w1 w'" by (rule reloaded_steps(2) [OF dropped(4)])
  finally show ?thesis .
next
  case (stuck x w1 w2)
  have "reloaded d w w1" using reloaded_steps(1) [OF stuck(1)] by simp
  also have "reloaded d w1 w2" by (rule reloaded_steps(2) [OF stuck(2)])
  also have "reloaded d w2 w'" by (rule reloaded_steps(3) [OF stuck(5)])
  finally show ?thesis .
next
  case (undone t q w1 w2 w3)
  have "reloaded d w w1" using reloaded_steps(1) [OF undone(1)] by simp
  also have "reloaded d w1 w2" by (rule reloaded_steps(2) [OF undone(2)])
  also have "reloaded d w2 w3" by (rule reloaded_steps(3) [OF undone(3)])
  also have "reloaded d w3 w'" by (rule reloaded_steps(1) [OF undone(4)])
  finally show ?thesis .
next
  case (finished w1 w2)
  have "reloaded d w w1" using reloaded_steps(1) [OF finished(1)] by simp
  also have "reloaded d w1 w2" by (rule reloaded_steps(2) [OF finished(2)])
  finally show ?thesis using finished(3) by simp
qed

lemma transition_done:
  assumes "honest w" and "\<not> nd_dry_run d" and "transition d mode w = (Inr resp, w')"
  shows "wd_active w' = Some mode \<and> (\<exists>e. in_force d (Some mode) e w') \<and>
    eg_ok resp \<and> eg_active_mode resp = mode"
  using assms(3)
proof (cases rule: transition_cases)
  case (finished w1 w2)
  have "honest w1" using keepsD2 [OF keeps_honest(1) _ finished(1)] assms(1) by simp
  from transition_inner_ok [OF this assms(2) finished(2)] finished(3,4) show ?thesis
    by (simp add: in_force_def)
qed (simp_all split: if_splits)

lemma transition_inv:
  assumes "net_inv d w" and "\<not> nd_dry_run d" and "transition d mode w = (r, w')"
  shows "net_inv d w'"
proof -
  have h: "honest w'" using keepsD2 [OF keeps_honest(4) _ assms(3)] assms(1) by (simp add: net_inv_def)
  obtain m e where m: "in_force d m e w" using assms(1) by (auto simp: net_inv_def)
  show ?thesis
  proof (cases r)
    case (Inl x)
    have "\<exists>m e. in_force d m e w'"
      using transition_script [OF assms(3)] m in_force_script [of w' w] unfolding reloaded_def by metis
    with h transition_error_inactive assms(3) Inl show ?thesis by (auto simp: net_inv_def)
  next
    case (Inr resp)
    with transition_done [OF _ assms(2)] assms(1,3) h show ?thesis by (auto simp: net_inv_def)
  qed
qed

section \<open>Requests\<close>

lemma suffix_join_last: "suffix k (join sep (xs @ [a @ k]))"
proof (induction xs)
  case (Cons x xs)
  then show ?case by (simp add: join_Cons suffix_def) (metis append.assoc)
qed (simp add: suffix_def)

lemma perform_inv:
  assumes "net_inv d w" and "\<not> nd_dry_run d" and "perform d command w = (r, w')"
  shows "net_inv d w'"
  using assms transition_inv [OF assms(1,2)]
  by (auto simp: perform_def gets_def split: egress_command.splits)

lemma handle_request_cases:
  assumes "handle_request d peer line w = (r, w')"
  obtains (closed) e where "r = Inl (Failure e)" and "w' = w"
  | (performed) uid input request q where "peer = Inr uid" and "line = Inr input" and
      "authorize_peer_uid uid (nw_control_uid (nd_config d)) (nw_browser_uid (nd_config d)) = Inr ()" and
      "nd_parse_request d input = Some request" and "rq_version request = 1" and
      "perform d (rq_command request) w = (q, w')" and
      "r = (case q of Inl (Failure e) \<Rightarrow> Inr (refusal e)
        | Inl Dropped \<Rightarrow> Inr (refusal ''netd command timed out'')
        | Inl Panicked \<Rightarrow> Inl Panicked | Inr response \<Rightarrow> Inr response)"
proof (cases peer)
  case (Inl e)
  with assms closed show thesis by (auto simp: handle_request_def fallible_def raise_def)
next
  case (Inr uid)
  let ?auth = "authorize_peer_uid uid (nw_control_uid (nd_config d)) (nw_browser_uid (nd_config d))"
  show thesis
  proof (cases ?auth)
    case (Inl e)
    with Inr assms closed show thesis by (auto simp: handle_request_def fallible_def raise_def)
  next
    case auth: (Inr u)
    note run = assms [unfolded handle_request_def fallible_def Inr, simplified, unfolded auth, simplified]
    show thesis
    proof (cases line)
      case (Inl e)
      with run closed show thesis by (auto simp: raise_def)
    next
      case line: (Inr input)
      show thesis
      proof (cases "nd_parse_request d input")
        case None
        with run line closed show thesis by (auto simp: raise_def)
      next
        case (Some request)
        show thesis
        proof (cases "rq_version request = 1")
          case False
          with run line Some closed show thesis by (auto simp: raise_def)
        next
          case True
          obtain q v where q: "perform d (rq_command request) w = (q, v)" by fastforce
          with run line Some True have "w' = v" "r = (case q of Inl (Failure e) \<Rightarrow> Inr (refusal e)
            | Inl Dropped \<Rightarrow> Inr (refusal ''netd command timed out'')
            | Inl Panicked \<Rightarrow> Inl Panicked | Inr response \<Rightarrow> Inr response)"
            by (auto simp: within_deadline_def split: sum.splits helper_error.splits)
          with q Inr auth line Some True performed show thesis by simp
        qed
      qed
    qed
  qed
qed

lemma handle_request_inv:
  assumes "net_inv d w" and "\<not> nd_dry_run d" and "handle_request d peer line w = (r, w')"
  shows "net_inv d w'"
  using assms(3)
proof (cases rule: handle_request_cases)
  case closed
  with assms(1) show ?thesis by simp
next
  case performed
  show ?thesis by (rule perform_inv [OF assms(1,2) performed(6)])
qed

lemma handle_request_applied:
  assumes "honest w" and "\<not> nd_dry_run d" and "nd_parse_request d input = Some \<lparr>rq_version = v, rq_command = Apply mode\<rparr>"
    and "handle_request d peer (Inr input) w = (Inr response, w')" and "eg_ok response"
  shows "wd_active w' = Some mode"
  using assms(4)
proof (cases rule: handle_request_cases)
  case (performed uid line request q)
  with assms(3) have "transition d mode w = (q, w')" by (simp add: perform_def)
  moreover from this performed(7) assms(5) have "q = Inr response"
    by (auto simp: refusal_def split: sum.splits helper_error.splits)
  ultimately show ?thesis using transition_done [OF assms(1,2)] by simp
qed (use assms in simp)

text \<open>
  The helper as it runs: started, and then any requests. They queue on the state's lock, which
  each holds until its command has ended or was dropped.
\<close>

inductive net_reachable :: "net_daemon \<Rightarrow> net_world \<Rightarrow> bool" for d where
  up: "honest w0 \<Longrightarrow> wd_active w0 = None \<Longrightarrow> initialize_network d w0 = (Inr (), w) \<Longrightarrow> net_reachable d w"
| request: "net_reachable d w \<Longrightarrow> handle_request d peer line w = (r, w') \<Longrightarrow> net_reachable d w'"

lemma net_reachable_inv:
  assumes "net_reachable d w" and "\<not> nd_dry_run d"
  shows "net_inv d w"
  using assms(1)
proof induction
  case (up w0 w)
  then obtain w1 where k: "load_kill_switch d w0 = (Inr (), w1)"
    and t: "teardown_wireguard (nd_config d) (nd_dry_run d) w1 = (Inr (), w)"
    by (auto simp: initialize_network_def elim: and_then_InrE)
  have "in_force d None None w"
    using in_force_kill_switch [OF load_kill_switch_ok [OF up(1) assms(2) k]]
      in_force_script [OF teardown_script [OF t]] by simp
  moreover have "honest w"
    using keepsD2 [OF keeps_honest(1) up(1) k] keepsD2 [OF keeps_honest(3) _ t] by blast
  moreover have "wd_active w = None"
    using active_unchanged(1) [OF k] active_unchanged(3) [OF t] up(2) by simp
  ultimately show ?case unfolding net_inv_def by blast
next
  case (request w peer line r w')
  show ?case by (rule handle_request_inv [OF request.IH assms(2) request.hyps(2)])
qed

section \<open>Properties\<close>

text \<open>
  C21. A transition that reports success has put its policy in force: the table holds the script
  of the requested mode, toward the endpoint the configuration names for it, and the answer and
  the recorded mode say so. Whatever leaves the machine from then on is exactly what that mode
  lets out.
\<close>

theorem transition_installs_policy:
  assumes "honest w" and "\<not> nd_dry_run d" and "transition d mode w = (Inr response, w')"
  shows "wd_active w' = Some mode \<and> eg_ok response \<and> eg_active_mode response = mode \<and>
    (\<exists>e. in_force d (Some mode) e w' \<and> (readable_endpoint e \<longrightarrow>
      (\<forall>p. table_lets_out w' p = lets_out (nw_browser_uid (nd_config d)) (Some mode) e p)))"
proof -
  obtain e where "in_force d (Some mode) e w'" using transition_done [OF assms] by blast
  with transition_done [OF assms] in_force_lets_out show ?thesis by blast
qed

text \<open>
  C22. A transition that fails, short of being cut off by its deadline, ends by loading the
  kill-switch, and no mode is recorded as active. Either the kill-switch is then in force and not
  one packet of the browser leaves, or loading it failed and the error returned ends with why.
\<close>

theorem failed_transition_fails_closed:
  assumes "honest w" and "\<not> nd_dry_run d" and "transition d mode w = (Inl (Failure x), w')"
  shows "wd_active w' = None \<and>
    (((\<forall>p. table_lets_out w' p \<longleftrightarrow> pk_uid p \<noteq> nw_browser_uid (nd_config d)) \<and> in_force d None None w') \<or>
     (\<exists>t k. load_kill_switch d t = (Inl (Failure k), w') \<and> suffix k x))"
proof -
  have closed: "(\<forall>p. table_lets_out w' p \<longleftrightarrow> pk_uid p \<noteq> nw_browser_uid (nd_config d)) \<and> in_force d None None w'"
    if "load_kill_switch d t = (Inr (), w')" "honest t" for t
    using in_force_kill_switch [OF load_kill_switch_ok [OF that(2) assms(2) that(1)]]
      in_force_lets_out [of d None None w'] by (simp add: readable_endpoint_def lets_out_def)
  from assms(3) have "((\<forall>p. table_lets_out w' p \<longleftrightarrow> pk_uid p \<noteq> nw_browser_uid (nd_config d)) \<and> in_force d None None w') \<or>
     (\<exists>t k. load_kill_switch d t = (Inl (Failure k), w') \<and> suffix k x)"
  proof (cases rule: transition_cases)
    case refused
    then show ?thesis by auto
  next
    case (undone t q w1 w2 w3 e)
    have "honest w1" using keepsD2 [OF keeps_honest(1) _ undone(1)] assms(1) by simp
    then have "honest w2" using keepsD2 [OF keeps_honest(2) _ undone(2)] by blast
    then have h3: "honest w3" using keepsD2 [OF keeps_honest(3) _ undone(3)] by blast
    show ?thesis
    proof (cases q)
      case (Inr u)
      with closed [OF _ h3] undone(4) show ?thesis by simp
    next
      case (Inl y)
      with undone(5) obtain k where y: "y = Failure k"
        by (auto split: if_splits)
      with undone(5) Inl have "x = join ''; '' (e # labelled ''WireGuard cleanup'' (caught t) @
          [''kill-switch restore'' @ '': '' @ k])"
        by (simp add: caught_def labelled_def split: if_splits)
      then have "suffix k x" using suffix_join_last [of k "''; ''" "e # labelled ''WireGuard cleanup'' (caught t)" "''kill-switch restore: ''"] by simp
      with undone(4) Inl y show ?thesis by blast
    qed
  qed auto
  with transition_error_inactive [OF assms(3)] show ?thesis by blast
qed

text \<open>
  C23. At any time while the helper runs, whatever was asked of it, failed, or was cut off by a
  deadline, the table holds one complete policy, the kill-switch or that of a mode toward the
  endpoint configured for it, and the status it answers never claims a mode that is not the one
  in force.
\<close>

theorem status_is_honest:
  assumes "net_reachable d w" and "\<not> nd_dry_run d"
  shows "\<exists>mode e. in_force d mode e w \<and>
    (eg_ok (status_response (wd_active w)) \<longrightarrow> mode = Some (eg_active_mode (status_response (wd_active w)))) \<and>
    (readable_endpoint e \<longrightarrow>
      (\<forall>p. table_lets_out w p = lets_out (nw_browser_uid (nd_config d)) mode e p))"
proof -
  obtain mode e where m: "in_force d mode e w" "wd_active w = None \<or> wd_active w = mode"
    using net_reachable_inv [OF assms] by (auto simp: net_inv_def)
  have "eg_ok (status_response (wd_active w)) \<longrightarrow> mode = Some (eg_active_mode (status_response (wd_active w)))"
    using m(2) by (auto simp: status_response_def)
  with m(1) in_force_lets_out [OF m(1)] show ?thesis by blast
qed

section \<open>A working machine, for the witnesses\<close>

definition fine_run :: run_result where
  "fine_run = \<lparr>rr_spawned = True, rr_write_error = None, rr_deadline = False,
     rr_exit = Some (True, [], []), rr_effect = True\<rparr>"

definition demo_world :: net_world where
  "demo_world = \<lparr>wd_steps = 0, wd_run = (\<lambda>_. fine_run), wd_connect = (\<lambda>_. Refused),
     wd_link_exists = (\<lambda>_. False), wd_files = (\<lambda>_. \<lparr>sf_metadata = (\<lambda>_. None), sf_text = (\<lambda>_. None)\<rparr>),
     wd_script = None, wd_started = [], wd_active = None\<rparr>"

definition demo_helper :: net_daemon where
  "demo_helper = \<lparr>nd_config = cf_network installed_config, nd_dry_run = False,
     nd_parse_url = demo_parse_url, nd_decode = (\<lambda>_. None),
     nd_parse_request = (\<lambda>s. if s = ''reset'' then Some \<lparr>rq_version = 1, rq_command = Reset\<rparr> else None)\<rparr>"

definition fine :: "net_world \<Rightarrow> bool" where
  "fine w \<longleftrightarrow> wd_run w = (\<lambda>_. fine_run) \<and> wd_link_exists w = (\<lambda>_. False) \<and> wd_connect w = (\<lambda>_. Refused)"

definition succeeds :: "'a net_op \<Rightarrow> 'a \<Rightarrow> bool" where
  "succeeds m a \<longleftrightarrow> (\<forall>w. fine w \<longrightarrow> (\<exists>w'. m w = (Inr a, w') \<and> fine w'))"

lemma fine_honest: "fine w \<Longrightarrow> honest w"
  by (simp add: fine_def honest_def honest_run_def fine_run_def)

lemma fine_demo: "fine demo_world" by (simp add: fine_def demo_world_def)

lemma succeeds_ret: "succeeds (ret a) a"
  by (simp add: succeeds_def ret_def)

lemma succeeds_and_then: "succeeds m a \<Longrightarrow> succeeds (f a) b \<Longrightarrow> succeeds (and_then m f) b"
  by (fastforce simp: succeeds_def and_then_def)

lemma succeeds_run_spec: "succeeds (run_spec dry allow ign spec) ()"
  by (auto simp: succeeds_def run_spec_def run_command_def judge_run_def and_then_def ret_def
      fine_def fine_run_def Let_def)

lemma succeeds_steps: "(\<And>m. m \<in> set ms \<Longrightarrow> succeeds m ()) \<Longrightarrow> succeeds (steps ms) ()"
  by (induction ms) (auto intro: succeeds_ret succeeds_and_then)

lemma succeeds_run_plan: "succeeds (run_plan plan dry allow ign) ()"
  by (auto simp: run_plan_def intro!: succeeds_steps succeeds_run_spec)

lemma succeeds_check_rule: "succeeds (check_rule c ipv6) ()"
  by (auto simp: succeeds_def check_rule_def policy_rule_remains_def run_command_def and_then_def
      ret_def fine_def fine_run_def Let_def)

lemma succeeds_teardown: "succeeds (teardown_wireguard c dry) ()"
proof -
  have "succeeds link_exists False" by (auto simp: succeeds_def link_exists_def fine_def)
  then show ?thesis
    unfolding teardown_wireguard_def
    by (auto intro!: succeeds_and_then succeeds_run_plan succeeds_ret succeeds_check_rule succeeds_steps
        simp del: steps.simps)
qed

lemma succeeds_load_kill_switch: "succeeds (load_kill_switch d) ()"
  by (simp add: load_kill_switch_def succeeds_run_plan)

lemma succeeds_set_active: "succeeds (set_active m) ()"
  by (auto simp: succeeds_def set_active_def modify_def fine_def)

lemma succeeds_direct: "succeeds (transition_inner d Direct) ()"
  unfolding transition_inner_def
  by (auto intro!: succeeds_and_then [OF succeeds_teardown] succeeds_and_then [of _ None] succeeds_ret
      succeeds_run_plan simp: policy_endpoint_def Let_def load_policy_def active_policy_plan_def
      is_proxy_mode_def nft_transaction_def nft_script_def)

lemma fine_direct: "fine w \<Longrightarrow> \<exists>resp w'. transition d Direct w = (Inr resp, w') \<and> fine w' \<and> eg_ok resp"
proof -
  assume w: "fine w"
  obtain w1 where 1: "set_active None w = (Inr (), w1)" "fine w1"
    using succeeds_set_active w by (auto simp: succeeds_def)
  then obtain w2 where 2: "load_kill_switch d w1 = (Inr (), w2)" "fine w2"
    using succeeds_load_kill_switch [of d] by (auto simp: succeeds_def)
  then obtain w3 where 3: "transition_inner d Direct w2 = (Inr (), w3)" "fine w3"
    using succeeds_direct [of d] by (auto simp: succeeds_def)
  have "fine (w3\<lparr>wd_active := Some Direct\<rparr>)" using 3(2) by (simp add: fine_def)
  with 1 2 3 show ?thesis by (simp add: transition_def op_defs catch_def set_active_def)
qed

lemmas demo_direct = fine_direct [OF fine_demo]

lemma demo_tor: "\<exists>x w'. transition demo_helper Tor demo_world = (Inl (Failure x), w')"
proof -
  obtain w1 where 1: "set_active None demo_world = (Inr (), w1)" "fine w1"
    using succeeds_set_active fine_demo by (auto simp: succeeds_def)
  then obtain w2 where 2: "load_kill_switch demo_helper w1 = (Inr (), w2)" "fine w2"
    using succeeds_load_kill_switch [of demo_helper] by (auto simp: succeeds_def)
  then obtain w3 where 3: "teardown_wireguard (nd_config demo_helper) False w2 = (Inr (), w3)" "fine w3"
    using succeeds_teardown [of "nd_config demo_helper" False] by (auto simp: succeeds_def)
  have m: "check_managed_proxy demo_parse_url ''tor_proxy'' (nw_tor_proxy (nd_config demo_helper)) = Inr ()"
    by (simp add: demo_helper_def installed_config_def demo_managed)
  then obtain p where p: "validate_proxy_url demo_parse_url (nw_tor_proxy (nd_config demo_helper)) False = Inr p"
    by (auto simp: check_managed_proxy_def split: sum.splits)
  let ?f = "''egress proxy endpoint '' @ show_socket_addr (vp_endpoint p) @ '' is unavailable''"
  let ?w4 = "w3\<lparr>wd_steps := Suc (wd_steps w3)\<rparr>"
  have "nd_dry_run demo_helper = False" "nd_parse_url demo_helper = demo_parse_url"
    by (simp_all add: demo_helper_def)
  with 3 p have inner: "transition_inner demo_helper Tor w2 = (Inl (Failure ?f), ?w4)"
    by (simp add: transition_inner_def op_defs policy_endpoint_def Let_def fallible_def probe_proxy_def
        fine_def)
  have "fine ?w4" using 3(2) by (simp add: fine_def)
  then obtain w5 where 5: "teardown_wireguard (nd_config demo_helper) False ?w4 = (Inr (), w5)" "fine w5"
    using succeeds_teardown [of "nd_config demo_helper" False] by (auto simp: succeeds_def)
  then obtain w6 where "load_kill_switch demo_helper w5 = (Inr (), w6)"
    using succeeds_load_kill_switch [of demo_helper] by (auto simp: succeeds_def)
  with 1 2 inner 5 \<open>nd_dry_run demo_helper = False\<close> show ?thesis
    by (simp add: transition_def op_defs catch_def)
qed

lemma any_helper_up: "\<exists>w. net_reachable d w \<and> fine w"
proof -
  obtain w1 where 1: "load_kill_switch d demo_world = (Inr (), w1)" "fine w1"
    using succeeds_load_kill_switch [of d] fine_demo by (auto simp: succeeds_def)
  then obtain w2 where 2: "teardown_wireguard (nd_config d) (nd_dry_run d) w1 = (Inr (), w2)" "fine w2"
    using succeeds_teardown [of "nd_config d" "nd_dry_run d"] by (auto simp: succeeds_def)
  have "net_reachable d w2"
    using 1 2 fine_honest [OF fine_demo]
    by (intro up [of demo_world]) (simp_all add: initialize_network_def op_defs demo_world_def)
  with 2 show ?thesis by blast
qed

lemmas demo_helper_up = any_helper_up [of demo_helper]

theorem transition_installs_policy_witness:
  "\<exists>response w'. transition demo_helper Direct demo_world = (Inr response, w') \<and>
     wd_active w' = Some Direct \<and> eg_ok response"
proof -
  obtain response w' where t: "transition demo_helper Direct demo_world = (Inr response, w')"
    using demo_direct by blast
  have "\<not> nd_dry_run demo_helper" by (simp add: demo_helper_def)
  from transition_installs_policy [OF fine_honest [OF fine_demo] this t] t show ?thesis by blast
qed

theorem failed_transition_fails_closed_witness:
  "\<exists>x w'. transition demo_helper Tor demo_world = (Inl (Failure x), w') \<and> wd_active w' = None"
proof -
  obtain x w' where t: "transition demo_helper Tor demo_world = (Inl (Failure x), w')"
    using demo_tor by blast
  have "\<not> nd_dry_run demo_helper" by (simp add: demo_helper_def)
  from failed_transition_fails_closed [OF fine_honest [OF fine_demo] this t] t show ?thesis by blast
qed

theorem status_is_honest_witness:
  "\<exists>w mode e. net_reachable demo_helper w \<and> in_force demo_helper mode e w"
proof -
  obtain w where w: "net_reachable demo_helper w" using demo_helper_up by blast
  have "\<not> nd_dry_run demo_helper" by (simp add: demo_helper_def)
  from status_is_honest [OF w this] w show ?thesis by blast
qed

text \<open>
  C24. With a validated production configuration nobody but the control plane's own user can make
  the helper do anything: a connection from any other user, root and the browser's included, is
  closed with an error, and so is a request that cannot be read, that does not parse, or that
  speaks another protocol version; the network is untouched then.
\<close>

theorem only_control_plane_commands:
  assumes "validate_config parse_url c = Inr ()" and "\<not> sv_allow_insecure_http (cf_server c)"
    and "nd_config d = cf_network c" and "handle_request d peer line w = (r, w')"
  shows "(w' = w \<and> r \<in> range (Inl \<circ> Failure)) \<or>
    (\<exists>uid input request. peer = Inr uid \<and> nw_control_uid (cf_network c) = Some uid \<and>
       uid \<notin> {0, nw_browser_uid (cf_network c)} \<and> line = Inr input \<and>
       nd_parse_request d input = Some request \<and> rq_version request = 1)"
  using assms(4)
proof (cases rule: handle_request_cases)
  case (performed uid input request q)
  have "check_lifetimes c = Inr ()" using assms(1) unfolding validate_config_ok by blast
  then obtain u where u: "nw_control_uid (cf_network c) = Some u" "u \<notin> {0, nw_browser_uid (cf_network c)}"
    using assms(2) by (auto simp: check_lifetimes_def Let_def split: option.splits)
  with performed(3) assms(3) have "uid = u" by (auto simp: authorize_peer_uid_def split: if_splits)
  with u performed show ?thesis by blast
qed auto

theorem only_control_plane_commands_witness:
  "\<exists>r. handle_request demo_helper (Inr 988) (Inr ''reset'') demo_world = (r, demo_world) \<and>
     r \<in> range (Inl \<circ> Failure)"
proof -
  obtain r w' where h: "handle_request demo_helper (Inr 988) (Inr ''reset'') demo_world = (r, w')"
    by fastforce
  have "\<not> sv_allow_insecure_http (cf_server installed_config)" "nw_control_uid (cf_network installed_config) = Some 987"
    by (simp_all add: installed_config_def)
  with only_control_plane_commands [OF installed_config_valid _ _ h] h show ?thesis
    by (auto simp: demo_helper_def)
qed

text \<open>
  Under a validated configuration the helper's own deadline is at least three quarters of a
  second and ends a quarter of a second before the client's timeout, so the answer has time to
  arrive; the saturating arithmetic gives no zero or negative deadline for any u64.
\<close>

theorem helper_deadline_leaves_time:
  assumes "validate_config parse_url c = Inr ()"
  shows "helper_deadline (nw_ipc_timeout_seconds (cf_network c)) + 250 =
      1000 * unat (nw_ipc_timeout_seconds (cf_network c)) \<and>
    750 \<le> helper_deadline (nw_ipc_timeout_seconds (cf_network c)) \<and>
    (\<forall>t. 1 \<le> helper_deadline t \<and> helper_deadline t \<le> 2 ^ 64 - 251)"
proof -
  let ?t = "nw_ipc_timeout_seconds (cf_network c)"
  have "check_lifetimes c = Inr ()" using assms unfolding validate_config_ok by blast
  then have "1 \<le> ?t" "?t \<le> 30" by (simp_all add: check_lifetimes_def Let_def)
  then have "unat (1 :: u64) \<le> unat ?t" "unat ?t \<le> unat (30 :: u64)" by (simp_all only: word_le_nat_alt)
  then have "1 \<le> unat ?t" "unat ?t \<le> 30" by simp_all
  moreover from this have "helper_deadline ?t = unat ?t * 1000 - 250"
    by (simp add: helper_deadline_def)
  ultimately show ?thesis by (auto simp: helper_deadline_def)
qed

theorem helper_deadline_leaves_time_witness:
  "750 \<le> helper_deadline (nw_ipc_timeout_seconds (cf_network installed_config))"
  using helper_deadline_leaves_time [OF installed_config_valid] by blast

text \<open>
  Cleaning up never opens the network early: once its first step has loaded the kill-switch,
  the table either still holds it when \<open>cleanup_network\<close> ends, however it ends, or was deleted,
  and that only after the teardown was checked to have removed the interface and both rules.
\<close>

theorem cleanup_is_ordered:
  assumes "honest w" and "\<not> nd_dry_run d" and "load_kill_switch d w = (Inr (), w1)"
    and "cleanup_network d w = (r, w')"
  shows "in_force d None None w' \<or>
    (wd_script w' = None \<and> (\<exists>w2. teardown_wireguard (nd_config d) False w1 = (Inr (), w2)))"
proof -
  have k: "in_force d None None w1"
    by (rule in_force_kill_switch [OF load_kill_switch_ok [OF assms(1-3)]])
  obtain t w2 where t: "teardown_wireguard (nd_config d) False w1 = (t, w2)" by fastforce
  have k2: "in_force d None None w2" using k in_force_script [OF teardown_script [OF t]] by simp
  show ?thesis
  proof (cases t)
    case (Inl x)
    with assms t have "w' = w2" by (simp add: cleanup_network_def op_defs)
    with k2 show ?thesis by simp
  next
    case (Inr u)
    with assms t have run: "run_plan [delete_table] False False True w2 = (r, w')"
      by (simp add: cleanup_network_def op_defs)
    let ?I = "\<lambda>v. wd_script v = wd_script w2 \<or> wd_script v = None"
    have "keeps ?I (run_command delete_table)"
      by (rule keeps_script_command) (simp_all add: stepwise_def script_after_def)
    then have "keeps ?I (run_plan [delete_table] False False True)"
      by (intro keeps_run_plan) simp
    from keepsD2 [OF this _ run] k2 t Inr show ?thesis
      using in_force_script [of w' w2] by auto
  qed
qed

theorem cleanup_is_ordered_witness:
  "\<exists>w1 r w'. load_kill_switch demo_helper demo_world = (Inr (), w1) \<and>
     cleanup_network demo_helper demo_world = (r, w') \<and>
     (in_force demo_helper None None w' \<or> wd_script w' = None)"
proof -
  obtain w1 where k: "load_kill_switch demo_helper demo_world = (Inr (), w1)"
    using succeeds_load_kill_switch [of demo_helper] fine_demo by (auto simp: succeeds_def)
  obtain r w' where c: "cleanup_network demo_helper demo_world = (r, w')" by fastforce
  have "\<not> nd_dry_run demo_helper" by (simp add: demo_helper_def)
  from cleanup_is_ordered [OF fine_honest [OF fine_demo] this k c] k c show ?thesis by blast
qed

end
