(* ===== verification/BrowserHelperProps.thy ===== *)
theory BrowserHelperProps
  imports BrowserHelper
begin

text \<open>
  What the browser helper of \<open>src/bin/xanhtab-browser.rs\<close> guarantees over any sequence of
  connections, failed spawns and commands cut off by their deadline.
\<close>

section \<open>The helper as it runs\<close>

lemma run_command_within_spec:
  assumes "pipe_inv args (bw_pipeline w)" and "run_command_within args command w = (r, w')"
  obtains q v where "apply_command args command w = (q, v)"
    and "command_done args command (bw_pipeline w) q (bw_pipeline v)"
    and "r = Inr (browser_reply (q = Inr ()) (case q of Inr _ \<Rightarrow> ''browser command applied''
      | Inl (Failure e) \<Rightarrow> e | Inl _ \<Rightarrow> ''browser command timed out''))"
    and "bw_pipeline w' = (if q = Inl Dropped then pipeline_default else bw_pipeline v)"
proof -
  obtain q v where q: "apply_command args command w = (q, v)" by fastforce
  have d: "command_done args command (bw_pipeline w) q (bw_pipeline v)"
    using wpD [OF apply_command_spec [OF assms(1)] q] .
  then have "q \<noteq> Inl Panicked" by (simp add: command_done_def)
  with q d assms(2) that show thesis
    by (cases q) (auto simp: run_command_within_def split: helper_error.splits)
qed

lemma handle_connection_inv:
  assumes "pipe_inv args (bw_pipeline w)" and "handle_connection args line w = (r, w')"
  shows "pipe_inv args (bw_pipeline w')"
proof (cases "\<exists>command. line = Inr (Inr command)")
  case True
  then obtain command where "line = Inr (Inr command)" by blast
  with assms(2) have "run_command_within args command w = (r, w')"
    by (simp add: handle_connection_def)
  then show ?thesis
  proof (rule run_command_within_spec [OF assms(1)])
    fix q v assume "command_done args command (bw_pipeline w) q (bw_pipeline v)"
      and "bw_pipeline w' = (if q = Inl Dropped then pipeline_default else bw_pipeline v)"
    then show ?thesis by (simp add: command_done_def split: if_splits)
  qed
next
  case False
  with assms show ?thesis
    by (cases line) (auto simp: handle_connection_def raise_def ret_def split: sum.splits)
qed

inductive browser_reachable :: "browser_args \<Rightarrow> browser_world \<Rightarrow> bool" for args where
  fresh: "bw_pipeline w = pipeline_default \<Longrightarrow> browser_reachable args w"
| connection: "browser_reachable args w \<Longrightarrow> handle_connection args line w = (r, w') \<Longrightarrow>
    browser_reachable args w'"

lemma browser_reachable_inv: "browser_reachable args w \<Longrightarrow> pipe_inv args (bw_pipeline w)"
  by (induction rule: browser_reachable.induct) (auto intro: handle_connection_inv)

section \<open>Properties\<close>



text \<open>
  C27. The answer to the daemon is the truth: outside a dry run a start is answered ok exactly
  when a child now runs, and then for the requested session and egress mode; after a stop, and
  after any command answered with a failure or cut off by its deadline, no child runs; and a
  navigation never changes the session, the profile or the egress mode of a running child.
\<close>

theorem browser_answers_truthfully:
  assumes "browser_reachable args w" and "\<not> ba_dry_run args"
    and "handle_connection args (Inr (Inr command)) w = (r, w')"
  shows "\<exists>response. r = Inr response \<and> (\<not> bs_ok response \<longrightarrow> pl_child (bw_pipeline w') = None) \<and>
    (case command of
       StartBrowser session_id u profile mode \<Rightarrow> bs_ok response \<longleftrightarrow>
         pl_child (bw_pipeline w') \<noteq> None \<and> pl_session_id (bw_pipeline w') = Some session_id \<and>
         pl_profile (bw_pipeline w') = profile \<and> pl_egress (bw_pipeline w') = mode
     | NavigateBrowser nav \<Rightarrow> bs_ok response \<longrightarrow> same_settings (bw_pipeline w) (bw_pipeline w')
     | StopBrowser \<Rightarrow> pl_child (bw_pipeline w') = None)"
proof -
  have "run_command_within args command w = (r, w')"
    using assms(3) by (simp add: handle_connection_def)
  then show ?thesis
  proof (rule run_command_within_spec [OF browser_reachable_inv [OF assms(1)]])
    fix q v assume d: "command_done args command (bw_pipeline w) q (bw_pipeline v)"
      and r: "r = Inr (browser_reply (q = Inr ()) (case q of Inr _ \<Rightarrow> ''browser command applied''
        | Inl (Failure e) \<Rightarrow> e | Inl _ \<Rightarrow> ''browser command timed out''))"
      and w': "bw_pipeline w' = (if q = Inl Dropped then pipeline_default else bw_pipeline v)"
    show ?thesis
    proof (cases "q = Inr ()")
      case True
      with d r w' assms(2) show ?thesis
        by (cases command) (simp_all add: command_done_def browser_reply_def)
    next
      case False
      have "pl_child (bw_pipeline w') = None"
        using d w' False by (simp add: command_done_def pipeline_default_def)
      with r False show ?thesis
        by (cases command) (simp_all add: browser_reply_def)
    qed
  qed
qed

section \<open>Witnesses\<close>

definition demo_page :: "string \<Rightarrow> url" where
  "demo_page s = \<lparr>url_str = s, url_scheme = ''https'', url_host_str = Some s,
     url_port_or_known_default = Some 443, url_path = ''/'', url_query = None, url_fragment = None,
     url_username = [], url_password = None, url_origin = s\<rparr>"

definition demo_args :: browser_args where
  "demo_args = \<lparr>ba_gst_launch = ''gst-launch-1.0'', ba_dry_run = False, ba_internal_home_file = ''/h'',
     ba_signaling_host = ''localhost'', ba_signaling_port = 8444, ba_public_stun = False,
     ba_proxy_url_file = ''/p'', ba_from_file_path = (\<lambda>_. None), ba_parse_url = (\<lambda>_. None)\<rparr>"

definition demo_browser :: browser_world where
  "demo_browser = \<lparr>bw_pipeline = pipeline_default, bw_steps = 0, bw_spawns = (\<lambda>_. True),
     bw_reaped = (\<lambda>_. True), bw_proxy_secret = (\<lambda>_. None)\<rparr>"

definition demo_start :: browser_command where
  "demo_start = StartBrowser 1 (demo_page ''a'') Hd15 Tor"

lemma demo_started_any:
  assumes "e \<noteq> Proxy"
  shows "\<exists>w ch. handle_connection demo_args (Inr (Inr (StartBrowser i (demo_page ''a'') p e))) demo_browser =
     (Inr (browser_reply True ''browser command applied''), w) \<and> pl_child (bw_pipeline w) = Some ch \<and>
     pl_history (bw_pipeline w) = [demo_page ''a''] \<and> pl_position (bw_pipeline w) = 0"
proof -
  have "\<exists>xs. pipeline_args (demo_page ''a'') p e ''localhost'' 8444 False = Inr xs"
    by (simp add: pipeline_args_def demo_page_def signaling_is_loopback_def)
  moreover have "\<exists>px. proxy_for demo_args e = ret px"
    using assms by (cases e) (auto simp: proxy_for_def)
  moreover have "resolve_location demo_args (demo_page ''a'') = Inr (demo_page ''a'')"
    by (simp add: resolve_location_def demo_page_def)
  ultimately show ?thesis
    by (auto simp: handle_connection_def run_command_within_def apply_command_def stop_pipeline_def
        spawn_pipeline_def op_defs update_pipeline_def next_step_def demo_browser_def
        pipeline_default_def demo_args_def)
qed

lemmas demo_started = demo_started_any [where i = 1 and p = Hd15 and e = Tor, folded demo_start_def, simplified]



theorem browser_answers_truthfully_witness:
  "\<exists>w response. handle_connection demo_args (Inr (Inr demo_start)) demo_browser = (Inr response, w) \<and>
     bs_ok response \<and> pl_child (bw_pipeline w) \<noteq> None \<and> pl_egress (bw_pipeline w) = Tor"
proof -
  obtain w where s: "handle_connection demo_args (Inr (Inr demo_start)) demo_browser =
     (Inr (browser_reply True ''browser command applied''), w)" using demo_started by blast
  have f: "browser_reachable demo_args demo_browser" by (rule fresh) (simp add: demo_browser_def)
  have d: "\<not> ba_dry_run demo_args" by (simp add: demo_args_def)
  from browser_answers_truthfully [OF f d s] s show ?thesis
    by (auto simp: browser_reply_def demo_start_def)
qed

end
