(* ===== verification/EndToEnd.thy ===== *)
theory EndToEnd
  imports Clients Conformance NetHelperProps BrowserHelperProps
begin

text \<open>
  The whole daemon against its two helpers: the session layer of \<open>src/session.rs\<close> over the socket
  clients of \<open>src/browser.rs\<close> and \<open>src/netd.rs\<close>, the browser helper and the network helper. The
  contract of theory Conformance is met by the real backends, so what an active session shows is
  what the firewall lets out.
\<close>

section \<open>The real backends\<close>

definition real_manager ::
  "links \<Rightarrow> path \<Rightarrow> egress_mode \<Rightarrow> stream_profile \<Rightarrow> u64 \<Rightarrow> blocklist \<Rightarrow> helpers session_manager" where
  "real_manager lk dir egress profile seconds bl = \<lparr>
     sm_browser = socket_browser lk, sm_egress = socket_egress lk, sm_runtime_dir = dir,
     sm_initial_egress = egress, sm_initial_profile = profile, sm_initial_auto_burn = seconds,
     sm_blocklist = bl\<rparr>"

definition running_mode :: "helpers \<Rightarrow> egress_mode option" where
  "running_mode b = map_option (\<lambda>_. pl_egress (bw_pipeline (hp_browser b))) (pl_child (bw_pipeline (hp_browser b)))"

definition ready_modes :: "helpers \<Rightarrow> egress_mode set" where
  "ready_modes b = {pl_egress (bw_pipeline (hp_browser b))}"

definition helpers_inv :: "links \<Rightarrow> helpers \<Rightarrow> bool" where
  "helpers_inv lk b \<longleftrightarrow> net_inv (lk_net lk) (hp_net b) \<and> pipe_inv (lk_browser lk) (bw_pipeline (hp_browser b))"

lemmas mode_defs = running_mode_def ready_modes_def helpers_inv_def

text \<open>An exchange that a client reports as good is one the helper answered so.\<close>

lemma egress_request_effect:
  obtains net n where "m_helpers (snd (egress_request_op lk c h)) =
      (m_helpers h)\<lparr>hp_net := net, hp_exchanges := n\<rparr>"
    and "net = hp_net (m_helpers h) \<or> (\<exists>r. handle_request (lk_net lk) (Inr (lk_uid lk))
      (Inr (lk_encode_request lk \<lparr>rq_version = 1, rq_command = c\<rparr>)) (hp_net (m_helpers h)) = (r, net))"
    and "\<And>x. fst (egress_request_op lk c h) = Inr x \<Longrightarrow> eg_ok x \<and> handle_request (lk_net lk) (Inr (lk_uid lk))
      (Inr (lk_encode_request lk \<lparr>rq_version = 1, rq_command = c\<rparr>)) (hp_net (m_helpers h)) = (Inr x, net)"
proof -
  obtain r v where "handle_request (lk_net lk) (Inr (lk_uid lk))
      (Inr (lk_encode_request lk \<lparr>rq_version = 1, rq_command = c\<rparr>)) (hp_net (m_helpers h)) = (r, v)" by fastforce
  then show thesis
    by (intro that [where net = "if delivered (hp_exchange (m_helpers h) (hp_exchanges (m_helpers h))) then v
          else hp_net (m_helpers h)" and n = "Suc (hp_exchanges (m_helpers h))"])
      (auto simp: egress_request_op_def Let_def egress_result_def written_def
        split: exchange.splits sum.splits option.splits if_splits)
qed

lemma browser_request_effect:
  obtains w n where "m_helpers (snd (browser_request_op lk c h)) =
      (m_helpers h)\<lparr>hp_browser := w, hp_exchanges := n\<rparr>"
    and "w = hp_browser (m_helpers h) \<and> fst (browser_request_op lk c h) \<noteq> Inr () \<or>
      (\<exists>r. handle_connection (lk_browser lk) (Inr (Inr c)) (hp_browser (m_helpers h)) = (r, w) \<and>
        (fst (browser_request_op lk c h) = Inr () \<longrightarrow> (\<exists>x. r = Inr x \<and> bs_ok x)))"
proof -
  obtain r v where "handle_connection (lk_browser lk) (Inr (Inr c)) (hp_browser (m_helpers h)) = (r, v)" by fastforce
  then show thesis
    by (intro that [where w = "if delivered (hp_exchange (m_helpers h) (hp_exchanges (m_helpers h))) then v
          else hp_browser (m_helpers h)" and n = "Suc (hp_exchanges (m_helpers h))"])
      (auto simp: browser_request_op_def Let_def browser_result_def written_def
        split: exchange.splits sum.splits option.splits if_splits)
qed

text \<open>What a command, answered or not, leaves of the browser helper.\<close>

lemma browser_step:
  assumes "pipe_inv args (bw_pipeline w)" and "\<not> ba_dry_run args"
    and "handle_connection args (Inr (Inr c)) w = (r, w')"
  shows "pipe_inv args (bw_pipeline w') \<and>
    (case c of
       StartBrowser i u p e \<Rightarrow> (\<forall>x. r = Inr x \<longrightarrow> bs_ok x \<longrightarrow>
         pl_child (bw_pipeline w') \<noteq> None \<and> pl_egress (bw_pipeline w') = e)
     | NavigateBrowser nav \<Rightarrow> pl_egress (bw_pipeline w') = pl_egress (bw_pipeline w) \<or> bw_pipeline w' = pipeline_default
     | StopBrowser \<Rightarrow> pl_child (bw_pipeline w') = None)"
proof -
  have inv: "pipe_inv args (bw_pipeline w')" by (rule handle_connection_inv [OF assms(1,3)])
  have "run_command_within args c w = (r, w')" using assms(3) by (simp add: handle_connection_def)
  then obtain q v where "apply_command args c w = (q, v)" and d: "command_done args c (bw_pipeline w) q (bw_pipeline v)"
    and r: "r = Inr (browser_reply (q = Inr ()) (case q of Inr _ \<Rightarrow> ''browser command applied''
      | Inl (Failure e) \<Rightarrow> e | Inl _ \<Rightarrow> ''browser command timed out''))"
    and w': "bw_pipeline w' = (if q = Inl Dropped then pipeline_default else bw_pipeline v)"
    by (rule run_command_within_spec [OF assms(1)])
  have "pl_child pipeline_default = None" by (simp add: pipeline_default_def)
  with inv d r w' assms(2) show ?thesis
    by (cases c) (auto simp: command_done_def browser_reply_def same_settings_def)
qed

section \<open>The contract\<close>

text \<open>
  A deployment: neither helper on a dry run, and the network helper reads back each request the
  daemon encodes (serde's round trip).
\<close>

locale deployment =
  fixes lk :: links
  assumes live_net: "\<not> nd_dry_run (lk_net lk)"
    and live_browser: "\<not> ba_dry_run (lk_browser lk)"
    and decodes: "nd_parse_request (lk_net lk) (lk_encode_request lk r) = Some r"
begin

lemma egress_inv:
  assumes "helpers_inv lk (m_helpers h)"
  shows "helpers_inv lk (m_helpers (snd (egress_request_op lk c h)))"
  by (rule egress_request_effect [of lk c h])
    (use assms handle_request_inv [OF _ live_net] in \<open>auto simp: helpers_inv_def\<close>)

lemma egress_running: "running_mode (m_helpers (snd (egress_request_op lk c h))) = running_mode (m_helpers h)"
  by (rule egress_request_effect [of lk c h]) (simp add: running_mode_def)

lemma apply_active:
  assumes "helpers_inv lk (m_helpers h)" and "fst (egress_request_op lk (Apply e) h) = Inr x"
  shows "wd_active (hp_net (m_helpers (snd (egress_request_op lk (Apply e) h)))) = Some e"
proof -
  have "honest (hp_net (m_helpers h))" using assms(1) by (simp add: helpers_inv_def net_inv_def)
  from handle_request_applied [OF this live_net decodes] assms(2) show ?thesis
    by (rule_tac egress_request_effect [of lk "Apply e" h]) auto
qed

lemma browser_inv:
  assumes "helpers_inv lk (m_helpers h)"
  shows "helpers_inv lk (m_helpers (snd (browser_request_op lk c h)))"
  by (rule browser_request_effect [of lk c h])
    (use assms browser_step [OF _ live_browser] in \<open>auto simp: helpers_inv_def\<close>)

lemma browser_policy: "hp_net (m_helpers (snd (browser_request_op lk c h))) = hp_net (m_helpers h)"
  by (rule browser_request_effect [of lk c h]) simp

text \<open>The helper's side of one browser request.\<close>

lemma browser_requested:
  assumes "helpers_inv lk (m_helpers h)" and "b' = m_helpers (snd (browser_request_op lk c h))"
  shows "(bw_pipeline (hp_browser b') = bw_pipeline (hp_browser (m_helpers h)) \<and>
      fst (browser_request_op lk c h) \<noteq> Inr ()) \<or>
    (case c of
       StartBrowser i u p e \<Rightarrow> fst (browser_request_op lk c h) = Inr () \<longrightarrow>
         pl_child (bw_pipeline (hp_browser b')) \<noteq> None \<and> pl_egress (bw_pipeline (hp_browser b')) = e
     | NavigateBrowser nav \<Rightarrow> pl_egress (bw_pipeline (hp_browser b')) =
         pl_egress (bw_pipeline (hp_browser (m_helpers h))) \<or> bw_pipeline (hp_browser b') = pipeline_default
     | StopBrowser \<Rightarrow> pl_child (bw_pipeline (hp_browser b')) = None)"
proof (rule browser_request_effect [of lk c h])
  fix w n assume m: "m_helpers (snd (browser_request_op lk c h)) = (m_helpers h)\<lparr>hp_browser := w, hp_exchanges := n\<rparr>"
    and "w = hp_browser (m_helpers h) \<and> fst (browser_request_op lk c h) \<noteq> Inr () \<or>
      (\<exists>r. handle_connection (lk_browser lk) (Inr (Inr c)) (hp_browser (m_helpers h)) = (r, w) \<and>
        (fst (browser_request_op lk c h) = Inr () \<longrightarrow> (\<exists>x. r = Inr x \<and> bs_ok x)))"
  then consider "w = hp_browser (m_helpers h)" "fst (browser_request_op lk c h) \<noteq> Inr ()"
    | r where "handle_connection (lk_browser lk) (Inr (Inr c)) (hp_browser (m_helpers h)) = (r, w)"
      "fst (browser_request_op lk c h) = Inr () \<longrightarrow> (\<exists>x. r = Inr x \<and> bs_ok x)" by blast
  then show ?thesis
  proof cases
    case 2
    have "pipe_inv (lk_browser lk) (bw_pipeline (hp_browser (m_helpers h)))"
      using assms(1) by (simp add: helpers_inv_def)
    from browser_step [OF this live_browser 2(1)] 2(2) m assms(2) show ?thesis
      by (cases c) auto
  qed (simp add: m assms(2))
qed

lemma started_mode:
  assumes "helpers_inv lk (m_helpers h)" and "fst (browser_request_op lk (StartBrowser i u p e) h) = Inr ()"
  shows "running_mode (m_helpers (snd (browser_request_op lk (StartBrowser i u p e) h))) = Some e \<and>
    ready_modes (m_helpers (snd (browser_request_op lk (StartBrowser i u p e) h))) = {e}"
  using browser_requested [OF assms(1) refl, of "StartBrowser i u p e"] assms(2) by (auto simp: mode_defs)

lemma stopped_mode:
  assumes "helpers_inv lk (m_helpers h)" and "fst (browser_request_op lk StopBrowser h) = Inr ()"
  shows "running_mode (m_helpers (snd (browser_request_op lk StopBrowser h))) = None"
  using browser_requested [OF assms(1) refl, of StopBrowser] assms(2) by (auto simp: mode_defs)

lemma navigated_mode:
  assumes "helpers_inv lk (m_helpers h)"
  shows "running_mode (m_helpers (snd (browser_request_op lk (NavigateBrowser c) h))) \<in>
      {None, running_mode (m_helpers h)} \<union> Some ` ready_modes (m_helpers h) \<and>
    ready_modes (m_helpers (snd (browser_request_op lk (NavigateBrowser c) h))) \<subseteq>
      ready_modes (m_helpers h) \<union> {Direct}"
  using browser_requested [OF assms refl, of "NavigateBrowser c"]
  by (auto simp: mode_defs pipeline_default_def)

end

sublocale deployment \<subseteq> real: backend_pair "real_manager lk dir egress profile seconds bl"
    running_mode ready_modes "{Direct}" "\<lambda>b. wd_active (hp_net b)" "helpers_inv lk"
  by unfold_locales
    (simp_all add: real_manager_def socket_browser_def socket_egress_def egress_inv egress_running
      apply_active browser_inv browser_policy started_mode stopped_mode navigated_mode [THEN conjunct1, simplified]
      navigated_mode [THEN conjunct2, simplified])

section \<open>The whole daemon\<close>

text \<open>
  What may happen to the helpers between the daemon's calls: the future of the world outside may
  change, a browser may end, and the browser helper may be restarted.
\<close>

definition helpers_drift :: "helpers \<Rightarrow> helpers \<Rightarrow> bool" where
  "helpers_drift b b' \<longleftrightarrow> honest (hp_net b') \<and> wd_active (hp_net b') = wd_active (hp_net b) \<and>
     wd_script (hp_net b') = wd_script (hp_net b) \<and>
     (let p = bw_pipeline (hp_browser b)
      in bw_pipeline (hp_browser b') \<in> {p, p\<lparr>pl_child := None\<rparr>, pipeline_default})"

lemma pipeline_default_idle: "pl_child pipeline_default = None" "pl_egress pipeline_default = Direct"
  by (simp_all add: pipeline_default_def)

context deployment begin

lemma drift_harmless:
  assumes "helpers_inv lk b" and "helpers_drift b b'"
  shows "real.harmless b b'"
proof -
  have "net_inv (lk_net lk) (hp_net b')"
    using assms in_force_script [of "hp_net b'" "hp_net b"]
    unfolding net_inv_def helpers_drift_def helpers_inv_def by auto
  then show ?thesis
    using assms by (auto simp: real.harmless_def mode_defs helpers_drift_def pipe_inv_stopped Let_def
        pipeline_default_idle)
qed

lemma fresh_conforming:
  assumes "net_reachable (lk_net lk) (hp_net (m_helpers h))"
    and "bw_pipeline (hp_browser (m_helpers h)) = pipeline_default"
  shows "real.conforming (session_new (real_manager lk dir egress profile secs bl) h)"
  by (rule real.new_conforming)
    (use assms net_reachable_inv [OF assms(1) live_net] in \<open>simp_all add: mode_defs pipeline_default_idle\<close>)

lemma conforming_confines:
  assumes "real.conforming s" and "b = m_helpers (ss_mach s)" and "n = sd_snapshot (ss_data s)"
  shows "(sn_phase n = Active \<longrightarrow>
      (\<exists>e. in_force (lk_net lk) (Some (sn_egress n)) e (hp_net b) \<and> (readable_endpoint e \<longrightarrow>
        (\<forall>p. table_lets_out (hp_net b) p =
           lets_out (nw_browser_uid (nd_config (lk_net lk))) (Some (sn_egress n)) e p))) \<and>
      (\<forall>ch. pl_child (bw_pipeline (hp_browser b)) = Some ch \<longrightarrow>
        proxy_matches (lk_browser lk) (sn_egress n) (ch_proxy ch) \<or> ch_proxy ch = None)) \<and>
    (sn_phase n = Idle \<longrightarrow> pl_child (bw_pipeline (hp_browser b)) = None)"
proof -
  have i: "helpers_inv lk b" using assms by (simp add: real.conforming_def)
  have idle: "sn_phase n = Idle \<longrightarrow> pl_child (bw_pipeline (hp_browser b)) = None"
    using assms by (simp add: real.conforming_def running_mode_def)
  have "real.within (sn_egress n) b" if "sn_phase n = Active"
    using assms that by (simp add: real.conforming_def)
  moreover have "\<exists>e. in_force (lk_net lk) (Some (sn_egress n)) e (hp_net b)" if "wd_active (hp_net b) = Some (sn_egress n)"
    using i that by (auto simp: helpers_inv_def net_inv_def)
  moreover have "proxy_matches (lk_browser lk) (pl_egress (bw_pipeline (hp_browser b))) (ch_proxy ch)"
    if "pl_child (bw_pipeline (hp_browser b)) = Some ch" for ch
    using i that by (auto simp: helpers_inv_def pipe_inv_def child_for_def)
  ultimately show ?thesis
    using idle in_force_lets_out by (fastforce simp: real.within_def mode_defs proxy_matches_def)
qed

lemma run_conforms:
  assumes "net_reachable (lk_net lk) (hp_net (m_helpers h))"
    and "bw_pipeline (hp_browser (m_helpers h)) = pipeline_default"
    and "drifting helpers_drift (real_manager lk dir egress profile secs bl) cs
      (session_new (real_manager lk dir egress profile secs bl) h)"
  shows "real.conforming (session_run (real_manager lk dir egress profile secs bl) cs
      (session_new (real_manager lk dir egress profile secs bl) h))"
  by (rule real.run_conforming [OF _ fresh_conforming [OF assms(1,2)] assms(3)]) (rule drift_harmless)

end

text \<open>
  The whole daemon against its two helpers. Whatever sequence of calls the daemon serves,
  however exchanges with the helpers fail, time out or lose their answer, and whatever browsers end
  in between: while a session is active, the firewall table holds the complete policy of the mode
  the session shows, and what leaves the machine is exactly what that mode lets out; the browser
  process, if one runs, uses that mode's proxy or, after its helper lost a command to the deadline,
  none; and while the session is idle no browser process runs.
\<close>

theorem active_session_is_confined:
  assumes "\<not> nd_dry_run (lk_net lk)" and "\<not> ba_dry_run (lk_browser lk)"
    and "\<And>r. nd_parse_request (lk_net lk) (lk_encode_request lk r) = Some r"
    and "net_reachable (lk_net lk) (hp_net (m_helpers h))"
    and "bw_pipeline (hp_browser (m_helpers h)) = pipeline_default"
    and "drifting helpers_drift (real_manager lk dir egress profile secs bl) cs
      (session_new (real_manager lk dir egress profile secs bl) h)"
    and "s = session_run (real_manager lk dir egress profile secs bl) cs
      (session_new (real_manager lk dir egress profile secs bl) h)"
    and "b = m_helpers (ss_mach s)" and "n = sd_snapshot (ss_data s)"
  shows "(sn_phase n = Active \<longrightarrow>
      (\<exists>e. in_force (lk_net lk) (Some (sn_egress n)) e (hp_net b) \<and> (readable_endpoint e \<longrightarrow>
        (\<forall>p. table_lets_out (hp_net b) p =
           lets_out (nw_browser_uid (nd_config (lk_net lk))) (Some (sn_egress n)) e p))) \<and>
      (\<forall>ch. pl_child (bw_pipeline (hp_browser b)) = Some ch \<longrightarrow>
        proxy_matches (lk_browser lk) (sn_egress n) (ch_proxy ch) \<or> ch_proxy ch = None)) \<and>
    (sn_phase n = Idle \<longrightarrow> pl_child (bw_pipeline (hp_browser b)) = None)"
proof -
  have d: "deployment lk" using assms(1-3) by unfold_locales
  show ?thesis
    by (rule deployment.conforming_confines [OF d deployment.run_conforms [OF d assms(4-6)]])
      (simp_all add: assms(7-9))
qed

section \<open>A deployment\<close>

definition demo_encode :: "egress_request \<Rightarrow> string" where
  "demo_encode r = char_of (unat (rq_version r)) # (case rq_command r of
     Apply mode \<Rightarrow> ''a'' @ egress_mode_display mode | Reset \<Rightarrow> ''r'' | QueryStatus \<Rightarrow> ''s'')"

definition demo_decode :: "string \<Rightarrow> egress_request option" where
  "demo_decode text = (case text of
     v # k # rest \<Rightarrow>
       let request = (\<lambda>c. Some \<lparr>rq_version = of_nat (of_char v), rq_command = c\<rparr>)
       in if k = CHR ''r'' then request Reset else if k = CHR ''s'' then request QueryStatus
          else (case egress_mode_from_str rest of Inl _ \<Rightarrow> None | Inr mode \<Rightarrow> request (Apply mode))
   | _ \<Rightarrow> None)"

definition demo_links :: links where
  "demo_links = \<lparr>lk_net = demo_helper\<lparr>nd_parse_request := demo_decode\<rparr>, lk_browser = demo_args,
     lk_uid = 987, lk_encode_request = demo_encode, lk_eof = ''EOF''\<rparr>"

lemma demo_decode_encode: "demo_decode (demo_encode r) = Some r"
proof -
  have "unat (rq_version r) < 256" using unsigned_less [of "rq_version r", where 'a = nat] by simp
  then have v: "of_nat (of_char (char_of (unat (rq_version r)) :: char)) = rq_version r" by simp
  show ?thesis
  proof (cases "rq_command r")
    case (Apply mode)
    with v show ?thesis
      using egress_mode_roundtrip [of "egress_mode_display mode" mode]
      by (cases r) (simp add: demo_encode_def demo_decode_def eq_ignore_ascii_case_def)
  qed (use v in \<open>simp_all add: demo_encode_def demo_decode_def\<close>)
qed

lemma demo_links_live: "\<not> nd_dry_run (lk_net demo_links)" "\<not> ba_dry_run (lk_browser demo_links)"
  "nd_parse_request (lk_net demo_links) (lk_encode_request demo_links r) = Some r"
  by (simp_all add: demo_links_def demo_helper_def demo_args_def demo_decode_encode)

interpretation demo_deployment: deployment demo_links
  by unfold_locales (rule demo_links_live)+

definition demo_helpers :: "net_world \<Rightarrow> helpers" where
  "demo_helpers w = \<lparr>hp_net = w, hp_browser = demo_browser, hp_exchange = (\<lambda>_. Completes), hp_exchanges = 0\<rparr>"

lemma demo_applies:
  assumes "fine (hp_net (m_helpers h))" and "hp_exchange (m_helpers h) = (\<lambda>_. Completes)"
  shows "fst (egress_request_op demo_links (Apply Direct) h) \<in> range Inr"
proof -
  obtain resp w where t: "transition (lk_net demo_links) Direct (hp_net (m_helpers h)) = (Inr resp, w)" "eg_ok resp"
    using fine_direct [OF assms(1)] by blast
  have a: "authorize_peer_uid 987 (nw_control_uid (nd_config (lk_net demo_links)))
      (nw_browser_uid (nd_config (lk_net demo_links))) = Inr ()"
    by (simp add: demo_links_def demo_helper_def installed_config_def authorize_peer_uid_def)
  have u: "lk_uid demo_links = 987" by (simp add: demo_links_def)
  show ?thesis
    using t assms(2) demo_links_live(3) [of "\<lparr>rq_version = 1, rq_command = Apply Direct\<rparr>"]
    by (simp add: egress_request_op_def Let_def handle_request_def u a op_defs within_deadline_def
        perform_def egress_result_def written_def)
qed

lemma demo_starts:
  assumes "hp_browser (m_helpers h) = demo_browser" and "hp_exchange (m_helpers h) = (\<lambda>_. Completes)"
  shows "fst (browser_request_op demo_links (StartBrowser i (demo_page ''a'') p Direct) h) = Inr ()"
proof -
  obtain w where "handle_connection demo_args (Inr (Inr (StartBrowser i (demo_page ''a'') p Direct))) demo_browser =
     (Inr (browser_reply True ''browser command applied''), w)"
    using demo_started_any [of Direct i p] by auto
  moreover have "lk_browser demo_links = demo_args" by (simp add: demo_links_def)
  ultimately show ?thesis
    using assms by (simp add: browser_request_op_def Let_def browser_result_def written_def browser_reply_def)
qed

definition demo_machine :: "net_world \<Rightarrow> helpers machine" where
  "demo_machine w = \<lparr>m_instant = 0, m_utc = 0, m_random = (\<lambda>n. None), m_draws = 0, m_uuid = (\<lambda>n. 0),
     m_uuids = 0, m_fs = [], m_fault = (\<lambda>_. None), m_helpers = demo_helpers w\<rparr>"

abbreviation "demo_real \<equiv> real_manager demo_links ''/r/s'' Direct Hd15 600 None"

lemma demo_real_starts:
  assumes "fine w"
  shows "wp (start demo_real 7 (demo_page ''a'')) (\<lambda>r s. sn_phase (sd_snapshot (ss_data s)) = Active \<and>
     sn_egress (sd_snapshot (ss_data s)) = Direct) (session_new demo_real (demo_machine w))"
proof -
  let ?h = "(demo_machine w)\<lparr>m_uuids := Suc (m_uuids (demo_machine w))\<rparr>"
  obtain resp where a: "fst (egress_request_op demo_links (Apply Direct) ?h) = Inr resp"
    using demo_applies [of ?h] assms by (auto simp: demo_machine_def demo_helpers_def)
  have "hp_browser (m_helpers (snd (egress_request_op demo_links (Apply Direct) ?h))) = demo_browser"
    "hp_exchange (m_helpers (snd (egress_request_op demo_links (Apply Direct) ?h))) = (\<lambda>_. Completes)"
    by (rule egress_request_effect [of demo_links "Apply Direct" ?h]; simp add: demo_machine_def demo_helpers_def)+
  note b = demo_starts [OF this]
  have f: "sm_browser demo_real = socket_browser demo_links" "sm_egress demo_real = socket_egress demo_links"
    "sm_blocklist demo_real = None" "sm_initial_egress demo_real = Direct"
    by (simp_all add: real_manager_def)
  have u: "\<not> blocked demo_real (demo_page ''a'') True" "url_scheme (demo_page ''a'') = ''https''"
    by (simp_all add: blocked_def f contains_None demo_page_def)
  show ?thesis
    unfolding start_def
    by (simp add: wp_rules Let_def session_new_def u f lease_free_def starting_def
        socket_egress_def socket_browser_def initial_snapshot_def snapshot_default_def a b)
qed

theorem active_session_is_confined_witness:
  "\<exists>w e. let s = session_run demo_real [SStart 7 (demo_page ''a'')] (session_new demo_real (demo_machine w))
     in sn_phase (sd_snapshot (ss_data s)) = Active \<and>
        in_force (lk_net demo_links) (Some Direct) e (hp_net (m_helpers (ss_mach s)))"
proof -
  obtain w where w: "net_reachable (lk_net demo_links) w" "fine w" using any_helper_up by blast
  let ?init = "session_new demo_real (demo_machine w)"
  let ?s = "session_run demo_real [SStart 7 (demo_page ''a'')] ?init"
  have s: "sn_phase (sd_snapshot (ss_data ?s)) = Active" "sn_egress (sd_snapshot (ss_data ?s)) = Direct"
    using demo_real_starts [OF w(2)] by (auto simp: wp_def split: prod.splits)
  have h: "net_reachable (lk_net demo_links) (hp_net (m_helpers (demo_machine w)))"
    "bw_pipeline (hp_browser (m_helpers (demo_machine w))) = pipeline_default"
    using w(1) by (simp_all add: demo_machine_def demo_helpers_def demo_browser_def)
  have "drifting helpers_drift demo_real [SStart 7 (demo_page ''a'')] ?init" by simp
  from active_session_is_confined [OF demo_links_live h this refl refl refl] s show ?thesis
    unfolding Let_def by metis
qed

section \<open>A lost command\<close>

text \<open>
  Why the browser may run without its mode's proxy: a navigation lost to the deadline leaves the
  helper with the default pipeline, and the next one starts the browser for the direct mode.
\<close>

lemma lost_navigation_forgets_mode:
  "\<exists>w0 w1 w2 w3 ch r. browser_reachable demo_args w0 \<and>
     handle_connection demo_args (Inr (Inr demo_start)) w0 =
       (Inr (browser_reply True ''browser command applied''), w1) \<and>
     pl_egress (bw_pipeline w1) = Tor \<and>
     handle_connection demo_args (Inr (Inr (NavigateBrowser (Navigate (demo_page ''b''))))) w1 = (r, w2) \<and>
     handle_connection demo_args (Inr (Inr (NavigateBrowser (Navigate (demo_page ''c''))))) w2 =
       (Inr (browser_reply True ''browser command applied''), w3) \<and>
     pl_child (bw_pipeline w3) = Some ch \<and> ch_proxy ch = None"
proof -
  have xs: "\<exists>xs. pipeline_args (demo_page u) p e ''localhost'' 8444 False = Inr xs" for u p e
    by (simp add: pipeline_args_def demo_page_def signaling_is_loopback_def)
  obtain xs ys where x: "pipeline_args (demo_page ''a'') Hd15 Tor ''localhost'' 8444 False = Inr xs"
    "pipeline_args (demo_page ''c'') FullHd30 Direct ''localhost'' 8444 False = Inr ys"
    using xs by blast
  have l: "resolve_location demo_args (demo_page u) = Inr (demo_page u)" for u
    by (simp add: resolve_location_def demo_page_def)
  note run = handle_connection_def run_command_within_def apply_command_def stop_pipeline_def next_page_def
    spawn_pipeline_def op_defs update_pipeline_def next_step_def proxy_for_def demo_args_def visit_def
  let ?first = "demo_browser\<lparr>bw_reaped := (\<lambda>n. n \<noteq> 1)\<rparr>"
  have r: "browser_reachable demo_args ?first" by (rule fresh) (simp add: demo_browser_def)
  obtain w1 where w1: "handle_connection demo_args (Inr (Inr demo_start)) ?first =
       (Inr (browser_reply True ''browser command applied''), w1)" "pl_egress (bw_pipeline w1) = Tor"
     "pl_child (bw_pipeline w1) \<noteq> None" "bw_steps w1 = 1" "bw_reaped w1 = (\<lambda>n. n \<noteq> 1)" "bw_spawns w1 = (\<lambda>_. True)"
    using x l by (simp add: run demo_start_def demo_browser_def pipeline_default_def)
  obtain w2 r2 where w2: "handle_connection demo_args (Inr (Inr (NavigateBrowser (Navigate (demo_page ''b''))))) w1 = (r2, w2)"
     "bw_pipeline w2 = pipeline_default" "bw_spawns w2 = (\<lambda>_. True)"
    using w1(3-6) by (auto simp: run)
  obtain w3 ch where "handle_connection demo_args (Inr (Inr (NavigateBrowser (Navigate (demo_page ''c''))))) w2 =
       (Inr (browser_reply True ''browser command applied''), w3)" "pl_child (bw_pipeline w3) = Some ch" "ch_proxy ch = None"
    using w2(2,3) x l by (simp add: run pipeline_default_def)
  with r w1 w2 show ?thesis by blast
qed

end
