(* ===== verification/Daemon.thy ===== *)
theory Daemon
  imports ApiSockets RemoteConfigProps EndToEnd
begin

text \<open>
  \<open>src/main.rs\<close> from its arguments to the listener: the three commands that only check or merge
  configuration, and the start of the daemon, which wires the configuration into the parts of the
  other theories. What the binary gets from third-party crates and from its build is \<open>environment\<close>;
  \<open>clap\<close> has parsed the arguments, the log lines are left out.
\<close>

section \<open>Arguments and environment\<close>

record arguments =
  ar_config :: path
  ar_check_config :: bool
  ar_check_public_config_dir :: "path option"
  ar_apply_public_config :: "path option"
  ar_write_config :: "path option"

text \<open>The four backends \<open>main\<close> can install; a socket client is made of a socket and its timeout in seconds.\<close>

record 'b backends =
  be_socket_browser :: "path \<Rightarrow> u64 \<Rightarrow> 'b browser_backend"
  be_mock_browser :: "'b browser_backend"
  be_socket_egress :: "path \<Rightarrow> u64 \<Rightarrow> 'b egress_backend"
  be_mock_egress :: "'b egress_backend"

record 'b environment =
  en_backends :: "'b backends"
  en_toml :: "string \<Rightarrow> string + config"
  en_toml_text :: "config \<Rightarrow> string + string"
  en_parse_url :: "string \<Rightarrow> url option"
  en_readers :: json_readers
  en_fst :: fst_lib
  en_crypto :: crypto
  en_floats :: float_ops
  en_versions :: component_versions
  en_manifest_dir :: path
  en_tls :: "path \<Rightarrow> path \<Rightarrow> string + unit"

datatype transport = Tls path path | PlainHttp

datatype 'b outcome =
    PublicConfigValid
  | ConfigMerged path
  | ConfigValid
  | Serving transport "'b api" "'b app"

section \<open>Configuration commands\<close>

definition load_config :: "'b environment \<Rightarrow> path \<Rightarrow> ('m machine, string, config) op" where
  "load_config env p =
     and_then (with_context (''failed to read config '' @ p) (read_to_string (components p))) (\<lambda>raw.
     and_then (with_context (''invalid TOML in '' @ p) (from_result (en_toml env raw))) (\<lambda>c.
     and_then (from_result (validate_config (en_parse_url env) c)) (\<lambda>_. ret c)))"

text \<open>\<open>OpenOptions::create_new\<close>: nothing may stand at the path, not even a link.\<close>

definition create_new :: "path_component list \<Rightarrow> ('m machine, string, unit) op" where
  "create_new p = faultable (OpenTruncate p) (\<lambda>s.
     if fs_node (m_fs s) p \<noteq> None then (Inl ''file exists'', s)
     else (Inr (), s\<lparr>m_fs := fs_put p (FileNode []) (m_fs s)\<rparr>))"

definition merge_config :: "'b environment \<Rightarrow> config \<Rightarrow> path \<Rightarrow> path option \<Rightarrow> ('m machine, string, path) op" where
  "merge_config env c public_config write_config =
     and_then (apply_public_config_file (en_parse_url env) (en_readers env) c (components public_config)) (\<lambda>c'.
     and_then (case write_config of
         None \<Rightarrow> raise ''--write-config is required with --apply-public-config''
       | Some out \<Rightarrow> ret out) (\<lambda>out.
     and_then (with_context (''failed to create merged config '' @ out) (create_new (components out))) (\<lambda>_.
     and_then (from_result (en_toml_text env c')) (\<lambda>text.
     and_then (write_all (components out) text) (\<lambda>_.
     and_then (sync_all (components out)) (\<lambda>_. ret out))))))"

section \<open>Starting the daemon\<close>

definition wire_sessions :: "'b environment \<Rightarrow> config \<Rightarrow> blocklist \<Rightarrow> 'b session_manager" where
  "wire_sessions env c bl = \<lparr>
     sm_browser = (if bc_enabled (cf_browser c)
       then be_socket_browser (en_backends env) (bc_socket (cf_browser c)) (bc_ipc_timeout_seconds (cf_browser c))
       else be_mock_browser (en_backends env)),
     sm_egress = (if nw_enabled (cf_network c)
       then be_socket_egress (en_backends env) (nw_netd_socket (cf_network c)) (nw_ipc_timeout_seconds (cf_network c))
       else be_mock_egress (en_backends env)),
     sm_runtime_dir = sc_runtime_dir (cf_session c), sm_initial_egress = nw_initial_mode (cf_network c),
     sm_initial_profile = sc_initial_profile (cf_session c),
     sm_initial_auto_burn = sc_auto_burn_seconds (cf_session c), sm_blocklist = bl\<rparr>"

definition wire_state :: "'b environment \<Rightarrow> config \<Rightarrow> blocklist \<Rightarrow> 'b app_state" where
  "wire_state env c bl = \<lparr>
     as_auth = \<lparr>am_auth_ttl = auth_ttl c, am_ticket_ttl = ticket_ttl c, am_crypto = en_crypto env\<rparr>,
     as_sessions = wire_sessions env c bl, as_pairing_file = sc_pairing_file (cf_session c),
     as_public_base_url = sv_public_base_url (cf_server c)\<rparr>"

definition wire_api :: "'b environment \<Rightarrow> config \<Rightarrow> blocklist \<Rightarrow> 'b api" where
  "wire_api env c bl = \<lparr>ai_state = wire_state env c bl, ai_config = c,
     ai_metrics = metrics_new (en_versions env) bl, ai_parse_url = en_parse_url env,
     ai_floats = en_floats env, ai_version = cv_control_plane (en_versions env)\<rparr>"

text \<open>A new session manager and new pairing material, published.\<close>

definition boot :: "'b app_state \<Rightarrow> ('b machine, string, 'b app) op" where
  "boot a h =
     (case and_then (with_auth (rotate_pairing (as_auth a))) (\<lambda>pairing.
             with_auth (mach_op (write_pairing_file pairing (as_pairing_file a) (as_public_base_url a))))
           \<lparr>ap_sess = session_new (as_sessions a) h, ap_auth = auth_state_new\<rparr> of
        (Inl e, s) \<Rightarrow> (Inl e, ss_mach (ap_sess s))
      | (Inr _, s) \<Rightarrow> (Inr s, ss_mach (ap_sess s)))"

definition transport_of :: "'b environment \<Rightarrow> server_config \<Rightarrow> string + transport" where
  "transport_of env sv =
     (case (sv_tls_cert sv, sv_tls_key sv) of
        (Some cert, Some key) \<Rightarrow>
          (case en_tls env cert key of
             Inl _ \<Rightarrow> Inl ''failed to load TLS certificate''
           | Inr _ \<Rightarrow> Inr (Tls cert key))
      | _ \<Rightarrow> if sv_allow_insecure_http sv then Inr PlainHttp else Inl ''TLS is required by configuration'')"

definition with_static_dir :: "'b environment \<Rightarrow> config \<Rightarrow> config" where
  "with_static_dir env c = c\<lparr>cf_server := (cf_server c)\<lparr>sv_static_dir :=
     resolve_static_dir (en_manifest_dir env) (sv_static_dir (cf_server c))\<rparr>\<rparr>"

definition serve :: "'b environment \<Rightarrow> config \<Rightarrow> ('b machine, string, 'b outcome) op" where
  "serve env loaded =
     (let c = with_static_dir env loaded
      in and_then (blocklist_open (en_fst env) (components (bl_fst_path (cf_blocklist c)))) (\<lambda>bl.
         and_then (from_result (ensure_runtime_blocklist (sv_allow_insecure_http (cf_server c)) bl)) (\<lambda>_.
         and_then (boot (wire_state env c bl)) (\<lambda>s.
         and_then (from_result (transport_of env (cf_server c))) (\<lambda>t.
           ret (Serving t (wire_api env c bl) s))))))"

definition main_run :: "'b environment \<Rightarrow> arguments \<Rightarrow> ('b machine, string, 'b outcome) op" where
  "main_run env args =
     (case ar_check_public_config_dir args of
        Some dir \<Rightarrow>
          and_then (validate_public_config_dir (en_readers env) (components dir)) (\<lambda>_. ret PublicConfigValid)
      | None \<Rightarrow>
          and_then (load_config env (ar_config args)) (\<lambda>c.
            case ar_apply_public_config args of
              Some public_config \<Rightarrow>
                and_then (merge_config env c public_config (ar_write_config args)) (\<lambda>out. ret (ConfigMerged out))
            | None \<Rightarrow> if ar_check_config args then ret ConfigValid else serve env c))"

section \<open>Facts\<close>

lemma wp_create_new [wp_rules]:
  "wp (create_new p) Q s = (case m_fault s (OpenTruncate p) of Some e \<Rightarrow> Q (Inl e) s
     | None \<Rightarrow> if fs_node (m_fs s) p \<noteq> None then Q (Inl ''file exists'') s
         else Q (Inr ()) (s\<lparr>m_fs := fs_put p (FileNode []) (m_fs s)\<rparr>))"
  by (auto simp: create_new_def wp_def faultable_def split: option.splits)

lemma load_config_reads:
  "wp (load_config env p) (\<lambda>r h'. h' = h \<and> (\<forall>c. r = Inr c \<longrightarrow> validate_config (en_parse_url env) c = Inr ())) h"
  by (auto simp: load_config_def read_to_string_def wp_rules split: option.splits fnode.splits sum.splits)

text \<open>A successful boot is the start of theory AppLifecycle.\<close>

lemma boot_brings_up:
  assumes "boot a h = (Inr s, h')"
    and "ensure_runtime_blocklist insecure (sm_blocklist (as_sessions a)) = Inr ()"
  shows "bring_up a insecure h = Inr s \<and> h' = ss_mach (ap_sess s)"
  using assms by (auto simp: boot_def bring_up_def Let_def split: prod.splits sum.splits)

lemma normalized_absolute: "is_normalized_absolute p \<Longrightarrow> is_absolute p"
  by (simp add: is_normalized_absolute_def)

text \<open>Resolving the static directory leaves a validated configuration validated.\<close>

lemma static_dir_validated:
  assumes "validate_config parse_url c = Inr ()"
  shows "validate_config parse_url (with_static_dir env c) = Inr ()"
proof -
  have same: "check_public_url (cf_server (with_static_dir env c)) u = check_public_url (cf_server c) u"
    "check_mode (with_static_dir env c) u os = check_mode c u os"
    "check_lifetimes (with_static_dir env c) = check_lifetimes c"
    "check_network parse_url (with_static_dir env c) = check_network parse_url c" for u os
    by (simp_all add: with_static_dir_def check_public_url_def check_mode_def check_lifetimes_def check_network_def)
  have "check_paths (with_static_dir env c) = Inr ()" if "check_paths c = Inr ()"
    using that by (cases "sv_allow_insecure_http (cf_server c)")
      (auto simp: with_static_dir_def check_paths_def Let_def resolve_static_dir_def dest: normalized_absolute)
  then show ?thesis
    using assms by (auto simp: validate_config_ok same) (auto simp: with_static_dir_def)
qed

lemma blocklist_open_reads: "wp (blocklist_open lib p) (\<lambda>r h'. h' = h) h"
  by (auto simp: blocklist_open_def open_fst_def wp_rules split: option.splits fnode.splits sum.splits)

lemma serve_serves: "serve env c h = (Inr outcome, h') \<Longrightarrow> \<exists>t a s. outcome = Serving t a s"
  by (auto simp: serve_def Let_def and_then_def from_result_def ret_def split: sum.splits prod.splits)

text \<open>The merge: one new file.\<close>

lemma merge_config_writes:
  "wp (merge_config env c public_config write_config) (\<lambda>r h'. \<forall>out. r = Inr out \<longrightarrow> (\<exists>c' text.
     write_config = Some out \<and> validate_config (en_parse_url env) c' = Inr () \<and> en_toml_text env c' = Inr text \<and>
      fs_node (m_fs h) (components out) = None \<and> fs_node (m_fs h') (components out) = Some (FileNode text) \<and>
      (\<forall>p. p \<noteq> components out \<longrightarrow> fs_node (m_fs h') p = fs_node (m_fs h) p))) h"
  unfolding merge_config_def wp_and_then [of "apply_public_config_file _ _ _ _"]
  by (rule wp_mono [OF applied_config]) (auto simp: wp_rules split: option.splits sum.splits)

text \<open>What a daemon that serves was made of.\<close>

lemma serving_from:
  assumes "main_run env args h = (Inr (Serving t a s), h')"
  shows "\<exists>c bl. validate_config (en_parse_url env) c = Inr () \<and> a = wire_api env c bl \<and>
    bring_up (wire_state env c bl) (sv_allow_insecure_http (cf_server c)) h = Inr s \<and> h' = ss_mach (ap_sess s) \<and>
    transport_of env (cf_server c) = Inr t \<and>
    blocklist_open (en_fst env) (components (bl_fst_path (cf_blocklist c))) h = (Inr bl, h)"
proof -
  have none: "ar_check_public_config_dir args = None" "ar_apply_public_config args = None" "\<not> ar_check_config args"
    using assms by (auto simp: main_run_def and_then_def ret_def split: option.splits sum.splits prod.splits if_splits)
  then obtain loaded h1 where l: "load_config env (ar_config args) h = (Inr loaded, h1)"
    and run: "serve env loaded h1 = (Inr (Serving t a s), h')"
    using assms by (auto simp: main_run_def and_then_def split: sum.splits prod.splits)
  have h1: "h1 = h" and v: "validate_config (en_parse_url env) loaded = Inr ()"
    using wpD [OF load_config_reads l] by auto
  let ?c = "with_static_dir env loaded"
  let ?insecure = "sv_allow_insecure_http (cf_server ?c)"
  obtain bl h2 where b: "blocklist_open (en_fst env) (components (bl_fst_path (cf_blocklist ?c))) h = (Inr bl, h2)"
    and e: "ensure_runtime_blocklist ?insecure bl = Inr ()"
    and boot: "boot (wire_state env ?c bl) h2 = (Inr s, h')"
    and t: "transport_of env (cf_server ?c) = Inr t" and a: "a = wire_api env ?c bl"
    using run unfolding h1 serve_def Let_def
    by (auto simp: and_then_def from_result_def ret_def split: sum.splits prod.splits)
  have "h2 = h" using wpD [OF blocklist_open_reads b] .
  moreover have "sm_blocklist (as_sessions (wire_state env ?c bl)) = bl" by (simp add: wire_state_def wire_sessions_def)
  ultimately show ?thesis
    using boot_brings_up [OF boot, of ?insecure] e a t b static_dir_validated [OF v] by auto
qed

section \<open>Example values\<close>

definition demo_backends :: "unit backends" where
  "demo_backends = \<lparr>be_socket_browser = (\<lambda>_ _. plain_backend), be_mock_browser = plain_backend,
     be_socket_egress = (\<lambda>_ _. plain_egress), be_mock_egress = plain_egress\<rparr>"

definition demo_environment :: "unit environment" where
  "demo_environment = \<lparr>en_backends = demo_backends, en_toml = (\<lambda>_. Inr default_config), en_toml_text = (\<lambda>_. Inr ''t''),
     en_parse_url = demo_parse_url, en_readers = demo_readers, en_fst = plain_fst, en_crypto = demo_crypto,
     en_floats = \<lparr>fl_parse = (\<lambda>_. None), fl_per_thousand = (\<lambda>x. x)\<rparr>,
     en_versions = versions_default ''0.1.0'' None None None, en_manifest_dir = ''/src'', en_tls = (\<lambda>_ _. Inr ())\<rparr>"

definition demo_arguments :: arguments where
  "demo_arguments = \<lparr>ar_config = ''c'', ar_check_config = False, ar_check_public_config_dir = None,
     ar_apply_public_config = None, ar_write_config = None\<rparr>"

definition start_disk :: "unit machine" where
  "start_disk = public_disk\<lparr>m_random := (\<lambda>_. Some [7]), m_fs := [([Normal ''c''], FileNode ''c'')]\<rparr>"

lemma demo_names: "components ''c'' = [Normal ''c'']" "components ''m'' = [Normal ''m'']"
  by (simp_all add: components_def is_absolute_def Let_def List.map_filter_def)

lemma start_disk_simps: "m_fault start_disk = (\<lambda>_. None)" "m_fs start_disk = [([Normal ''c''], FileNode ''c'')]"
  "m_random start_disk n = Some [7]"
  by (simp_all add: start_disk_def public_disk_def list_disk_def)

lemma demo_load: "load_config demo_environment ''c'' start_disk = (Inr default_config, start_disk)"
proof -
  have "wp (load_config demo_environment ''c'') (\<lambda>r h'. r = Inr default_config \<and> h' = start_disk) start_disk"
    by (simp add: load_config_def read_to_string_def wp_rules demo_names start_disk_simps fs_target_def fs_node_def
        demo_environment_def default_config_valid)
  then show ?thesis by (auto simp: wp_def split: prod.splits)
qed

lemma demo_publishes:
  assumes "m_fault h = (\<lambda>_. None)" and "m_fs h = m_fs start_disk"
  shows "\<exists>h'. write_pairing_file pm ''/run/xanhtab/pairing.txt'' u h = (Inr (), h')"
proof -
  have x: "with_extension ''tmp'' [RootDir, Normal ''run'', Normal ''xanhtab'', Normal ''pairing.txt''] =
      [RootDir, Normal ''run'', Normal ''xanhtab'', Normal ''pairing.tmp'']"
    by (simp add: with_extension_def file_stem_def rsplit_once_def)
  have pc: "parent_components ''/run/xanhtab/pairing.txt'' = Some [RootDir, Normal ''run'', Normal ''xanhtab'']"
    by (simp add: parent_components_def parent_of_def demo_config_paths)
  show ?thesis
    by (simp add: write_pairing_file_def Let_def demo_config_paths x pc and_then_def fs_op_defs create_dir_all_def
        assms start_disk_simps prefixes_def fs_node_def fs_put_def)
qed

lemma boot_succeeds:
  assumes "m_random h (m_draws h) = Some raw"
    and "\<And>pm. \<exists>h'. write_pairing_file pm (as_pairing_file a) (as_public_base_url a)
           (h\<lparr>m_draws := Suc (m_draws h)\<rparr>) = (Inr (), h')"
  shows "\<exists>s h'. boot a h = (Inr s, h')"
proof -
  let ?pm = "\<lparr>pm_secret = cr_base64url (am_crypto (as_auth a)) raw,
    pm_manual_code = group_manual_code (am_crypto (as_auth a)) raw\<rparr>"
  obtain h' where "write_pairing_file ?pm (as_pairing_file a) (as_public_base_url a) (h\<lparr>m_draws := Suc (m_draws h)\<rparr>) = (Inr (), h')"
    using assms(2) by blast
  with assms(1) show ?thesis
    by (simp add: boot_def and_then_def with_auth_def rotate_pairing_def auth_op_defs getrandom_def session_new_def auth_view_def)
qed

lemma demo_boot: "\<exists>s h'. boot (wire_state demo_environment (with_static_dir demo_environment default_config) None) start_disk = (Inr s, h')"
proof (rule boot_succeeds)
  show "m_random start_disk (m_draws start_disk) = Some [7]" by (rule start_disk_simps)
  have f: "as_pairing_file (wire_state demo_environment (with_static_dir demo_environment default_config) None) = ''/run/xanhtab/pairing.txt''"
    by (simp add: wire_state_def with_static_dir_def default_config_def default_session_def)
  show "\<exists>h'. write_pairing_file pm (as_pairing_file (wire_state demo_environment (with_static_dir demo_environment default_config) None))
      u (start_disk\<lparr>m_draws := Suc (m_draws start_disk)\<rparr>) = (Inr (), h')" for pm u
    unfolding f by (rule demo_publishes) (simp_all add: start_disk_simps)
qed

section \<open>Properties\<close>

text \<open>
  C10. What \<open>main\<close> ends with when it serves: the configuration it serves with validates; the state is a
  start of the daemon's call sequences; a plain listener is on loopback; and a production daemon
  has TLS, secure cookies, both socket backends, the signaling relay and a non-empty block list.
\<close>

theorem daemon_serves_only_wired_up:
  assumes "main_run env args h = (Inr (Serving t a s), h')"
  shows "validate_config (ai_parse_url a) (ai_config a) = Inr () \<and> app_reachable (ai_state a) s \<and>
    300 * second \<le> am_auth_ttl (as_auth (ai_state a)) \<and>
    (let c = ai_config a; sv = cf_server c
     in (t = PlainHttp \<longrightarrow> sv_allow_insecure_http sv \<and> is_loopback (sa_ip (sv_listen sv))) \<and>
        (\<not> sv_allow_insecure_http sv \<longrightarrow> (\<exists>cert key. t = Tls cert key) \<and> sv_secure_cookies sv \<and>
           \<not> blocklist_is_empty (sm_blocklist (as_sessions (ai_state a))) \<and> sg_enabled (cf_signaling c) \<and>
           sm_browser (as_sessions (ai_state a)) =
             be_socket_browser (en_backends env) (bc_socket (cf_browser c)) (bc_ipc_timeout_seconds (cf_browser c)) \<and>
           sm_egress (as_sessions (ai_state a)) =
             be_socket_egress (en_backends env) (nw_netd_socket (cf_network c)) (nw_ipc_timeout_seconds (cf_network c))))"
proof -
  obtain c bl where c: "validate_config (en_parse_url env) c = Inr ()" "a = wire_api env c bl"
    and up: "bring_up (wire_state env c bl) (sv_allow_insecure_http (cf_server c)) h = Inr s"
    and t: "transport_of env (cf_server c) = Inr t"
    using serving_from [OF assms] by blast
  obtain u os where m: "check_mode c u os = Inr ()" and l: "check_lifetimes c = Inr ()"
    using c(1) by (auto simp: validate_config_ok)
  have "300 * second \<le> auth_ttl c"
    using l by (auto simp: check_lifetimes_def Let_def auth_ttl_def second_def word_le_nat_alt)
  moreover have "app_reachable (wire_state env c bl) s" by (rule app_reachable.app_start [OF up])
  moreover have "sv_allow_insecure_http (cf_server c) \<or> \<not> blocklist_is_empty bl"
    using bring_up_result [OF up] by (simp add: wire_state_def wire_sessions_def)
  ultimately show ?thesis
    using c t m by (cases "sv_allow_insecure_http (cf_server c)")
      (auto simp: Let_def wire_api_def wire_state_def wire_sessions_def transport_of_def check_mode_def
        split: option.splits sum.splits if_splits)
qed

theorem daemon_serves_only_wired_up_witness:
  "\<exists>a s h'. main_run demo_environment demo_arguments start_disk = (Inr (Serving PlainHttp a s), h') \<and>
     is_loopback (sa_ip (sv_listen (cf_server (ai_config a))))"
proof -
  obtain s h' where b: "boot (wire_state demo_environment (with_static_dir demo_environment default_config) None) start_disk = (Inr s, h')"
    using demo_boot by blast
  have l: "blocklist_open (en_fst demo_environment) p start_disk = (Inr None, start_disk)" if "p \<noteq> [Normal ''c'']" for p
  proof -
    have "wp (blocklist_open (en_fst demo_environment) p) (\<lambda>r h'. r = Inr None \<and> h' = start_disk) start_disk"
      using that by (simp add: blocklist_open_def wp_rules start_disk_simps fs_node_def)
    then show ?thesis by (auto simp: wp_def split: prod.splits)
  qed
  have c: "cf_blocklist (with_static_dir demo_environment default_config) = default_blocklist"
    "sv_allow_insecure_http (cf_server (with_static_dir demo_environment default_config))"
    "sv_tls_cert (cf_server (with_static_dir demo_environment default_config)) = None"
    by (simp_all add: with_static_dir_def default_config_def default_server_def)
  have d: "components (bl_fst_path default_blocklist) \<noteq> [Normal ''c'']"
    by (simp add: default_blocklist_def components_def is_absolute_def Let_def)
  have "main_run demo_environment demo_arguments start_disk =
      (Inr (Serving PlainHttp (wire_api demo_environment (with_static_dir demo_environment default_config) None) s), h')"
    using l [OF d] b demo_load
    by (simp add: main_run_def demo_arguments_def and_then_def serve_def Let_def c ensure_runtime_blocklist_def
        from_result_def transport_of_def ret_def)
  with daemon_serves_only_wired_up [OF this] show ?thesis by (auto simp: Let_def)
qed

text \<open>
  The configuration commands do not start anything: checking a directory or a configuration
  changes nothing, and merging writes one file, where there was none before, with the text of a
  configuration that validates.
\<close>

theorem config_commands_only_write_the_merge:
  assumes "main_run env args h = (Inr outcome, h')" and "\<not> (\<exists>t a s. outcome = Serving t a s)"
  shows "h' = h \<or> (\<exists>out c' text. outcome = ConfigMerged out \<and> ar_write_config args = Some out \<and>
      validate_config (en_parse_url env) c' = Inr () \<and> en_toml_text env c' = Inr text \<and>
      fs_node (m_fs h) (components out) = None \<and> fs_node (m_fs h') (components out) = Some (FileNode text) \<and>
      (\<forall>p. p \<noteq> components out \<longrightarrow> fs_node (m_fs h') p = fs_node (m_fs h) p))"
proof (cases "ar_check_public_config_dir args")
  case (Some dir)
  then obtain h1 where "validate_public_config_dir (en_readers env) (components dir) h = (Inr (), h1)" "h' = h1"
    using assms(1) by (auto simp: main_run_def ret_def elim!: and_then_InrE)
  with validated_directory show ?thesis by blast
next
  case None
  then obtain c h1 where l: "load_config env (ar_config args) h = (Inr c, h1)"
    and rest: "(case ar_apply_public_config args of
              Some public_config \<Rightarrow>
                and_then (merge_config env c public_config (ar_write_config args)) (\<lambda>out. ret (ConfigMerged out))
            | None \<Rightarrow> if ar_check_config args then ret ConfigValid else serve env c) h1 = (Inr outcome, h')"
    using assms(1) by (auto simp: main_run_def elim!: and_then_InrE)
  have "h1 = h" using wpD [OF load_config_reads l] by simp
  note rest = rest [unfolded this]
  show ?thesis
  proof (cases "ar_apply_public_config args")
    case None
    with rest assms(2) show ?thesis
      by (cases "ar_check_config args") (auto simp: ret_def dest: serve_serves)
  next
    case (Some public_config)
    with rest obtain out where o: "outcome = ConfigMerged out"
      and m: "merge_config env c public_config (ar_write_config args) h = (Inr out, h')"
      by (auto simp: ret_def elim!: and_then_InrE)
    from wpD [OF merge_config_writes m] o show ?thesis by simp
  qed
qed

theorem config_commands_only_write_the_merge_witness:
  "\<exists>h'. main_run demo_environment (demo_arguments\<lparr>ar_config := ''d/config.json'', ar_apply_public_config := Some ''d/config.json'',
       ar_write_config := Some ''m''\<rparr>) public_disk = (Inr (ConfigMerged ''m''), h') \<and>
     (h' = public_disk \<or> fs_node (m_fs h') [Normal ''m''] = Some (FileNode ''t''))"
proof -
  let ?args = "demo_arguments\<lparr>ar_config := ''d/config.json'', ar_apply_public_config := Some ''d/config.json'',
       ar_write_config := Some ''m''\<rparr>"
  have c: "components ''d/config.json'' = [Normal ''d'', Normal ''config.json'']"
    by (simp add: components_def is_absolute_def Let_def List.map_filter_def)
  have m: "fs_node (m_fs public_disk) [Normal ''m''] = None"
    by (simp add: public_disk_def list_disk_def fs_node_def)
  have "wp (main_run demo_environment ?args) (\<lambda>r h'. r = Inr (ConfigMerged ''m'')) public_disk"
    by (simp add: main_run_def demo_arguments_def load_config_def read_to_string_def merge_config_def wp_rules c m
        demo_names public_disk_simps fs_target_def demo_environment_def default_config_valid apply_public_config_file_def
        Let_def require_regular_file_def read_document_def demo_readers_def demo_document_ok demo_defaults_valid)
  then obtain h' where "main_run demo_environment ?args public_disk = (Inr (ConfigMerged ''m''), h')"
    by (auto simp: wp_def split: prod.splits)
  with config_commands_only_write_the_merge [OF this] show ?thesis by (auto simp: demo_names demo_environment_def)
qed

end
