(* ===== verification/ApiProps.thy ===== *)
theory ApiProps
  imports Api ConfigProps
begin

text \<open>
  What the HTTP side of \<open>src/api.rs\<close> guarantees: who can make it act, what reading it changes, that
  each request is a sequence of the daemon's calls, and that its cookie opens what it should.
\<close>

section \<open>Example values\<close>

definition demo_api :: "unit api" where
  "demo_api = \<lparr>ai_state = demo_daemon, ai_config = default_config,
     ai_metrics = metrics_new (versions_default ''0.1.0'' None None None) None, ai_parse_url = demo_parse_url,
     ai_floats = \<lparr>fl_parse = (\<lambda>_. None), fl_per_thousand = (\<lambda>x. x)\<rparr>, ai_version = ''0.1.0''\<rparr>"

definition demo_app :: "unit app" where
  "demo_app = \<lparr>ap_sess = demo_idle\<lparr>ss_mach := demo_host_machine\<rparr>,
     ap_auth = auth_state_new\<lparr>generation := 1, pairing_hash := Some 40\<rparr>\<rparr>"

definition no_head :: request_head where
  "no_head = \<lparr>rh_cookie = (\<lambda>_. None), rh_header = (\<lambda>_. None)\<rparr>"

definition paired_head :: request_head where
  "paired_head = \<lparr>rh_cookie = (\<lambda>n. if n = session_cookie then Some ''A'' else None),
     rh_header = (\<lambda>n. if n = csrf_header then Some ''AA'' else None)\<rparr>"

definition demo_extractors :: "unit extractors" where
  "demo_extractors = \<lparr>ex_uuid = (\<lambda>_. Some 1), ex_pairing = (\<lambda>_. None), ex_start = (\<lambda>_. None),
     ex_navigation = (\<lambda>_. None), ex_egress = (\<lambda>_. None), ex_profile = (\<lambda>_. None), ex_blocklist = (\<lambda>_. None),
     ex_auto_burn = (\<lambda>_. None), ex_ticket = (\<lambda>_. None), ex_upgrade = (\<lambda>_. True)\<rparr>"

section \<open>Who may act\<close>

text \<open>
  A request proves control: its origin is allowed, and its cookie and its CSRF token are those of one
  unexpired session of the current pairing generation.
\<close>

definition proves_control :: "'b api \<Rightarrow> request_head \<Rightarrow> 'b app \<Rightarrow> bool" where
  "proves_control a head s \<longleftrightarrow> validate_origin a head = Inr () \<and>
     (\<exists>token csrf x. rh_cookie head session_cookie = Some token \<and> rh_header head csrf_header = Some csrf \<and>
        (hash_of (as_auth (ai_state a)) token, x) \<in> set (sessions (ap_auth s)) \<and>
        as_csrf_hash x = hash_of (as_auth (ai_state a)) csrf \<and>
        m_instant (ss_mach (ap_sess s)) < as_expires_at x \<and> as_generation x = generation (ap_auth s))"

text \<open>Nothing happened but that what had expired was dropped.\<close>

definition only_pruned :: "'b app \<Rightarrow> 'b app \<Rightarrow> bool" where
  "only_pruned s s' \<longleftrightarrow> ap_sess s' = ap_sess s \<and>
     ap_auth s' \<in> {ap_auth s, prune_expired (m_instant (ss_mach (ap_sess s))) (ap_auth s)}"

lemma only_pruned_refl [simp]: "only_pruned s s"
  by (simp add: only_pruned_def)

fun acts :: "api_request \<Rightarrow> bool" where
  "acts (PostSession _) = True"
| "acts (DeleteSession _) = True"
| "acts (PostNavigation _ _) = True"
| "acts (PutEgress _ _) = True"
| "acts (PutProfile _ _) = True"
| "acts (PutBlocklist _ _) = True"
| "acts (PutAutoBurn _ _) = True"
| "acts (PostTicket _) = True"
| "acts _ = False"

lemma authenticate_prunes:
  "ah_mach (snd (authenticate am t c r s)) = ah_mach s \<and>
   ah_auth (snd (authenticate am t c r s)) \<in> {ah_auth s, prune_expired (m_instant (ah_mach s)) (ah_auth s)}"
  by (cases t) (auto simp: authenticate_eq Let_def split: option.splits)

lemma app_eta: "s\<lparr>ap_sess := (ap_sess s)\<lparr>ss_mach := ss_mach (ap_sess s)\<rparr>\<rparr> = s"
  by simp

lemma wp_api_authenticate:
  "wp (api_authenticate a head csrf) (\<lambda>r s'. only_pruned s s') s"
  using authenticate_prunes [of "as_auth (ai_state a)" "rh_cookie head session_cookie"
      "rh_header head csrf_header" csrf "auth_view s"]
  by (auto simp: api_authenticate_def wp_rules wp_def [of "authenticate _ _ _ _"] only_pruned_def
      split: sum.splits prod.splits)

lemma refused_authentication:
  assumes "\<not> proves_control a head s"
  shows "wp (api_authenticate a head True) (\<lambda>r s'. only_pruned s s' \<and> r \<in> Inl ` {Unauthorized, InvalidCsrf}) s"
proof (rule wp_conj [OF wp_api_authenticate])
  show "wp (api_authenticate a head True) (\<lambda>r s'. r \<in> Inl ` {Unauthorized, InvalidCsrf}) s"
  proof (cases "rh_cookie head session_cookie")
    case None
    then show ?thesis
      by (auto simp: api_authenticate_def wp_rules wp_def [of "authenticate _ _ _ _"] validate_origin_def)
  next
    case (Some token)
    with assms show ?thesis
      by (auto simp: api_authenticate_def wp_rules wp_def [of "authenticate _ _ _ _"] validate_origin_def
          proves_control_def authenticate_eq Let_def prune_expired_def split: option.splits sum.splits if_splits
          dest!: map_of_SomeD)
  qed
qed

lemma wp_refused_then:
  assumes "\<not> proves_control a head s"
    and "\<And>e s'. only_pruned s s' \<Longrightarrow> e \<in> {Unauthorized, InvalidCsrf} \<Longrightarrow> Q (Inl e) s'"
  shows "wp (and_then (api_authenticate a head True) k) Q s"
  unfolding wp_and_then
  by (rule wp_mono [OF refused_authentication [OF assms(1)]]) (use assms(2) in auto)

lemma wp_with_json:
  assumes "\<And>x. payload = Some x \<Longrightarrow> wp (k x) Q s"
    and "payload = None \<Longrightarrow> Q (Inl (InvalidRequest ''malformed JSON body'')) s"
  shows "wp (and_then (from_result (parse_json payload)) k) Q s"
  using assms by (cases payload) (simp_all add: wp_rules parse_json_def)

text \<open>
  C5. Nobody but the paired controller makes the API act: a request to start, burn, navigate, switch, set
  or take a ticket that does not prove control (its origin is not allowed, or its cookie and CSRF
  token are not those of one live session of the current pairing) is answered with one of three
  errors and changes nothing but that expired entries are dropped.
\<close>

theorem acting_needs_control:
  assumes "handle a head rq s = (r, s')" and "acts rq" and "\<not> proves_control a head s"
  shows "only_pruned s s' \<and>
    r \<in> (Inl \<circ> Answer) ` {Unauthorized, InvalidCsrf, InvalidRequest ''malformed JSON body''}"
proof -
  let ?Q = "\<lambda>r s'. only_pruned s s' \<and> r \<in> (Inl \<circ> Answer) ` {Unauthorized, InvalidCsrf, InvalidRequest ''malformed JSON body''}"
  let ?P = "\<lambda>r s'. only_pruned s s' \<and> r \<in> Inl ` {Unauthorized, InvalidCsrf, InvalidRequest ''malformed JSON body''}"
  note d = api_burn_session_def api_navigate_def api_set_egress_def api_set_stream_profile_def
    api_set_blocklist_def api_set_auto_burn_def api_issue_ticket_def
  have "wp (handle a head rq) ?Q s"
  proof (cases rq)
    case (PostSession p)
    have "wp (and_then (map_err Answer (api_authenticate a head True)) k) ?Q s" for k
      unfolding wp_and_then wp_map_err
      by (rule wp_mono [OF refused_authentication [OF assms(3)]]) auto
    with PostSession show ?thesis
      by (cases p) (simp_all add: api_start_session_def wp_and_then parse_json_def wp_from_result wp_map_err)
  qed (use assms(2) in \<open>auto simp: d wp_map_err intro!: wp_with_json wp_refused_then [OF assms(3)]\<close>)
  from wpD [OF this assms(1)] show ?thesis .
qed

theorem acting_needs_control_witness:
  "only_pruned demo_app (snd (handle demo_api no_head (DeleteSession 1) demo_app))"
proof -
  have "\<not> proves_control demo_api no_head demo_app" by (simp add: proves_control_def no_head_def)
  from acting_needs_control [OF prod.collapse [symmetric] _ this, of "DeleteSession 1"] show ?thesis by simp
qed

lemma wp_require_session_id: "wp (require_session_id sid) Q s =
    Q (if sn_id (sd_snapshot (ss_data (ap_sess s))) = Some sid then Inr () else Inl NotFound) s"
  by (simp add: require_session_id_def wp_rules)

lemma wp_sample: "wp (with_session (session_op (sample fl mc hits p e b :: ('b machine, 'x, device_metrics) op))) (\<lambda>r s'. s' = s \<and> r \<in> range Inr) s"
proof -
  obtain d where "(sample fl mc hits p e b :: ('b machine, 'x, device_metrics) op) (ss_mach (ap_sess s)) =
      (Inr d, ss_mach (ap_sess s))"
    using sample_answers [of fl mc hits p e b "ss_mach (ap_sess s)"] by (auto simp: wp_def split: prod.splits)
  then show ?thesis by (simp add: wp_with_session wp_session_op)
qed

lemma reading_only_prunes:
  "wp (api_public_status a) (\<lambda>r s'. only_pruned s s') s"
  "wp (api_get_session a head) (\<lambda>r s'. only_pruned s s') s"
  "wp (api_metrics a head) (\<lambda>r s'. only_pruned s s') s"
  "wp (api_session_events a head sid) (\<lambda>r s'. only_pruned s s') s"
  "wp (api_session_signal a head sid) (\<lambda>r s'. only_pruned s s') s"
proof -
  show "wp (api_public_status a) (\<lambda>r s'. only_pruned s s') s"
    by (simp add: api_public_status_def wp_rules auth_view_def)
  show "wp (api_get_session a head) (\<lambda>r s'. only_pruned s s') s"
    unfolding api_get_session_def wp_and_then [of "api_authenticate a head False"]
    by (rule wp_mono [OF wp_api_authenticate]) (simp add: wp_rules history_def split: sum.splits)
  show "wp (api_metrics a head) (\<lambda>r s'. only_pruned s s') s"
    unfolding api_metrics_def wp_and_then [of "api_authenticate a head False"]
  proof (rule wp_mono [OF wp_api_authenticate], clarsimp split: sum.splits)
    fix s' assume "only_pruned s s'"
    then show "wp (and_then (with_session get_snapshot) (\<lambda>n. and_then (with_session (gets ss_hits)) (\<lambda>hits.
        and_then (with_session (session_op (sample (ai_floats a) (ai_metrics a) hits (sn_stream_profile n)
         (sn_egress n) (sn_blocklist_enabled n)))) (\<lambda>d. ret (MetricsBody d))))) (\<lambda>r s'. only_pruned s s') s'"
      unfolding wp_and_then wp_with_session wp_gets get_snapshot_def
      by (auto simp: wp_ret intro!: wp_mono [OF wp_sample [unfolded wp_with_session]])
  qed
  show "wp (api_session_events a head sid) (\<lambda>r s'. only_pruned s s') s"
    "wp (api_session_signal a head sid) (\<lambda>r s'. only_pruned s s') s"
    by (simp_all add: api_session_events_def api_session_signal_def wp_rules wp_require_session_id split: sum.splits)
qed

lemma read_routes:
  "router ex verb path q = Routed rq \<Longrightarrow> gets_route verb \<Longrightarrow>
   rq \<in> {GetHealth, GetStatus, GetSession, GetMetrics} \<or> (\<exists>sid. rq \<in> {GetEvents sid, GetSignal sid})"
  by (auto simp: router_def session_route_def gets_route_def Let_def split: if_splits list.splits option.splits)

text \<open>C39. Reading is safe: a request that comes by GET or HEAD, whoever sends it and whatever it carries,
  changes nothing of the session, its lease, its helpers, its files or its pairing material; it can
  only drop cookies and tickets that had expired.\<close>

theorem reading_is_safe:
  assumes "router ex verb path q = Routed rq" and "gets_route verb" and "handle a head rq s = (r, s')"
  shows "only_pruned s s'"
proof -
  have "wp (handle a head rq) (\<lambda>r s'. only_pruned s s') s"
    using read_routes [OF assms(1,2)] by (auto simp: wp_ret wp_map_err reading_only_prunes)
  from wpD [OF this assms(3)] show ?thesis .
qed

theorem reading_is_safe_witness:
  "only_pruned demo_app (snd (handle demo_api no_head GetSession demo_app))"
proof -
  have "router demo_extractors ''GET'' [''api'', ''v1'', ''session''] () = Routed GetSession"
    by (simp add: router_def gets_route_def)
  from reading_is_safe [OF this _ prod.collapse [symmetric]] show ?thesis by (simp add: gets_route_def)
qed

section \<open>Requests as calls of the daemon\<close>

fun client_call :: "'b app_call \<Rightarrow> bool" where
  "client_call WatchdogTick = False"
| "client_call (World h) = False"
| "client_call _ = True"

definition as_calls :: "'b app_state \<Rightarrow> ('b app, 'e, 'a) op \<Rightarrow> bool" where
  "as_calls st m \<longleftrightarrow> (\<forall>s. \<exists>cs. list_all client_call cs \<and> snd (m s) = fold (app_exec st) cs s)"

lemma as_callsI: "(\<And>s. \<exists>cs. list_all client_call cs \<and> snd (m s) = fold (app_exec st) cs s) \<Longrightarrow> as_calls st m"
  by (simp add: as_calls_def)

lemma as_calls_one: "client_call c \<Longrightarrow> (\<And>s. snd (m s) = app_exec st c s) \<Longrightarrow> as_calls st m"
  by (rule as_callsI) (rule exI [of _ "[c]"], simp)

lemma as_calls_none: "(\<And>s. snd (m s) = s) \<Longrightarrow> as_calls st m"
  by (rule as_callsI) (rule exI [of _ "[]"], simp)

lemma as_calls_and_then:
  assumes "as_calls st m" and "\<And>x. as_calls st (k x)"
  shows "as_calls st (and_then m k)"
proof (rule as_callsI)
  fix s
  obtain r t where m: "m s = (r, t)" by fastforce
  obtain cs where cs: "list_all client_call cs" "t = fold (app_exec st) cs s"
    using assms(1) m by (auto simp: as_calls_def dest: spec [of _ s])
  show "\<exists>cs. list_all client_call cs \<and> snd (and_then m k s) = fold (app_exec st) cs s"
  proof (cases r)
    case (Inl e)
    with m cs show ?thesis by (auto simp: and_then_def)
  next
    case (Inr x)
    obtain ds where "list_all client_call ds" "snd (k x t) = fold (app_exec st) ds t"
      using assms(2) [of x] by (auto simp: as_calls_def)
    with Inr m cs show ?thesis by (intro exI [of _ "cs @ ds"]) (simp add: and_then_def)
  qed
qed

lemma as_calls_map_err: "as_calls st m \<Longrightarrow> as_calls st (map_err f m)"
  by (simp add: as_calls_def map_err_def split: prod.splits sum.splits) (metis snd_conv)

lemma as_calls_reads:
  "as_calls st (ret x)" "as_calls st (raise e)" "as_calls st (from_result r)"
  "as_calls st (with_session get_snapshot)" "as_calls st (with_session (gets f))" "as_calls st (with_session history)"
  "as_calls st (with_auth (gets g))" "as_calls st (require_session_id sid)"
  "as_calls st (with_session (ensure_controller c))"
  by (rule as_calls_none, simp add: ret_def raise_def from_result_def with_session_def with_auth_def get_snapshot_def
    gets_def history_def require_session_id_def and_then_def ensure_controller_def auth_view_def split: prod.splits)+

lemma as_calls_sample:
  "as_calls st (with_session (session_op (sample fl mc hits p e b :: ('b machine, 'x, device_metrics) op)))"
proof (rule as_calls_none)
  fix s
  let ?m = "with_session (session_op (sample fl mc hits p e b)) :: ('b app, 'x, device_metrics) op"
  have "wp ?m (\<lambda>r s'. s' = s) s" by (rule wp_mono [OF wp_sample]) simp
  then show "snd (?m s) = s" by (simp add: wp_snd)
qed

lemma as_calls_guard: "as_calls (ai_state a) (api_authenticate a head csrf)"
  unfolding api_authenticate_def
  by (intro as_calls_and_then as_calls_reads
      as_calls_one [where c = "CheckCookie (rh_cookie head session_cookie) (rh_header head csrf_header) csrf"]) simp_all

lemmas as_calls_app =
  as_calls_one [where c = "PairWith p" for p] as_calls_one [where c = "NewTicket cx p" for cx p]
  as_calls_one [where c = "StartCall cx u" for cx u] as_calls_one [where c = "NavigateCall cx i n" for cx i n]
  as_calls_one [where c = "SwitchCall cx i m" for cx i m] as_calls_one [where c = "BurnCall cx i" for cx i]
  as_calls_one [where c = "ProfileCall c p" for c p] as_calls_one [where c = "BlocklistCall c b" for c b]
  as_calls_one [where c = "AutoBurnCall c n" for c n]

lemma as_calls_steps:
  "as_calls st (with_auth (exchange_pairing (as_auth st) p))" "as_calls st (with_auth (issue_ticket (as_auth st) cx purpose))"
  "as_calls st (start_session st cx u)" "as_calls st (navigate_session st cx sid cmd)"
  "as_calls st (switch_session_egress st cx sid mode)" "as_calls st (burn_controller_session st cx sid)"
  "as_calls st (with_session (set_stream_profile c profile))" "as_calls st (with_session (set_blocklist_enabled c b))"
  "as_calls st (with_session (set_auto_burn_seconds c n))"
  by (rule as_calls_app; simp)+

lemma handle_as_calls: "as_calls (ai_state a) (handle a head rq)"
proof -
  note rules = as_calls_and_then as_calls_map_err as_calls_reads as_calls_sample as_calls_guard as_calls_steps
  show ?thesis
    by (cases rq) (auto simp: api_public_status_def api_exchange_pairing_def api_get_session_def
        api_start_session_def api_burn_session_def api_navigate_def api_set_egress_def api_set_stream_profile_def
        api_set_blocklist_def api_set_auto_burn_def api_metrics_def api_issue_ticket_def api_session_events_def
        api_session_signal_def intro!: rules split: option.splits)
qed


section \<open>Errors\<close>

definition never_panics :: "('s, handler_error, 'c) op \<Rightarrow> bool" where
  "never_panics n \<longleftrightarrow> (\<forall>t m. fst (n t) \<noteq> Inl (Panicked m))"

lemma never_panics_rules:
  "never_panics (ret x)" "never_panics (map_err Answer n)"
  by (auto simp: never_panics_def ret_def map_err_def split: prod.splits sum.splits)

lemma never_panics_then: "never_panics n \<Longrightarrow> (\<And>x. never_panics (k x)) \<Longrightarrow> never_panics (and_then n k)"
  by (auto simp: never_panics_def and_then_def split: prod.splits sum.splits) (metis fst_conv)



section \<open>Pairing\<close>

lemma map_of_filter_keep: "map_of xs k = Some v \<Longrightarrow> P (k, v) \<Longrightarrow> map_of (filter P xs) k = Some v"
  by (induction xs) (auto split: if_splits)

lemma exchange_instant: "m_instant (ah_mach (snd (exchange_pairing am p s))) = m_instant (ah_mach s)"
  by (simp add: exchange_pairing_def auth_op_defs getrandom_def split: option.splits)

text \<open>
  C8. Pairing and the API agree: whoever presents the cookie and the token that an exchange answered,
  from an allowed origin, proves control at once and is known as the client of that answer. The
  cookie is hidden from scripts, kept to this site, and \<open>Secure\<close> when the configuration says so; the
  pairing material it was traded for is spent.
\<close>

theorem pairing_opens_the_api:
  assumes "handle a head (PostPairing p) s = (Inr (PairBody ck body), s')"
    and "0 < am_auth_ttl (as_auth (ai_state a))"
    and "rh_cookie head' session_cookie = Some (ck_value ck)"
    and "rh_header head' csrf_header = Some (pr_csrf_token body)" and "validate_origin a head' = Inr ()"
  shows "proves_control a head' s' \<and> \<not> pairing_available (ap_auth s') \<and>
    fst (api_authenticate a head' True s') =
      Inr \<lparr>cx_client_id = pr_client_id body, cx_generation = generation (ap_auth s)\<rparr> \<and>
    ck_name ck = session_cookie \<and> ck_http_only ck \<and> ck_same_site ck = Strict \<and>
    ck_secure ck = sv_secure_cookies (cf_server (ai_config a))"
proof -
  let ?am = "as_auth (ai_state a)"
  obtain secret res where p: "p = Some secret"
    and e: "with_auth (exchange_pairing ?am secret) s = (Inr res, s')"
    and ck: "ck = build_cookie a (er_session_token res)"
    and body: "pr_client_id body = er_client_id res" "pr_csrf_token body = er_csrf_token res"
    using assms(1)
    by (auto simp: api_exchange_pairing_def parse_json_def map_err_def and_then_def from_result_def raise_def ret_def
        split: option.splits sum.splits prod.splits if_splits)
  obtain t where x: "exchange_pairing ?am secret (auth_view s) = (Inr res, t)"
    and s': "s' = s\<lparr>ap_sess := (ap_sess s)\<lparr>ss_mach := ah_mach t\<rparr>, ap_auth := ah_auth t\<rparr>"
    using e by (auto simp: with_auth_def split: prod.splits)
  let ?now = "m_instant (ss_mach (ap_sess s))"
  have t: "ah_auth t = (consumed (ap_auth s))\<lparr>sessions := AList.update (hash_of ?am (er_session_token res))
      (new_session ?am ?now res (ap_auth s)) (sessions (ap_auth s))\<rparr>"
    using exchange_cases [OF x] by fastforce
  have now: "m_instant (ah_mach t) = ?now"
    using exchange_instant [of ?am secret "auth_view s"] x by simp
  let ?x = "new_session ?am ?now res (ap_auth s)"
  have m: "map_of (sessions (ah_auth t)) (hash_of ?am (er_session_token res)) = Some ?x"
    by (simp add: t update_conv')
  have keep: "?now < as_expires_at ?x" "as_generation ?x = generation (ah_auth t)" "as_csrf_hash ?x = hash_of ?am (er_csrf_token res)"
    using assms(2) by (simp_all add: new_session_def t consumed_def)
  have pm: "map_of (sessions (prune_expired ?now (ah_auth t))) (hash_of ?am (er_session_token res)) = Some ?x"
    using m keep by (auto simp: prune_expired_def map_of_filter_keep)
  have "proves_control a head' s'"
    using assms(3-5) map_of_SomeD [OF m] keep now ck body
    by (auto simp: proves_control_def s' build_cookie_def)
  moreover have "fst (api_authenticate a head' True s') =
      Inr \<lparr>cx_client_id = pr_client_id body, cx_generation = generation (ap_auth s)\<rparr>"
    using assms(3-5) pm now ck body keep
    by (simp add: api_authenticate_def and_then_def from_result_def with_auth_def auth_view_def s' build_cookie_def
        authenticate_eq Let_def new_session_def split: prod.splits)
  moreover have "\<not> pairing_available (ap_auth s')"
    by (simp add: s' t consumed_def pairing_available_def)
  ultimately show ?thesis by (simp add: ck build_cookie_def)
qed

theorem pairing_opens_the_api_witness:
  "\<exists>ck body s'. handle demo_api no_head (PostPairing (Some (replicate 40 CHR ''x''))) demo_app = (Inr (PairBody ck body), s') \<and>
     proves_control demo_api paired_head s'"
proof -
  have "fst (handle demo_api no_head (PostPairing (Some (replicate 40 CHR ''x''))) demo_app) =
      Inr (PairBody (build_cookie demo_api ''A'') \<lparr>pr_client_id = 1, pr_csrf_token = ''AA'', pr_expires_in_seconds = 60\<rparr>)"
    by (simp add: api_exchange_pairing_def parse_json_def validate_origin_def no_head_def map_err_def and_then_def
        from_result_def ret_def with_auth_def auth_view_def exchange_pairing_def auth_op_defs demo_api_def demo_app_def
        demo_daemon_def demo_defs auth_state_new_def hash_of_def getrandom_def demo_host_machine_def demo_disk_def
        second_def build_cookie_def demo_idle_def session_new_def)
  then obtain s' where h: "handle demo_api no_head (PostPairing (Some (replicate 40 CHR ''x''))) demo_app =
      (Inr (PairBody (build_cookie demo_api ''A'') \<lparr>pr_client_id = 1, pr_csrf_token = ''AA'', pr_expires_in_seconds = 60\<rparr>), s')"
    by (metis prod.collapse)
  from pairing_opens_the_api [OF h, of paired_head] h show ?thesis
    by (auto simp: demo_api_def demo_daemon_def demo_manager_def second_def paired_head_def build_cookie_def
        validate_origin_def session_cookie_def csrf_header_def)
qed

text \<open>
  An origin the configuration accepts in an unnormalised form is compared as written: a daemon that
  lists its own address with a trailing slash validates, and refuses its own web page.
\<close>

definition slash_config :: config where
  "slash_config = default_config\<lparr>cf_server := default_server\<lparr>sv_allowed_origins := [''http://127.0.0.1:8088/'']\<rparr>\<rparr>"

definition slash_parse_url :: "string \<Rightarrow> url option" where
  "slash_parse_url s = (if s = ''http://127.0.0.1:8088/'' then demo_parse_url ''http://127.0.0.1:8088'' else demo_parse_url s)"

lemma slash_managed:
  "trim p \<noteq> ''http://127.0.0.1:8088/'' \<Longrightarrow>
   check_managed_proxy slash_parse_url label p = check_managed_proxy demo_parse_url label p"
  by (simp add: check_managed_proxy_def validate_proxy_url_def slash_parse_url_def Let_def)

lemma slash_config_valid: "validate_config slash_parse_url slash_config = Inr ()"
proof -
  have t: "trim ''socks5://127.0.0.1:9050'' = ''socks5://127.0.0.1:9050''"
    "trim ''socks5://127.0.0.1:40000'' = ''socks5://127.0.0.1:40000''" by (simp_all add: str_eval)
  note same = slash_config_def default_config_def default_network_def default_session_def default_server_def
  have f: "sv_public_base_url default_server = ''http://127.0.0.1:8088''"
    "sv_allowed_origins default_server = [''http://127.0.0.1:8088'']" by (simp_all add: default_server_def)
  have o: "normalize_origins slash_parse_url [''http://127.0.0.1:8088/''] =
      normalize_origins demo_parse_url [''http://127.0.0.1:8088'']"
    by (simp add: slash_parse_url_def demo_parse_url_def)
  have p: "slash_parse_url ''http://127.0.0.1:8088'' = demo_parse_url ''http://127.0.0.1:8088''"
    by (simp add: slash_parse_url_def)
  have n: "check_network slash_parse_url slash_config = check_network demo_parse_url default_config"
    by (simp add: check_network_def Let_def same slash_managed t slash_parse_url_def)
  have s: "check_signaling slash_parse_url (cf_signaling slash_config) =
      check_signaling demo_parse_url (cf_signaling default_config)"
    by (simp add: check_signaling_def slash_config_def default_config_def default_signaling_def slash_parse_url_def Let_def)
  have c: "cf_server slash_config = default_server\<lparr>sv_allowed_origins := [''http://127.0.0.1:8088/'']\<rparr>"
    "cf_server default_config = default_server" by (simp_all add: slash_config_def default_config_def)
  have same: "check_mode slash_config u os = check_mode default_config u os" "check_lifetimes slash_config = check_lifetimes default_config"
    "check_paths slash_config = check_paths default_config" "check_public_url (default_server\<lparr>sv_allowed_origins := [''http://127.0.0.1:8088/'']\<rparr>) u = check_public_url default_server u" for u os
    by (simp_all add: check_mode_def check_lifetimes_def check_paths_def check_public_url_def slash_config_def default_config_def)
  show ?thesis
    using default_config_valid unfolding validate_config_ok by (auto simp: n s same c f o p simp del: normalize_origins.simps)
qed

lemma unnormalized_origin_locks_out:
  "validate_config slash_parse_url slash_config = Inr () \<and>
   (ai_config a = slash_config \<longrightarrow> rh_header head ''origin'' = Some (sv_public_base_url (cf_server slash_config)) \<longrightarrow>
     validate_origin a head = Inl InvalidCsrf)"
  using slash_config_valid by (simp add: validate_origin_def slash_config_def default_server_def)


end
