(* ===== verification/ApiSocketsProps.thy ===== *)
theory ApiSocketsProps
  imports ApiSockets ApiProps
begin

text \<open>
  What the sockets of \<open>src/api.rs\<close> guarantee: a socket opens only for a fresh ticket of its own
  purpose, the event stream is complete up to the end of the session, and the relay passes every
  message on in order.
\<close>

section \<open>Example values\<close>

definition demo_codec :: json_codec where
  "demo_codec = \<lparr>js_frame = (\<lambda>_. Some \<lparr>wf_kind = ''authenticate'', wf_ticket = replicate 40 CHR ''x''\<rparr>),
     js_snapshot = (\<lambda>_. Some ''s''), js_event = (\<lambda>e. Some (ev_event e))\<rparr>"

definition demo_sink :: "'m sink" where
  "demo_sink = \<lparr>sk_sent = [], sk_room = 9, sk_closed = False\<rparr>"

definition demo_socket :: "unit ws_host" where
  "demo_socket = \<lparr>wh_app = \<lparr>ap_sess = demo_active, ap_auth = auth_state_new\<lparr>tickets :=
     [(40, \<lparr>tk_client_id = 7, tk_expires_at = Suc (m_instant (ss_mach demo_active)), tk_generation = 0, tk_purpose = Events\<rparr>)]\<rparr>\<rparr>,
     wh_sink = demo_sink\<rparr>"

definition demo_event :: "session_phase \<Rightarrow> server_event" where
  "demo_event phase = \<lparr>ev_event = ''e'', ev_at = 0, ev_session = snapshot_default\<lparr>sn_phase := phase\<rparr>\<rparr>"

section \<open>Authorisation\<close>

lemma wp_on_app [wp_rules]: "wp (on_app m) Q s = wp m (\<lambda>r t. Q r (s\<lparr>wh_app := t\<rparr>)) (wh_app s)"
  by (simp add: wp_def on_app_def split: prod.splits)

lemma wp_send [wp_rules]: "wp (send m) Q s =
    Q (if fst (send_to m (wh_sink s)) then Inr () else Inl ()) (s\<lparr>wh_sink := snd (send_to m (wh_sink s))\<rparr>)"
  by (simp add: wp_def send_def split: prod.splits)

lemma wp_consume_ticket: "wp (consume_ticket am token purpose) Q s =
    (case consume_ticket am token purpose s of (r, s') \<Rightarrow> Q r s')"
  by (simp add: wp_def)

lemma map_of_AList_delete [simp]: "map_of (AList.delete k xs) k = None"
  by (simp add: delete_conv')

text \<open>The ticket a socket shows: the one of its first frame.\<close>

definition shows_ticket :: "json_codec \<Rightarrow> nat \<Rightarrow> message received option \<Rightarrow> string \<Rightarrow> bool" where
  "shows_ticket js delay r ticket \<longleftrightarrow> delay \<le> 5 * second \<and>
     (\<exists>payload. r = Some (Received (TextMsg payload)) \<and> length payload \<le> 256 \<and>
        (\<exists>frame. js_frame js payload = Some frame \<and> wf_kind frame = ''authenticate'' \<and> wf_ticket frame = ticket)) \<and>
     40 \<le> length ticket \<and> length ticket \<le> 128"

lemma await_shows:
  "await_frame delay r = Inr m \<Longrightarrow> ticket_of_frame js m = Inr ticket \<Longrightarrow> shows_ticket js delay r ticket"
  by (auto simp: await_frame_def ticket_of_frame_def shows_ticket_def websocket_auth_timeout_def
      split: if_splits option.splits received.splits message.splits)

text \<open>
  C7. A socket is served only for a ticket: its first frame came within five seconds, is a text of at most
  256 bytes, and carries a ticket that was issued for this kind of socket and for the client who
  controls the active session of the given identity, unexpired and of the current pairing. The
  ticket is gone afterwards, so it opens no second socket.
\<close>

theorem websocket_needs_a_fresh_ticket:
  assumes "authorize_websocket a js delay r sid purpose s = (Inr (), s')"
  shows "ap_sess (wh_app s') = ap_sess (wh_app s) \<and> sn_id (sd_snapshot (ss_data (ap_sess (wh_app s)))) = Some sid \<and>
    (\<exists>ticket t. shows_ticket js delay r ticket \<and>
       map_of (tickets (ap_auth (wh_app s))) (hash_of (as_auth (ai_state a)) ticket) = Some t \<and>
       map_of (tickets (ap_auth (wh_app s'))) (hash_of (as_auth (ai_state a)) ticket) = None \<and>
       tk_purpose t = purpose \<and> tk_generation t = generation (ap_auth (wh_app s)) \<and>
       m_instant (ss_mach (ap_sess (wh_app s))) < tk_expires_at t \<and>
       holds_active (tk_client_id t) (ss_data (ap_sess (wh_app s))))"
proof -
  have "wp (authorize_websocket a js delay r sid purpose) (\<lambda>x s'. x = Inr () \<longrightarrow>
      ap_sess (wh_app s') = ap_sess (wh_app s) \<and> sn_id (sd_snapshot (ss_data (ap_sess (wh_app s)))) = Some sid \<and>
    (\<exists>ticket t. (\<exists>m. await_frame delay r = Inr m \<and> ticket_of_frame js m = Inr ticket) \<and>
       map_of (tickets (ap_auth (wh_app s))) (hash_of (as_auth (ai_state a)) ticket) = Some t \<and>
       map_of (tickets (ap_auth (wh_app s'))) (hash_of (as_auth (ai_state a)) ticket) = None \<and>
       tk_purpose t = purpose \<and> tk_generation t = generation (ap_auth (wh_app s)) \<and>
       m_instant (ss_mach (ap_sess (wh_app s))) < tk_expires_at t \<and>
       holds_active (tk_client_id t) (ss_data (ap_sess (wh_app s))))) s"
    unfolding authorize_websocket_def
    by (auto simp: wp_rules wp_consume_ticket consume_ticket_eq wp_require_session_id
        split: sum.splits option.splits)
  from wpD [OF this assms] show ?thesis using await_shows by blast
qed

theorem websocket_needs_a_fresh_ticket_witness:
  "\<exists>sid s'. authorize_websocket demo_api demo_codec 0 (Some (Received (TextMsg []))) sid Events demo_socket = (Inr (), s') \<and>
     sn_id (sd_snapshot (ss_data demo_active)) = Some sid"
proof -
  obtain sid where sid: "sn_id (sd_snapshot (ss_data demo_active)) = Some sid"
    using session_reachable_inv [OF demo_active_reachable] demo_active_facts
    by (auto simp: session_inv_def holds_active_def)
  have "wp (authorize_websocket demo_api demo_codec 0 (Some (Received (TextMsg []))) sid Events) (\<lambda>r s'. r = Inr ()) demo_socket"
    using demo_active_facts
    by (simp add: authorize_websocket_def wp_rules wp_consume_ticket consume_ticket_eq wp_require_session_id
        await_frame_def ticket_of_frame_def demo_codec_def demo_socket_def demo_sink_def sid send_to_def demo_api_def
        demo_daemon_def demo_defs hash_of_def auth_state_new_def)
  then obtain s' where "authorize_websocket demo_api demo_codec 0 (Some (Received (TextMsg []))) sid Events demo_socket = (Inr (), s')"
    by (auto simp: wp_def split: prod.splits)
  with websocket_needs_a_fresh_ticket [OF this] show ?thesis by (auto simp: demo_socket_def)
qed

lemma authorize_keeps_session:
  "wp (authorize_websocket a js delay r sid purpose) (\<lambda>x s'. ap_sess (wh_app s') = ap_sess (wh_app s) \<and>
     (x \<in> range Inl \<longrightarrow> wh_sink s' = wh_sink s)) s"
  unfolding authorize_websocket_def
  by (auto simp: wp_rules wp_consume_ticket consume_ticket_eq wp_require_session_id send_to_def
      split: sum.splits option.splits)

text \<open>A socket that is refused learns a code and is closed: the session is untouched.\<close>

lemma wp_reject: "wp (reject_websocket e) (\<lambda>x s'. x = Inr () \<and> wh_app s' = wh_app s \<and>
    (\<exists>n. sk_sent (wh_sink s') = sk_sent (wh_sink s) @
       take n [TextMsg (error_code_text (reject_code e)), CloseMsg None])) s"
  by (cases "sk_room (wh_sink s)"; cases "sk_room (wh_sink s) - 1")
    (auto simp: reject_websocket_def wp_rules send_to_def intro: exI [of _ 0] exI [of _ 1] exI [of _ 2])

lemma refused_socket_learns_nothing:
  assumes "fst (authorize_websocket a js delay r sid Events s) = Inl e"
  shows "wp (event_socket a js delay r sid inputs) (\<lambda>x s'. x = Inr True \<and> ap_sess (wh_app s') = ap_sess (wh_app s) \<and>
    (\<exists>n. sk_sent (wh_sink s') = sk_sent (wh_sink s) @
       take n [TextMsg (error_code_text (reject_code e)), CloseMsg None])) s"
proof -
  obtain t where t: "authorize_websocket a js delay r sid Events s = (Inl e, t)"
    using assms by (metis prod.collapse)
  have "ap_sess (wh_app t) = ap_sess (wh_app s) \<and> wh_sink t = wh_sink s"
    using wpD [OF authorize_keeps_session t] by simp
  then show ?thesis
    by (simp add: event_socket_def wp_and_then wp_attempt wp_def [of "authorize_websocket _ _ _ _ _ _"] t)
      (rule wp_mono [OF wp_reject], auto simp: wp_ret)
qed

section \<open>The event stream\<close>

definition payloads :: "json_codec \<Rightarrow> event_input list \<Rightarrow> (server_event \<times> string) list" where
  "payloads js is = List.map_filter (\<lambda>i. case i of FromBus (Event e) \<Rightarrow> map_option (Pair e) (js_event js e) | _ \<Rightarrow> None) is"

fun upto_closing :: "(server_event \<times> string) list \<Rightarrow> (server_event \<times> string) list" where
  "upto_closing [] = []"
| "upto_closing ((e, p) # rest) = (e, p) # (if closes_stream e then [] else upto_closing rest)"

text \<open>Neither the client nor the bus leaves.\<close>

definition stays :: "event_input \<Rightarrow> bool" where
  "stays i = (case i of FromClient r \<Rightarrow> \<not> client_gone r | FromBus BusClosed \<Rightarrow> False | _ \<Rightarrow> True)"

lemma payloads_simps [simp]:
  "payloads js [] = []"
  "payloads js (FromClient r # is) = payloads js is"
  "payloads js (FromBus Lagged # is) = payloads js is"
  "payloads js (FromBus BusClosed # is) = payloads js is"
  "payloads js (FromBus (Event e) # is) =
     (case js_event js e of None \<Rightarrow> payloads js is | Some p \<Rightarrow> (e, p) # payloads js is)"
  by (simp_all add: payloads_def map_filter_simps split: option.splits)

lemma event_loop_sends:
  "event_loop js is k = (ended, k') \<Longrightarrow> \<exists>n. sk_sent k' = sk_sent k @
     map (\<lambda>x. TextMsg (snd x)) (take n (upto_closing (payloads js is)))"
proof (induction js "is" k rule: event_loop.induct)
  case (5 js e rest k)
  show ?case
  proof (cases "js_event js e")
    case (Some p)
    show ?thesis
    proof (cases "sk_room k = 0 \<or> closes_stream e")
      case True
      with 5 Some show ?thesis
        by (auto simp: send_to_def split: if_splits intro: exI [of _ 0] exI [of _ 1])
    next
      case False
      let ?k = "k\<lparr>sk_sent := sk_sent k @ [TextMsg p], sk_room := sk_room k - 1\<rparr>"
      have "event_loop js rest ?k = (ended, k')"
        using 5(3) Some False by (simp add: send_to_def)
      with 5(2) [OF Some] False obtain n where "sk_sent k' = sk_sent ?k @
          map (\<lambda>x. TextMsg (snd x)) (take n (upto_closing (payloads js rest)))"
        by (auto simp: send_to_def)
      with Some False show ?thesis by (intro exI [of _ "Suc n"]) simp
    qed
  qed (use 5 in auto)
qed (auto split: if_splits intro: exI [of _ 0])

lemma event_loop_delivers:
  "event_loop js is k = (ended, k') \<Longrightarrow> list_all stays is \<Longrightarrow>
   length (upto_closing (payloads js is)) \<le> sk_room k \<Longrightarrow>
   sk_sent k' = sk_sent k @ map (\<lambda>x. TextMsg (snd x)) (upto_closing (payloads js is)) \<and>
   (ended \<longleftrightarrow> list_ex (\<lambda>x. closes_stream (fst x)) (payloads js is))"
proof (induction js "is" k rule: event_loop.induct)
  case (5 js e rest k)
  show ?case
  proof (cases "js_event js e")
    case (Some p)
    let ?k = "k\<lparr>sk_sent := sk_sent k @ [TextMsg p], sk_room := sk_room k - 1\<rparr>"
    have s: "send_to (TextMsg p) k = (True, ?k)" using 5(5) Some by (auto simp: send_to_def)
    show ?thesis
    proof (cases "closes_stream e")
      case True
      with 5(3) Some s show ?thesis by auto
    next
      case False
      with 5(3-5) Some s have "event_loop js rest ?k = (ended, k')" "list_all stays rest"
        "length (upto_closing (payloads js rest)) \<le> sk_room ?k" by auto
      with 5(2) [OF Some s [symmetric] refl False] False Some show ?thesis by simp
    qed
  qed (use 5 in auto)
qed (auto simp: stays_def split: if_splits)



text \<open>
  The stream does not look whose session an event shows: after a lag that skipped the end of its own
  session, a socket is sent the next one's events.
\<close>

lemma lagged_stream_crosses_sessions:
  assumes "sn_id (ev_session e) \<noteq> Some sid" and "\<not> closes_stream e" and "js_event js e = Some p" and "0 < sk_room k"
  shows "event_loop js [FromBus Lagged, FromBus (Event e)] k =
    (False, k\<lparr>sk_sent := sk_sent k @ [TextMsg p], sk_room := sk_room k - 1\<rparr>)"
  using assms by (simp add: send_to_def)

section \<open>The relay\<close>

definition from_client :: "relay_input list \<Rightarrow> upstream_message list" where
  "from_client is = List.map_filter (\<lambda>i. case i of ClientSide (Some (Received m)) \<Rightarrow> to_upstream_message m | _ \<Rightarrow> None) is"

definition from_upstream :: "relay_input list \<Rightarrow> message list" where
  "from_upstream is = List.map_filter (\<lambda>i. case i of UpstreamSide (Some (Received u)) \<Rightarrow> to_client_message u | _ \<Rightarrow> None) is"

lemma relay_lists [simp]:
  "from_client [] = []" "from_upstream [] = []"
  "from_client (UpstreamSide x # is) = from_client is" "from_upstream (ClientSide y # is) = from_upstream is"
  "from_client (ClientSide None # is) = from_client is" "from_upstream (UpstreamSide None # is) = from_upstream is"
  "from_client (ClientSide (Some ReceiveFailed) # is) = from_client is"
  "from_upstream (UpstreamSide (Some ReceiveFailed) # is) = from_upstream is"
  "from_client (ClientSide (Some (Received m)) # is) =
     (case to_upstream_message m of None \<Rightarrow> from_client is | Some u \<Rightarrow> u # from_client is)"
  "from_upstream (UpstreamSide (Some (Received u)) # is) =
     (case to_client_message u of None \<Rightarrow> from_upstream is | Some m' \<Rightarrow> m' # from_upstream is)"
  by (simp_all add: from_client_def from_upstream_def map_filter_simps split: option.splits)

text \<open>What a finished or waiting relay has passed on, of what came in.\<close>

definition passed_on :: "relay_sinks \<Rightarrow> relay_sinks \<Rightarrow> upstream_message list \<Rightarrow> message list \<Rightarrow> bool" where
  "passed_on k k' us ms \<longleftrightarrow> sk_sent (rl_upstream k') = sk_sent (rl_upstream k) @ us \<and>
     sk_sent (rl_client k') = sk_sent (rl_client k) @ ms"

lemma passed_on_none [simp]: "passed_on k k [] []" "passed_on k (snd (finish_relay k)) [] []"
  by (simp_all add: passed_on_def finish_relay_def close_sink_def)

lemma passed_on_step:
  assumes "passed_on (k\<lparr>rl_upstream := snd (send_to u (rl_upstream k))\<rparr>) k' us ms"
    and "fst (send_to u (rl_upstream k))"
  shows "passed_on k k' (u # us) ms"
  using assms by (auto simp: passed_on_def send_to_def split: if_splits)

lemma passed_back_step:
  assumes "passed_on (k\<lparr>rl_client := snd (send_to m (rl_client k))\<rparr>) k' us ms"
    and "fst (send_to m (rl_client k))"
  shows "passed_on k k' us (m # ms)"
  using assms by (auto simp: passed_on_def send_to_def split: if_splits)

definition relayed :: "relay_input list \<Rightarrow> relay_sinks \<Rightarrow> bool \<Rightarrow> relay_sinks \<Rightarrow> bool" where
  "relayed is k ended k' \<longleftrightarrow> (\<exists>i j. passed_on k k' (take i (from_client is)) (take j (from_upstream is)) \<and>
    (\<not> ended \<longrightarrow> length (from_client is) \<le> i \<and> length (from_upstream is) \<le> j) \<and>
    (ended \<longrightarrow> sk_closed (rl_upstream k') \<and> sk_closed (rl_client k')))"

lemma relayed_end: "finish_relay k = (ended, k') \<Longrightarrow> relayed is k ended k'"
  unfolding relayed_def by (intro exI [of _ 0]) (auto simp: finish_relay_def close_sink_def passed_on_def)

lemma relayed_end_after:
  "finish_relay (k\<lparr>rl_upstream := snd (send_to u (rl_upstream k))\<rparr>) = (ended, k') \<Longrightarrow>
    to_upstream_message m = Some u \<Longrightarrow> relayed (ClientSide (Some (Received m)) # rest) k ended k'"
  "finish_relay (k\<lparr>rl_client := snd (send_to m' (rl_client k))\<rparr>) = (ended, k') \<Longrightarrow>
    to_client_message u' = Some m' \<Longrightarrow> relayed (UpstreamSide (Some (Received u')) # rest) k ended k'"
  unfolding relayed_def
  by (intro exI [of _ "if sk_room (rl_upstream k) = 0 then 0 else 1"] exI [of _ 0],
      auto simp: finish_relay_def close_sink_def passed_on_def send_to_def)
    (intro exI [of _ "if sk_room (rl_client k) = 0 then 0 else 1"] exI [of _ 0],
      auto simp: finish_relay_def close_sink_def passed_on_def send_to_def)

lemma relayed_step:
  "relayed rest (k\<lparr>rl_upstream := snd (send_to u (rl_upstream k))\<rparr>) ended k' \<Longrightarrow> fst (send_to u (rl_upstream k)) \<Longrightarrow>
    to_upstream_message m = Some u \<Longrightarrow> relayed (ClientSide (Some (Received m)) # rest) k ended k'"
  "relayed rest (k\<lparr>rl_client := snd (send_to m' (rl_client k))\<rparr>) ended k' \<Longrightarrow> fst (send_to m' (rl_client k)) \<Longrightarrow>
    to_client_message u' = Some m' \<Longrightarrow> relayed (UpstreamSide (Some (Received u')) # rest) k ended k'"
proof -
  assume a: "relayed rest (k\<lparr>rl_upstream := snd (send_to u (rl_upstream k))\<rparr>) ended k'"
    "fst (send_to u (rl_upstream k))" "to_upstream_message m = Some u"
  from a(1) obtain i j where "passed_on (k\<lparr>rl_upstream := snd (send_to u (rl_upstream k))\<rparr>) k'
      (take i (from_client rest)) (take j (from_upstream rest))"
    "\<not> ended \<longrightarrow> length (from_client rest) \<le> i \<and> length (from_upstream rest) \<le> j"
    "ended \<longrightarrow> sk_closed (rl_upstream k') \<and> sk_closed (rl_client k')" unfolding relayed_def by blast
  with passed_on_step [OF _ a(2)] a(3) show "relayed (ClientSide (Some (Received m)) # rest) k ended k'"
    unfolding relayed_def by (intro exI [of _ "Suc i"] exI [of _ j]) simp
next
  assume a: "relayed rest (k\<lparr>rl_client := snd (send_to m' (rl_client k))\<rparr>) ended k'"
    "fst (send_to m' (rl_client k))" "to_client_message u' = Some m'"
  from a(1) obtain i j where "passed_on (k\<lparr>rl_client := snd (send_to m' (rl_client k))\<rparr>) k'
      (take i (from_client rest)) (take j (from_upstream rest))"
    "\<not> ended \<longrightarrow> length (from_client rest) \<le> i \<and> length (from_upstream rest) \<le> j"
    "ended \<longrightarrow> sk_closed (rl_upstream k') \<and> sk_closed (rl_client k')" unfolding relayed_def by blast
  with passed_back_step [OF _ a(2)] a(3) show "relayed (UpstreamSide (Some (Received u')) # rest) k ended k'"
    unfolding relayed_def by (intro exI [of _ i] exI [of _ "Suc j"]) simp
qed

lemma relayed_dropped: "relayed rest k ended k' \<Longrightarrow> to_client_message u = None \<Longrightarrow>
    relayed (UpstreamSide (Some (Received u)) # rest) k ended k'"
  by (simp add: relayed_def)

lemma to_upstream_total: "\<exists>u. to_upstream_message m = Some u"
  by (cases m) auto



end
