(* ===== verification/Served.thy ===== *)
theory Served
  imports Daemon ApiSocketsProps
begin

text \<open>
  The daemon of \<open>src/main.rs\<close> while it serves: requests of \<open>src/api.rs\<close> in any order, turns of the watchdog,
  and the world going on in between. The contract of theory Conformance, kept by every call of the
  session layer, is kept by everything the API and the watchdog can do.
\<close>

section \<open>The helpers and the pairing state\<close>

text \<open>The pairing side leaves the helpers alone.\<close>

lemma pairing_leaves_helpers:
  "m_helpers (ah_mach (snd (exchange_pairing am p s))) = m_helpers (ah_mach s)"
  "m_helpers (ah_mach (snd (authenticate am t c r s))) = m_helpers (ah_mach s)"
  "m_helpers (ah_mach (snd (issue_ticket am cx purpose s))) = m_helpers (ah_mach s)"
  "m_helpers (ah_mach (snd (consume_ticket am token purpose s))) = m_helpers (ah_mach s)"
  "m_helpers (ah_mach (snd (validate_context cx s))) = m_helpers (ah_mach s)"
  "m_helpers (ah_mach (snd (rotate_pairing am s))) = m_helpers (ah_mach s)"
  "m_helpers (ah_mach (snd (revoke_all s))) = m_helpers (ah_mach s)"
  "m_helpers (ah_mach (snd (invalidate_unpublished_pairing s))) = m_helpers (ah_mach s)"
  "m_helpers (ah_mach (snd (pairing_recovery_required s))) = m_helpers (ah_mach s)"
  using authenticate_prunes [of am t c r s]
  by (auto simp: exchange_pairing_def issue_ticket_def consume_ticket_eq validate_context_eq rotate_pairing_def
      revoke_all_eq invalidate_eq pairing_recovery_required_eq Let_def auth_op_defs getrandom_def
      split: option.splits)

lemma publishing_leaves_helpers:
  "m_helpers (ah_mach (snd (mach_op (write_pairing_file pm path url) s))) = m_helpers (ah_mach s)"
proof -
  obtain r h where w: "write_pairing_file pm path url (ah_mach s) = (r, h)" by fastforce
  with wp_only_fs [OF w] show ?thesis by (auto simp: mach_op_def)
qed

section \<open>The contract under the daemon\<close>

context backend_pair begin

definition app_conforming :: "'b app \<Rightarrow> bool" where
  "app_conforming s \<longleftrightarrow> conforming (ap_sess s)"

lemma same_helpers_conforming: "conforming s \<Longrightarrow> m_helpers h = m_helpers (ss_mach s) \<Longrightarrow> conforming (s\<lparr>ss_mach := h\<rparr>)"
  by (simp add: conforming_def)

lemma keeps_with_auth:
  assumes "\<And>s. m_helpers (ah_mach (snd (n s))) = m_helpers (ah_mach s)"
  shows "keeps app_conforming (with_auth n)"
  using assms by (auto simp: keeps_def app_conforming_def with_auth_def auth_view_def split: prod.splits
      intro!: same_helpers_conforming) (metis auth_host.select_convs(1) snd_conv)

lemma keeps_with_session: "(\<And>s. conforming s \<Longrightarrow> wp n (\<lambda>r s'. conforming s') s) \<Longrightarrow> keeps app_conforming (with_session n)"
  by (auto simp: keeps_def app_conforming_def with_session_def wp_snd split: prod.splits) (metis snd_conv)

lemmas keeps_pairing = pairing_leaves_helpers [THEN keeps_with_auth] publishing_leaves_helpers [THEN keeps_with_auth]

lemma keeps_session_ops:
  "keeps app_conforming (with_session (start m c u))"
  "keeps app_conforming (with_session (navigate m c cmd))"
  "keeps app_conforming (with_session (switch_egress m c mode))"
  "keeps app_conforming (with_session (burn m c))"
  "keeps app_conforming (with_session (force_burn m))"
  "keeps app_conforming (with_session (set_stream_profile c profile))"
  "keeps app_conforming (with_session (set_blocklist_enabled c b))"
  "keeps app_conforming (with_session (set_auto_burn_seconds c n))"
  "keeps app_conforming (with_session get_snapshot)"
  "keeps app_conforming (with_session idle_for)"
proof -
  have exec: "conforming (session_exec m call s)" if "conforming s" "\<And>h. call \<noteq> SMachine h" for call s
    by (rule exec_conforming [OF that])
  show "keeps app_conforming (with_session (start m c u))" by (rule keeps_with_session) (rule start_conforming)
  show "keeps app_conforming (with_session (navigate m c cmd))" by (rule keeps_with_session) (rule navigate_conforming)
  show "keeps app_conforming (with_session (switch_egress m c mode))" by (rule keeps_with_session) (rule switch_conforming)
  show "keeps app_conforming (with_session (burn m c))"
    using exec [of _ "SBurn c"] by (intro keeps_with_session) (simp add: wp_snd)
  show "keeps app_conforming (with_session (force_burn m))"
    using exec [of _ SForceBurn] by (intro keeps_with_session) (simp add: wp_snd)
  show "keeps app_conforming (with_session (set_stream_profile c profile))"
    using exec [of _ "SSetProfile c profile"] by (intro keeps_with_session) (simp add: wp_snd)
  show "keeps app_conforming (with_session (set_blocklist_enabled c b))"
    using exec [of _ "SSetBlocklist c b"] by (intro keeps_with_session) (simp add: wp_snd)
  show "keeps app_conforming (with_session (set_auto_burn_seconds c n))"
    using exec [of _ "SSetAutoBurn c n"] by (intro keeps_with_session) (simp add: wp_snd)
qed (rule keeps_with_session, simp add: wp_rules idle_for_def)+

lemma keeps_require: "keeps app_conforming (require_session_id sid)"
  unfolding require_session_id_def by (auto intro!: keeps_rules keeps_session_ops)

lemma keeps_burn_and_rotate:
  assumes "as_sessions a = m"
  shows "keeps app_conforming (rotate_pairing_material a)" and "keeps app_conforming (burn_and_rotate a who)"
proof -
  show r: "keeps app_conforming (rotate_pairing_material a)"
    unfolding rotate_pairing_material_def by (auto intro!: keeps_rules keeps_pairing split: sum.splits)
  show "keeps app_conforming (burn_and_rotate a who)"
    unfolding burn_and_rotate_def assms
    by (auto intro!: keeps_rules keeps_pairing keeps_session_ops r split: option.splits)
qed

lemma keeps_daemon_calls:
  assumes "as_sessions a = m"
  shows "keeps app_conforming (start_session a cx u)" "keeps app_conforming (navigate_session a cx i cmd)"
    "keeps app_conforming (switch_session_egress a cx i mode)" "keeps app_conforming (burn_controller_session a cx i)"
    "keeps app_conforming (watchdog_tick a)"
proof -
  note r = keeps_rules keeps_pairing keeps_session_ops keeps_require keeps_burn_and_rotate [OF assms]
  show "keeps app_conforming (start_session a cx u)" "keeps app_conforming (navigate_session a cx i cmd)"
    "keeps app_conforming (switch_session_egress a cx i mode)" "keeps app_conforming (burn_controller_session a cx i)"
    unfolding start_session_def navigate_session_def switch_session_egress_def burn_controller_session_def assms
    by (intro r)+
  show "keeps app_conforming (watchdog_tick a)"
    unfolding watchdog_tick_def recover_expired_auth_def auto_burn_if_due_def Let_def assms
    by (auto intro!: r)
qed

lemma client_call_conforming:
  assumes "as_sessions a = m" and "app_conforming s" and "client_call c \<or> c = WatchdogTick"
  shows "app_conforming (app_exec a c s)"
  using assms(3) by (cases c)
    (simp_all add: keepsD [OF keeps_pairing(1) assms(2)] keepsD [OF keeps_pairing(2) assms(2)]
      keepsD [OF keeps_pairing(3) assms(2)] keepsD [OF keeps_pairing(4) assms(2)]
      keeps_daemon_calls [OF assms(1), THEN keepsD, OF assms(2)] keeps_session_ops [THEN keepsD, OF assms(2)])

lemma client_calls_conforming:
  "as_sessions a = m \<Longrightarrow> app_conforming s \<Longrightarrow> list_all client_call cs \<Longrightarrow> app_conforming (fold (app_exec a) cs s)"
  by (induction cs arbitrary: s) (simp_all add: client_call_conforming)

lemma handle_conforming:
  assumes "as_sessions (ai_state a) = m" and "app_conforming s"
  shows "app_conforming (snd (handle a head rq s))"
  using handle_as_calls [of a head rq] client_calls_conforming [OF assms] by (auto simp: as_calls_def dest: spec [of _ s])

lemma socket_conforming:
  assumes "app_conforming (wh_app s)"
  shows "app_conforming (wh_app (snd (authorize_websocket a js delay r sid purpose s)))"
proof -
  have "ap_sess (wh_app (snd (authorize_websocket a js delay r sid purpose s))) = ap_sess (wh_app s)"
    using wpD [OF authorize_keeps_session prod.collapse [symmetric]] by blast
  then show ?thesis using assms by (simp add: app_conforming_def)
qed

lemma bring_up_conforming:
  assumes "as_sessions a = m" and "conforming (session_new m h)" and "bring_up a insecure h = Inr s"
  shows "app_conforming s"
proof -
  let ?boot = "and_then (with_auth (rotate_pairing (as_auth a))) (\<lambda>pairing.
     with_auth (mach_op (write_pairing_file pairing (as_pairing_file a) (as_public_base_url a))))"
  let ?s0 = "\<lparr>ap_sess = session_new (as_sessions a) h, ap_auth = auth_state_new\<rparr>"
  have run: "?boot ?s0 = (Inr (), s)"
    using assms(3) by (auto simp: bring_up_def Let_def split: sum.splits prod.splits)
  have "keeps app_conforming ?boot" by (rule keeps_and_then) (rule keeps_pairing)+
  moreover have "app_conforming ?s0" using assms(1,2) by (simp add: app_conforming_def)
  ultimately show ?thesis by (rule keepsD2) (rule run)
qed

end

section \<open>Serving\<close>

text \<open>What can happen to a serving daemon, the first frame of a socket included.\<close>

datatype 'b happening =
    Request request_head api_request
  | SocketFrame json_codec nat "message received option" uuid ticket_purpose "message sink"
  | WatchdogTurn
  | Elapse "'b machine"

fun happen :: "'b api \<Rightarrow> 'b happening \<Rightarrow> 'b app \<Rightarrow> 'b app" where
  "happen a (Request head rq) s = snd (handle a head rq s)"
| "happen a (SocketFrame js delay r sid purpose k) s =
     wh_app (snd (authorize_websocket a js delay r sid purpose \<lparr>wh_app = s, wh_sink = k\<rparr>))"
| "happen a WatchdogTurn s = snd (watchdog_tick (ai_state a) s)"
| "happen a (Elapse h) s = s\<lparr>ap_sess := (ap_sess s)\<lparr>ss_mach := h\<rparr>\<rparr>"

primrec served :: "'b api \<Rightarrow> 'b happening list \<Rightarrow> 'b app \<Rightarrow> 'b app" where
  "served a [] s = s"
| "served a (x # xs) s = served a xs (happen a x s)"

text \<open>Between requests the helpers change only as \<open>drift\<close> allows.\<close>

primrec drifts :: "('b \<Rightarrow> 'b \<Rightarrow> bool) \<Rightarrow> 'b api \<Rightarrow> 'b happening list \<Rightarrow> 'b app \<Rightarrow> bool" where
  "drifts drift a [] s = True"
| "drifts drift a (x # xs) s =
     ((case x of Elapse h \<Rightarrow> drift (m_helpers (ss_mach (ap_sess s))) (m_helpers h) | _ \<Rightarrow> True) \<and>
      drifts drift a xs (happen a x s))"

context backend_pair begin

lemma happen_conforming:
  assumes "as_sessions (ai_state a) = m" and "app_conforming s"
    and "\<And>h. x = Elapse h \<Longrightarrow> harmless (m_helpers (ss_mach (ap_sess s))) (m_helpers h)"
  shows "app_conforming (happen a x s)"
proof (cases x)
  case (Request head rq)
  with handle_conforming [OF assms(1,2)] show ?thesis by simp
next
  case (SocketFrame js delay r sid purpose k)
  with socket_conforming [of "\<lparr>wh_app = s, wh_sink = k\<rparr>"] assms(2) show ?thesis by simp
next
  case WatchdogTurn
  with client_call_conforming [OF assms(1,2), of WatchdogTick] show ?thesis by simp
next
  case (Elapse h)
  with machine_conforming [of "ap_sess s" h] assms(2,3) show ?thesis by (simp add: app_conforming_def)
qed

lemma served_conforming:
  assumes "as_sessions (ai_state a) = m" and "\<And>b b'. invar b \<Longrightarrow> drift b b' \<Longrightarrow> harmless b b'"
  shows "app_conforming s \<Longrightarrow> drifts drift a xs s \<Longrightarrow> app_conforming (served a xs s)"
proof (induction xs arbitrary: s)
  case (Cons x xs)
  have "invar (m_helpers (ss_mach (ap_sess s)))" using Cons.prems(1) by (simp add: app_conforming_def conforming_def)
  then have "app_conforming (happen a x s)"
    using Cons.prems(2) assms(2) by (intro happen_conforming [OF assms(1) Cons.prems(1)]) simp
  with Cons show ?case by simp
qed simp

end

section \<open>A production daemon\<close>

text \<open>An environment whose socket clients are those of theory Clients.\<close>

definition real_backends :: "helpers environment \<Rightarrow> links \<Rightarrow> bool" where
  "real_backends env lk \<longleftrightarrow> (\<forall>p n. be_socket_browser (en_backends env) p n = socket_browser lk \<and>
     be_socket_egress (en_backends env) p n = socket_egress lk)"

lemma production_manager:
  assumes "real_backends env lk" and "bc_enabled (cf_browser c)" and "nw_enabled (cf_network c)"
  shows "\<exists>dir egress profile secs. wire_sessions env c bl = real_manager lk dir egress profile secs bl"
  using assms by (auto simp: wire_sessions_def real_manager_def real_backends_def)

context deployment begin

lemma served_conforms:
  assumes "as_sessions (ai_state a) = real_manager lk dir egress profile secs bl"
    and "bring_up (ai_state a) insecure h = Inr s0"
    and "net_reachable (lk_net lk) (hp_net (m_helpers h))"
    and "bw_pipeline (hp_browser (m_helpers h)) = pipeline_default"
    and "drifts helpers_drift a xs s0"
  shows "real.conforming (ap_sess (served a xs s0))"
proof -
  have "real.app_conforming s0"
    by (rule real.bring_up_conforming [OF assms(1) fresh_conforming [OF assms(3,4)] assms(2)])
  from real.served_conforming [OF assms(1) drift_harmless this assms(5)] show ?thesis
    by (simp add: real.app_conforming_def)
qed

end

section \<open>Example values\<close>

definition real_demo_backends :: "helpers backends" where
  "real_demo_backends = \<lparr>be_socket_browser = (\<lambda>_ _. socket_browser demo_links), be_mock_browser = socket_browser demo_links,
     be_socket_egress = (\<lambda>_ _. socket_egress demo_links), be_mock_egress = socket_egress demo_links\<rparr>"

definition production_environment :: "helpers environment" where
  "production_environment = \<lparr>en_backends = real_demo_backends, en_toml = (\<lambda>_. Inr installed_config),
     en_toml_text = (\<lambda>_. Inr ''t''), en_parse_url = demo_parse_url, en_readers = demo_readers, en_fst = plain_fst,
     en_crypto = demo_crypto, en_floats = \<lparr>fl_parse = (\<lambda>_. None), fl_per_thousand = (\<lambda>x. x)\<rparr>,
     en_versions = versions_default ''0.1.0'' None None None, en_manifest_dir = ''/src'', en_tls = (\<lambda>_ _. Inr ())\<rparr>"

definition production_machine :: "net_world \<Rightarrow> helpers machine" where
  "production_machine w = \<lparr>m_instant = 0, m_utc = 0, m_random = (\<lambda>_. Some [7]), m_draws = 0, m_uuid = (\<lambda>n. 0),
     m_uuids = 0, m_fs = [([Normal ''c''], FileNode ''c''),
       (components (bl_fst_path default_blocklist), FileNode (mark_key ''a.b''))],
     m_fault = (\<lambda>_. None), m_helpers = demo_helpers w\<rparr>"

lemma production_paths: "components (bl_fst_path default_blocklist) =
    [RootDir, Normal ''var'', Normal ''lib'', Normal ''xanhtab'', Normal ''blocklist.fst'']"
  by (simp add: default_blocklist_def components_def is_absolute_def Let_def List.map_filter_def)

lemma production_publishes:
  assumes "m_fault h = (\<lambda>_. None)" and "m_fs h = m_fs (production_machine w)"
  shows "\<exists>h'. write_pairing_file pm ''/run/xanhtab/pairing.txt'' u h = (Inr (), h')"
proof -
  have x: "with_extension ''tmp'' [RootDir, Normal ''run'', Normal ''xanhtab'', Normal ''pairing.txt''] =
      [RootDir, Normal ''run'', Normal ''xanhtab'', Normal ''pairing.tmp'']"
    by (simp add: with_extension_def file_stem_def rsplit_once_def)
  have pc: "parent_components ''/run/xanhtab/pairing.txt'' = Some [RootDir, Normal ''run'', Normal ''xanhtab'']"
    by (simp add: parent_components_def parent_of_def demo_config_paths)
  show ?thesis
    by (simp add: write_pairing_file_def Let_def demo_config_paths x pc and_then_def fs_op_defs create_dir_all_def
        assms production_machine_def production_paths prefixes_def fs_node_def fs_put_def)
qed

lemma production_config: "with_static_dir production_environment installed_config = installed_config"
  "cf_blocklist installed_config = default_blocklist" "\<not> sv_allow_insecure_http (cf_server installed_config)"
  "sc_pairing_file (cf_session installed_config) = ''/run/xanhtab/pairing.txt''"
  by (simp_all add: with_static_dir_def resolve_static_dir_def installed_config_def default_config_def
      default_session_def is_absolute_def)

lemma production_up:
  "\<exists>t s h'. main_run production_environment demo_arguments (production_machine w) =
     (Inr (Serving t (wire_api production_environment installed_config (Some (list_fst [''a.b'']))) s), h')"
proof -
  let ?h = "production_machine w" and ?bl = "Some (list_fst [''a.b''])"
  have l: "load_config production_environment ''c'' ?h = (Inr installed_config, ?h)"
  proof -
    have "wp (load_config production_environment ''c'') (\<lambda>r h'. r = Inr installed_config \<and> h' = ?h) ?h"
      by (simp add: load_config_def read_to_string_def wp_rules demo_names production_machine_def fs_target_def fs_node_def
          production_environment_def installed_config_valid)
    then show ?thesis by (auto simp: wp_def split: prod.splits)
  qed
  have b: "blocklist_open plain_fst (components (bl_fst_path default_blocklist)) ?h = (Inr ?bl, ?h)"
  proof -
    have "wp (blocklist_open plain_fst (components (bl_fst_path default_blocklist))) (\<lambda>r h'. r = Inr ?bl \<and> h' = ?h) ?h"
      by (simp add: blocklist_open_def open_fst_def wp_rules production_machine_def production_paths fs_target_def fs_node_def
          plain_fst_def list_fst_def mark_key_def)
    then show ?thesis by (auto simp: wp_def split: prod.splits)
  qed
  have "\<exists>s h'. boot (wire_state production_environment installed_config ?bl) ?h = (Inr s, h')"
  proof (rule boot_succeeds)
    show "m_random ?h (m_draws ?h) = Some [7]" by (simp add: production_machine_def)
    have f: "as_pairing_file (wire_state production_environment installed_config ?bl) = ''/run/xanhtab/pairing.txt''"
      by (simp add: wire_state_def production_config)
    show "\<exists>h'. write_pairing_file pm (as_pairing_file (wire_state production_environment installed_config ?bl)) u
        (?h\<lparr>m_draws := Suc (m_draws ?h)\<rparr>) = (Inr (), h')" for pm u
      unfolding f by (rule production_publishes) (simp_all add: production_machine_def)
  qed
  then obtain s h' where "boot (wire_state production_environment installed_config ?bl) ?h = (Inr s, h')" by blast
  moreover obtain t where "transport_of production_environment (cf_server installed_config) = Inr t"
    by (auto simp: transport_of_def production_environment_def installed_config_def)
  moreover have "en_fst production_environment = plain_fst" by (simp add: production_environment_def)
  ultimately show ?thesis
    using l b by (auto simp: main_run_def demo_arguments_def and_then_def serve_def Let_def production_config
        ensure_runtime_blocklist_def blocklist_is_empty_def blocklist_len_def list_fst_def from_result_def ret_def)
qed

section \<open>The property\<close>

text \<open>
  The program as a whole, in production: \<open>main\<close> has come up against its two helpers, and then
  anything happens: requests by anybody, socket frames, turns of the watchdog, failing or timed-out
  exchanges, ending browsers, restarts of the browser helper. While the session is active, the
  firewall table holds the complete policy of the mode the session shows and lets out exactly that;
  the browser, if one runs, uses that mode's proxy or, after its helper lost a command, none; and
  while the session is idle no browser runs.
\<close>

theorem production_daemon_confines_its_browser:
  assumes "\<not> nd_dry_run (lk_net lk)" and "\<not> ba_dry_run (lk_browser lk)"
    and "\<And>r. nd_parse_request (lk_net lk) (lk_encode_request lk r) = Some r"
    and "net_reachable (lk_net lk) (hp_net (m_helpers h))"
    and "bw_pipeline (hp_browser (m_helpers h)) = pipeline_default"
    and "main_run env args h = (Inr (Serving t a s0), h')" and "real_backends env lk"
    and "\<not> sv_allow_insecure_http (cf_server (ai_config a))"
    and "drifts helpers_drift a xs s0" and "s = served a xs s0"
    and "b = m_helpers (ss_mach (ap_sess s))" and "n = sd_snapshot (ss_data (ap_sess s))"
  shows "(sn_phase n = Active \<longrightarrow>
      (\<exists>e. in_force (lk_net lk) (Some (sn_egress n)) e (hp_net b) \<and> (readable_endpoint e \<longrightarrow>
        (\<forall>p. table_lets_out (hp_net b) p =
           lets_out (nw_browser_uid (nd_config (lk_net lk))) (Some (sn_egress n)) e p))) \<and>
      (\<forall>ch. pl_child (bw_pipeline (hp_browser b)) = Some ch \<longrightarrow>
        proxy_matches (lk_browser lk) (sn_egress n) (ch_proxy ch) \<or> ch_proxy ch = None)) \<and>
    (sn_phase n = Idle \<longrightarrow> pl_child (bw_pipeline (hp_browser b)) = None)"
proof -
  have d: "deployment lk" using assms(1-3) by unfold_locales
  obtain c bl where c: "validate_config (en_parse_url env) c = Inr ()" "a = wire_api env c bl"
    and up: "bring_up (wire_state env c bl) (sv_allow_insecure_http (cf_server c)) h = Inr s0"
    using serving_from [OF assms(6)] by blast
  obtain u os where "check_mode c u os = Inr ()" using c(1) by (auto simp: validate_config_ok)
  then have "bc_enabled (cf_browser c)" "nw_enabled (cf_network c)"
    using assms(8) c(2) by (auto simp: check_mode_def wire_api_def)
  from production_manager [OF assms(7) this] obtain dir egress profile secs
    where "wire_sessions env c bl = real_manager lk dir egress profile secs bl" by blast
  then have m: "as_sessions (ai_state a) = real_manager lk dir egress profile secs bl"
    and up': "bring_up (ai_state a) (sv_allow_insecure_http (cf_server c)) h = Inr s0"
    using c(2) up by (simp_all add: wire_state_def wire_api_def)
  show ?thesis
    by (rule deployment.conforming_confines [OF d deployment.served_conforms [OF d m up' assms(4,5,9)]])
      (simp_all add: assms(10-12))
qed

theorem production_daemon_confines_its_browser_witness:
  "\<exists>w t a s0 h'. main_run production_environment demo_arguments (production_machine w) = (Inr (Serving t a s0), h') \<and>
     (let s = served a [Request no_head GetStatus, WatchdogTurn] s0
      in sn_phase (sd_snapshot (ss_data (ap_sess s))) = Idle \<longrightarrow>
         pl_child (bw_pipeline (hp_browser (m_helpers (ss_mach (ap_sess s))))) = None)"
proof -
  obtain w where w: "net_reachable (lk_net demo_links) w" using any_helper_up by blast
  obtain t s0 h' where up: "main_run production_environment demo_arguments (production_machine w) =
     (Inr (Serving t (wire_api production_environment installed_config (Some (list_fst [''a.b'']))) s0), h')"
    using production_up by blast
  let ?a = "wire_api production_environment installed_config (Some (list_fst [''a.b'']))"
  have h: "net_reachable (lk_net demo_links) (hp_net (m_helpers (production_machine w)))"
    "bw_pipeline (hp_browser (m_helpers (production_machine w))) = pipeline_default"
    using w by (simp_all add: production_machine_def demo_helpers_def demo_browser_def)
  have r: "real_backends production_environment demo_links"
    by (simp add: real_backends_def production_environment_def real_demo_backends_def)
  have i: "\<not> sv_allow_insecure_http (cf_server (ai_config ?a))" by (simp add: wire_api_def production_config)
  have "drifts helpers_drift ?a [Request no_head GetStatus, WatchdogTurn] s0" by simp
  from production_daemon_confines_its_browser [OF demo_links_live h up r i this refl refl refl] up
  show ?thesis unfolding Let_def by blast
qed

end
