(* ===== verification/HelperMains.thy ===== *)
theory HelperMains
  imports Daemon NetHelperProps BrowserHelperProps
begin

text \<open>
  The two helper programs from their parsed arguments on: \<open>main\<close> of \<open>src/bin/xanhtab-netd.rs\<close> and of
  \<open>src/bin/xanhtab-browser.rs\<close>. Each runs on a machine whose helper part is its own world (theories
  NetHelper and BrowserHelper): the file system is the machine's, what the helper commands is the world's.
  The list of connections is what \<open>accept\<close> returns, in order; \<open>clap\<close> has parsed the arguments, the log
  lines are left out.
\<close>

section \<open>Listening\<close>

text \<open>Operations on the disk and on the helper's world; an \<open>anyhow\<close> error is its text.\<close>

definition on_disk :: "('b machine, string, 'a) op \<Rightarrow> ('b machine, helper_error, 'a) op" where
  "on_disk m = map_err Failure m"

definition in_world :: "('b, helper_error, 'a) op \<Rightarrow> ('b machine, helper_error, 'a) op" where
  "in_world m h = (case m (m_helpers h) of (r, b) \<Rightarrow> (r, h\<lparr>m_helpers := b\<rparr>))"

text \<open>\<open>UnixListener::bind\<close> makes the socket's node, where nothing stands.\<close>

definition bind_socket :: "path_component list \<Rightarrow> ('b machine, string, unit) op" where
  "bind_socket p = faultable (BindSocket p) (\<lambda>s.
     if fs_node (m_fs s) p \<noteq> None then (Inl ''address in use'', s)
     else (Inr (), s\<lparr>m_fs := fs_put p (FileNode []) (m_fs s)\<rparr>))"

definition listen_on :: "path \<Rightarrow> ('b machine, string, unit) op" where
  "listen_on socket =
     (let p = components socket
      in and_then (make_parent p) (\<lambda>_.
         and_then (path_exists p) (\<lambda>there.
         and_then (if there then remove_file p else ret ()) (\<lambda>_.
         and_then (with_context (''failed to bind '' @ socket) (bind_socket p)) (\<lambda>_.
           faultable (SetPermissions p) (ret ()))))))"

section \<open>The network helper\<close>

record netd_args =
  na_config :: path
  na_dry_run :: bool
  na_check_wireguard :: "path option"
  na_check_proxy_url :: "path option"
  na_print_endpoint :: bool
  na_cleanup :: bool

record 'b netd_environment =
  ne_env :: "'b environment"
  ne_decode :: "string \<Rightarrow> u8 list option"
  ne_parse_request :: "string \<Rightarrow> egress_request option"

datatype netd_outcome =
    FilesChecked "string option"
  | NetworkCleaned
  | NetdListening net_daemon

definition netd_of :: "'b netd_environment \<Rightarrow> config \<Rightarrow> bool \<Rightarrow> net_daemon" where
  "netd_of ne c dry_run = \<lparr>nd_config = cf_network c, nd_dry_run = dry_run,
     nd_parse_url = en_parse_url (ne_env ne), nd_decode = ne_decode ne, nd_parse_request = ne_parse_request ne\<rparr>"

text \<open>The two checks, which need not be run as root; the endpoint to print, if asked for.\<close>

definition check_wireguard_file :: "net_daemon \<Rightarrow> path option \<Rightarrow> unit net_op" where
  "check_wireguard_file d path =
     (case path of
        None \<Rightarrow> ret ()
      | Some p \<Rightarrow>
          and_then secret_files_now (\<lambda>fs.
          and_then (fallible (validate_wireguard_config_file (nd_decode d) fs p None)) (\<lambda>_. ret ())))"

definition check_proxy_file :: "net_daemon \<Rightarrow> path option \<Rightarrow> bool \<Rightarrow> string option net_op" where
  "check_proxy_file d path print_endpoint =
     (case path of
        None \<Rightarrow> ret None
      | Some p \<Rightarrow>
          and_then (if print_endpoint then ret None
            else case parse_socket_addr (nw_proxy_endpoint (nd_config d)) of
                   None \<Rightarrow> raise (Failure ''invalid socket address syntax'')
                 | Some e \<Rightarrow> ret (Some e)) (\<lambda>expected.
          and_then secret_files_now (\<lambda>fs.
          and_then (fallible (validate_proxy_url_file (nd_parse_url d) fs p expected None)) (\<lambda>proxy.
            ret (if print_endpoint then Some (show_socket_addr (vp_endpoint proxy)) else None)))))"

definition netd_main :: "'b netd_environment \<Rightarrow> netd_args \<Rightarrow> (net_world machine, helper_error, netd_outcome) op" where
  "netd_main ne args =
     and_then (on_disk (load_config (ne_env ne) (na_config args))) (\<lambda>c.
     let d = netd_of ne c (na_dry_run args) in
     and_then (in_world (check_wireguard_file d (na_check_wireguard args))) (\<lambda>_.
     and_then (in_world (check_proxy_file d (na_check_proxy_url args) (na_print_endpoint args))) (\<lambda>printed.
       if na_check_wireguard args \<noteq> None \<or> na_check_proxy_url args \<noteq> None then ret (FilesChecked printed)
       else if na_cleanup args then and_then (in_world (cleanup_network d)) (\<lambda>_. ret NetworkCleaned)
       else
         and_then (in_world (initialize_network d)) (\<lambda>_.
         and_then (on_disk (listen_on (nw_netd_socket (nd_config d)))) (\<lambda>_.
         and_then (in_world (set_active None)) (\<lambda>_. ret (NetdListening d)))))))"

text \<open>
  The accept loop. Each connection is a task of its own, whose error is logged and whose panic ends
  only the task; what the list pairs is the peer's user and the line read. An error of \<open>accept\<close> ends
  the helper.
\<close>

fun netd_serve :: "net_daemon \<Rightarrow> (string + (string + u32) \<times> (string + string)) list \<Rightarrow>
    (helper_error + egress_response) list net_op" where
  "netd_serve d [] = ret []"
| "netd_serve d (Inl e # _) = raise (Failure e)"
| "netd_serve d (Inr (peer, line) # rest) =
     and_then (attempt (handle_request d peer line)) (\<lambda>answer.
     and_then (netd_serve d rest) (\<lambda>answers. ret (answer # answers)))"

section \<open>The browser helper\<close>

record bridge_args =
  ga_pipeline :: browser_args
  ga_socket :: path
  ga_stdio :: bool
  ga_timeout_ms :: u64

datatype bridge_outcome = StdinEnded | BridgeListening

definition bridge_main ::
  "bridge_args \<Rightarrow> (string + browser_command) list \<Rightarrow> (browser_world machine, helper_error, bridge_outcome) op" where
  "bridge_main args stdin =
     (let fresh_pipeline = in_world (update_pipeline (\<lambda>_. pipeline_default))
      in if ga_timeout_ms args = 0 \<or> ga_timeout_ms args > 30000
         then raise (Failure ''command timeout must be between 1 and 30000 milliseconds'')
         else if ga_stdio args
         then and_then fresh_pipeline (\<lambda>_.
              and_then (in_world (run_stdio (ga_pipeline args) stdin)) (\<lambda>_. ret StdinEnded))
         else and_then (on_disk (listen_on (ga_socket args))) (\<lambda>_.
              and_then fresh_pipeline (\<lambda>_. ret BridgeListening)))"

text \<open>
  Its loop handles a connection before it accepts the next: an error of one is logged, a panic would
  end the helper.
\<close>

definition logged :: "('s, helper_error, 'a) op \<Rightarrow> ('s, helper_error, helper_error + 'a) op" where
  "logged m s = (case m s of (Inl helper_error.Panicked, s') \<Rightarrow> (Inl helper_error.Panicked, s') | (r, s') \<Rightarrow> (Inr r, s'))"

fun bridge_serve :: "browser_args \<Rightarrow> (string + (string + (string + browser_command))) list \<Rightarrow>
    (helper_error + browser_response) list pipe_op" where
  "bridge_serve args [] = ret []"
| "bridge_serve args (Inl e # _) = raise (Failure e)"
| "bridge_serve args (Inr line # rest) =
     and_then (logged (handle_connection args line)) (\<lambda>answer.
     and_then (bridge_serve args rest) (\<lambda>answers. ret (answer # answers)))"

section \<open>Facts\<close>

lemma wp_in_world [wp_rules]:
  "wp (in_world m) Q h = wp m (\<lambda>r b. Q r (h\<lparr>m_helpers := b\<rparr>)) (m_helpers h)"
  by (simp add: in_world_def wp_def split: prod.splits)

lemma in_worldE:
  assumes "in_world m h = (r, h')"
  obtains b where "m (m_helpers h) = (r, b)" and "h' = h\<lparr>m_helpers := b\<rparr>"
  using assms by (auto simp: in_world_def split: prod.splits)

lemma wp_on_disk [wp_rules]:
  "wp (on_disk m) Q = wp m (\<lambda>r. Q (case r of Inl e \<Rightarrow> Inl (Failure e) | Inr a \<Rightarrow> Inr a))"
  by (auto simp: on_disk_def wp_map_err fun_eq_iff wp_def split: prod.splits sum.splits)

lemma on_disk_InrE:
  assumes "on_disk m h = (Inr a, h')"
  shows "m h = (Inr a, h')"
  using assms by (auto simp: on_disk_def map_err_def split: prod.splits sum.splits)

lemma listen_on_binds:
  "wp (listen_on socket) (\<lambda>r h'. m_helpers h' = m_helpers h \<and>
     (r = Inr () \<longrightarrow> fs_node (m_fs h') (components socket) = Some (FileNode []))) h"
  unfolding listen_on_def Let_def wp_and_then [of "make_parent _"]
  by (rule wp_make_parent)
    (auto simp: wp_rules bind_socket_def wp_faultable with_context_def wp_def [of "\<lambda>s. if _ s then _ s else _ s"]
      split: option.splits sum.splits fnode.splits)

text \<open>Checking files runs no command.\<close>

definition untouched :: "net_world \<Rightarrow> net_world \<Rightarrow> bool" where
  "untouched w w' \<longleftrightarrow> wd_started w' = wd_started w \<and> wd_script w' = wd_script w \<and> wd_active w' = wd_active w \<and>
     wd_run w' = wd_run w"

lemma checks_run_nothing:
  "wp (check_wireguard_file d p) (\<lambda>r w'. untouched w w') w"
  "wp (check_proxy_file d q b) (\<lambda>r w'. untouched w w') w"
  by (auto simp: check_wireguard_file_def check_proxy_file_def wp_rules secret_files_now_def fallible_def untouched_def
      wp_def [of secret_files_now] split: option.splits sum.splits)

lemma untouched_trans: "untouched u v \<Longrightarrow> untouched v w \<Longrightarrow> untouched u w"
  by (simp add: untouched_def)

lemma initialized:
  assumes "honest w" and "\<not> nd_dry_run d" and "initialize_network d w = (Inr (), w')"
  shows "in_force d None None w' \<and> honest w'"
proof -
  obtain w1 where k: "load_kill_switch d w = (Inr (), w1)"
    and t: "teardown_wireguard (nd_config d) (nd_dry_run d) w1 = (Inr (), w')"
    using assms(3) by (auto simp: initialize_network_def elim: and_then_InrE)
  show ?thesis
    using in_force_kill_switch [OF load_kill_switch_ok [OF assms(1,2) k]] in_force_script [OF teardown_script [OF t]]
      keepsD2 [OF keeps_honest(1) assms(1) k] keepsD2 [OF keeps_honest(3) _ t] by blast
qed

text \<open>The accept loops. Where every \<open>accept\<close> succeeds, each connection gets its answer or its error.\<close>

definition accepted :: "(string + 'a) list \<Rightarrow> bool" where
  "accepted conns \<longleftrightarrow> list_all (\<lambda>c. \<exists>a. c = Inr a) conns"

lemma keeps_netd_serve:
  assumes "\<And>peer line. keeps I (handle_request d peer line)"
  shows "keeps I (netd_serve d conns)"
  using assms by (induction d conns rule: netd_serve.induct) (auto intro!: keeps_rules)

lemma netd_serve_inv: "\<not> nd_dry_run d \<Longrightarrow> keeps (net_inv d) (netd_serve d conns)"
  by (rule keeps_netd_serve, rule keepsI) (rule handle_request_inv)

lemma netd_serve_answers:
  "accepted conns \<Longrightarrow> wp (netd_serve d conns) (\<lambda>r _. \<exists>answers. r = Inr answers \<and> length answers = length conns) w"
proof (induction d conns arbitrary: w rule: netd_serve.induct)
  case (3 d peer line rest w)
  then have rest: "accepted rest" by (simp add: accepted_def)
  obtain x w1 where h: "handle_request d peer line w = (x, w1)" by fastforce
  from 3(1) [OF rest, of w1] h show ?case
    by (auto simp: wp_and_then wp_attempt wp_ret_raise_eta wp_def [of "handle_request _ _ _"] elim!: wp_mono)
qed (auto simp: wp_rules accepted_def)

text \<open>The browser helper's loop survives every connection, because none panics.\<close>

lemma handle_connection_no_panic:
  assumes "pipe_inv args (bw_pipeline w)" and "handle_connection args line w = (r, w')"
  shows "r \<noteq> Inl helper_error.Panicked"
proof (cases "\<exists>command. line = Inr (Inr command)")
  case True
  then obtain command where "line = Inr (Inr command)" by blast
  with assms(2) have "run_command_within args command w = (r, w')" by (simp add: handle_connection_def)
  then show ?thesis by (rule run_command_within_spec [OF assms(1)]) simp
next
  case False
  with assms show ?thesis
    by (cases line) (auto simp: handle_connection_def raise_def ret_def split: sum.splits)
qed

lemma bridge_serve_answers:
  assumes "browser_reachable args w" and "accepted conns"
  shows "wp (bridge_serve args conns) (\<lambda>r w'. browser_reachable args w' \<and>
    (\<exists>answers. r = Inr answers \<and> length answers = length conns)) w"
  using assms
proof (induction args conns arbitrary: w rule: bridge_serve.induct)
  case (3 args line rest w)
  obtain r w1 where h: "handle_connection args line w = (r, w1)" by fastforce
  have "r \<noteq> Inl helper_error.Panicked"
    using handle_connection_no_panic [OF browser_reachable_inv [OF 3(2)] h] .
  with h have l: "logged (handle_connection args line) w = (Inr r, w1)"
    by (auto simp: logged_def split: sum.splits helper_error.splits)
  have "browser_reachable args w1" by (rule connection [OF 3(2) h])
  moreover have "accepted rest" using 3(3) by (simp add: accepted_def)
  ultimately have "wp (bridge_serve args rest) (\<lambda>r w'. browser_reachable args w' \<and>
      (\<exists>answers. r = Inr answers \<and> length answers = length rest)) w1" by (rule 3(1))
  with l show ?case
    by (auto simp: wp_and_then wp_ret wp_def [of "logged _"] elim!: wp_mono)
qed (auto simp: wp_rules accepted_def)

text \<open>The ways through \<open>main\<close> of the network helper.\<close>

lemma netd_main_cases:
  assumes "netd_main ne args h = (Inr outcome, h')"
  obtains c h1 d w1 where "load_config (ne_env ne) (na_config args) h = (Inr c, h1)"
    and "d = netd_of ne c (na_dry_run args)" and "untouched (m_helpers h1) w1"
    and "(case outcome of
        FilesChecked _ \<Rightarrow> (na_check_wireguard args \<noteq> None \<or> na_check_proxy_url args \<noteq> None) \<and> h' = h1\<lparr>m_helpers := w1\<rparr>
      | NetworkCleaned \<Rightarrow> \<exists>w2. cleanup_network d w1 = (Inr (), w2) \<and> h' = h1\<lparr>m_helpers := w2\<rparr>
      | NetdListening d' \<Rightarrow> d' = d \<and> (\<exists>w2 h2. initialize_network d w1 = (Inr (), w2) \<and>
          listen_on (nw_netd_socket (nd_config d)) (h1\<lparr>m_helpers := w2\<rparr>) = (Inr (), h2) \<and>
          h' = h2\<lparr>m_helpers := (m_helpers h2)\<lparr>wd_active := None\<rparr>\<rparr>))"
proof -
  obtain c h1 where l: "load_config (ne_env ne) (na_config args) h = (Inr c, h1)"
    and r1: "(let d = netd_of ne c (na_dry_run args) in
     and_then (in_world (check_wireguard_file d (na_check_wireguard args))) (\<lambda>_.
     and_then (in_world (check_proxy_file d (na_check_proxy_url args) (na_print_endpoint args))) (\<lambda>printed.
       if na_check_wireguard args \<noteq> None \<or> na_check_proxy_url args \<noteq> None then ret (FilesChecked printed)
       else if na_cleanup args then and_then (in_world (cleanup_network d)) (\<lambda>_. ret NetworkCleaned)
       else
         and_then (in_world (initialize_network d)) (\<lambda>_.
         and_then (on_disk (listen_on (nw_netd_socket (nd_config d)))) (\<lambda>_.
         and_then (in_world (set_active None)) (\<lambda>_. ret (NetdListening d))))))) h1 = (Inr outcome, h')"
    using assms unfolding netd_main_def by (auto elim!: and_then_InrE dest!: on_disk_InrE)
  let ?d = "netd_of ne c (na_dry_run args)"
  obtain v w1 printed where c1: "check_wireguard_file ?d (na_check_wireguard args) (m_helpers h1) = (Inr (), v)"
    and c2: "check_proxy_file ?d (na_check_proxy_url args) (na_print_endpoint args) v = (Inr printed, w1)"
    and r2: "(if na_check_wireguard args \<noteq> None \<or> na_check_proxy_url args \<noteq> None then ret (FilesChecked printed)
       else if na_cleanup args then and_then (in_world (cleanup_network ?d)) (\<lambda>_. ret NetworkCleaned)
       else
         and_then (in_world (initialize_network ?d)) (\<lambda>_.
         and_then (on_disk (listen_on (nw_netd_socket (nd_config ?d)))) (\<lambda>_.
         and_then (in_world (set_active None)) (\<lambda>_. ret (NetdListening ?d))))) (h1\<lparr>m_helpers := w1\<rparr>) = (Inr outcome, h')"
    using r1 unfolding Let_def by (auto elim!: and_then_InrE in_worldE)
  have u: "untouched (m_helpers h1) w1"
    using untouched_trans [OF wpD [OF checks_run_nothing(1) c1] wpD [OF checks_run_nothing(2) c2]] .
  show thesis
    by (rule that [OF l refl u])
      (use r2 in \<open>auto simp: ret_def set_active_def modify_def split: if_splits elim!: and_then_InrE in_worldE
        dest!: on_disk_InrE\<close>)
qed

text \<open>A helper that listens is one the reachability relations start from.\<close>

lemma netd_listening:
  assumes "netd_main ne args h = (Inr (NetdListening d), h')"
  obtains c w1 w2 h2 where "validate_config (en_parse_url (ne_env ne)) c = Inr ()"
    and "d = netd_of ne c (na_dry_run args)" and "untouched (m_helpers h) w1"
    and "initialize_network d w1 = (Inr (), w2)" and "m_helpers h' = w2\<lparr>wd_active := None\<rparr>"
    and "fs_node (m_fs h') (components (nw_netd_socket (nd_config d))) = Some (FileNode [])"
proof -
  obtain c h1 w1 w2 h2 where l: "load_config (ne_env ne) (na_config args) h = (Inr c, h1)"
    and d: "d = netd_of ne c (na_dry_run args)" and u: "untouched (m_helpers h1) w1"
    and i: "initialize_network d w1 = (Inr (), w2)"
    and b: "listen_on (nw_netd_socket (nd_config d)) (h1\<lparr>m_helpers := w2\<rparr>) = (Inr (), h2)"
    and h': "h' = h2\<lparr>m_helpers := (m_helpers h2)\<lparr>wd_active := None\<rparr>\<rparr>"
    by (rule netd_main_cases [OF assms]) auto
  show thesis
    by (rule that [OF _ d _ i]) (use wpD [OF load_config_reads l] wpD [OF listen_on_binds b] u h' in auto)
qed

lemma netd_listening_reachable:
  assumes "netd_main ne args h = (Inr (NetdListening d), h')"
    and "honest (m_helpers h)" and "wd_active (m_helpers h) = None"
  shows "net_reachable d (m_helpers h')"
proof -
  obtain c w1 w2 where u: "untouched (m_helpers h) w1" and i: "initialize_network d w1 = (Inr (), w2)"
    and h': "m_helpers h' = w2\<lparr>wd_active := None\<rparr>"
    by (rule netd_listening [OF assms(1)])
  have w1: "honest w1" "wd_active w1 = None" using assms(2,3) u by (simp_all add: untouched_def honest_def)
  obtain v where k: "load_kill_switch d w1 = (Inr (), v)"
    and t: "teardown_wireguard (nd_config d) (nd_dry_run d) v = (Inr (), w2)"
    using i by (auto simp: initialize_network_def elim: and_then_InrE)
  have "wd_active w2 = None" using active_unchanged(1) [OF k] active_unchanged(3) [OF t] w1(2) by simp
  then have "m_helpers h' = w2" using h' by simp
  with net_reachable.up [OF w1 i] show ?thesis by simp
qed

lemma bridge_listening:
  assumes "bridge_main args stdin h = (Inr BridgeListening, h')"
  shows "bw_pipeline (m_helpers h') = pipeline_default \<and> 1 \<le> ga_timeout_ms args \<and> ga_timeout_ms args \<le> 30000 \<and>
    fs_node (m_fs h') (components (ga_socket args)) = Some (FileNode [])"
proof -
  have t: "\<not> (ga_timeout_ms args = 0 \<or> ga_timeout_ms args > 30000)" and m: "\<not> ga_stdio args"
    using assms by (auto simp: bridge_main_def Let_def raise_def ret_def split: if_splits elim!: and_then_InrE)
  then obtain h1 where l: "listen_on (ga_socket args) h = (Inr (), h1)"
    and h': "h' = h1\<lparr>m_helpers := (m_helpers h1)\<lparr>bw_pipeline := pipeline_default\<rparr>\<rparr>"
    using assms by (auto simp: bridge_main_def Let_def ret_def update_pipeline_def modify_def elim!: and_then_InrE in_worldE
        dest!: on_disk_InrE)
  have "1 \<le> ga_timeout_ms args" "ga_timeout_ms args \<le> 30000"
    using t by (simp_all add: linorder_not_less unat_gt_0 Suc_le_eq word_le_nat_alt word_less_nat_alt)
  with wpD [OF listen_on_binds l] h' show ?thesis by simp
qed

section \<open>Properties\<close>

text \<open>
  C11. The network helper serves behind its own firewall: \<open>main\<close> listens, on a socket it made itself, only once
  its configuration validates and the kill-switch is in force, and whatever connections it accepts from
  then on, every one gets an answer or is closed with an error, and the table always holds one complete
  policy, and no other mode is recorded as active than the one in force.
\<close>

theorem netd_serves_behind_its_firewall:
  assumes "honest (m_helpers h)" and "\<not> na_dry_run args"
    and "netd_main ne args h = (Inr (NetdListening d), h')"
  shows "fs_node (m_fs h') (components (nw_netd_socket (nd_config d))) = Some (FileNode []) \<and>
    in_force d None None (m_helpers h') \<and>
    (\<exists>c. validate_config (en_parse_url (ne_env ne)) c = Inr () \<and> nd_config d = cf_network c) \<and>
    wp (netd_serve d conns) (\<lambda>r w. (\<exists>mode e. in_force d mode e w \<and> (wd_active w = None \<or> wd_active w = mode)) \<and>
      (accepted conns \<longrightarrow> (\<exists>answers. r = Inr answers \<and> length answers = length conns))) (m_helpers h')"
proof -
  obtain c w1 w2 where c: "validate_config (en_parse_url (ne_env ne)) c = Inr ()" "d = netd_of ne c (na_dry_run args)"
    and u: "untouched (m_helpers h) w1" and i: "initialize_network d w1 = (Inr (), w2)"
    and h': "m_helpers h' = w2\<lparr>wd_active := None\<rparr>"
    and s: "fs_node (m_fs h') (components (nw_netd_socket (nd_config d))) = Some (FileNode [])"
    by (rule netd_listening [OF assms(3)])
  have wet: "\<not> nd_dry_run d" using assms(2) c(2) by (simp add: netd_of_def)
  have "honest w1" using assms(1) u by (simp add: untouched_def honest_def)
  note up = initialized [OF this wet i]
  have f: "in_force d None None (m_helpers h')" using up h' by (simp add: in_force_def)
  have inv: "net_inv d (m_helpers h')"
    unfolding net_inv_def using up f h' by (auto simp: honest_def)
  have "wp (netd_serve d conns) (\<lambda>r w. net_inv d w) (m_helpers h')"
    by (rule wpI) (rule keepsD2 [OF netd_serve_inv [OF wet] inv])
  then have "wp (netd_serve d conns) (\<lambda>r w. (\<exists>mode e. in_force d mode e w \<and> (wd_active w = None \<or> wd_active w = mode)) \<and>
      (accepted conns \<longrightarrow> (\<exists>answers. r = Inr answers \<and> length answers = length conns))) (m_helpers h')"
    using netd_serve_answers [of conns d "m_helpers h'"] by (auto simp: wp_def net_inv_def split: prod.splits)
  with f s c show ?thesis by (auto simp: netd_of_def)
qed

text \<open>
  The commands that only check secret files touch nothing: whatever the configuration and the files, no
  program is run, the firewall and the disk are as they were.
\<close>

theorem netd_checks_touch_nothing:
  assumes "na_check_wireguard args \<noteq> None \<or> na_check_proxy_url args \<noteq> None"
    and "netd_main ne args h = (r, h')"
  shows "m_fs h' = m_fs h \<and> wd_started (m_helpers h') = wd_started (m_helpers h) \<and>
    wd_script (m_helpers h') = wd_script (m_helpers h) \<and>
    (case r of Inr outcome \<Rightarrow> \<exists>printed. outcome = FilesChecked printed | Inl _ \<Rightarrow> True)"
proof -
  have c: "wp (and_then (in_world (check_wireguard_file d a)) (\<lambda>_.
      and_then (in_world (check_proxy_file d b e)) (\<lambda>printed. ret (FilesChecked printed))))
    (\<lambda>r h'. m_fs h' = m_fs h \<and> untouched (m_helpers h) (m_helpers h') \<and>
      (case r of Inr outcome \<Rightarrow> \<exists>printed. outcome = FilesChecked printed | Inl _ \<Rightarrow> True)) h" for d a b e
    unfolding wp_and_then wp_in_world
    by (rule wp_mono [OF checks_run_nothing(1)], simp split: sum.splits, intro allI impI conjI,
        rule wp_mono [OF checks_run_nothing(2)])
      (auto simp: wp_ret untouched_def split: sum.splits)
  have "wp (netd_main ne args) (\<lambda>r h'. m_fs h' = m_fs h \<and> untouched (m_helpers h) (m_helpers h') \<and>
      (case r of Inr outcome \<Rightarrow> \<exists>printed. outcome = FilesChecked printed | Inl _ \<Rightarrow> True)) h"
    unfolding netd_main_def Let_def wp_and_then [of "on_disk (load_config _ _)"] wp_on_disk
    by (rule wp_mono [OF load_config_reads]) (use assms(1) c in \<open>auto simp: untouched_def split: sum.splits\<close>)
  from wpD [OF this assms(2)] show ?thesis by (simp add: untouched_def)
qed

text \<open>
  C12. The browser helper that listens answers: whatever is sent to it, each accepted connection gets an answer
  or is closed with an error, none ends the loop, and the state stays one that connections to a fresh
  helper can reach, which is what the theorems of BrowserHelperProps are about.
\<close>

theorem bridge_answers_every_connection:
  assumes "bridge_main args stdin h = (Inr BridgeListening, h')" and "accepted conns"
    and "bridge_serve (ga_pipeline args) conns (m_helpers h') = (r, w)"
  shows "fs_node (m_fs h') (components (ga_socket args)) = Some (FileNode []) \<and>
    1 \<le> ga_timeout_ms args \<and> ga_timeout_ms args \<le> 30000 \<and>
    browser_reachable (ga_pipeline args) w \<and> (\<exists>answers. r = Inr answers \<and> length answers = length conns)"
proof -
  note up = bridge_listening [OF assms(1)]
  then have "browser_reachable (ga_pipeline args) (m_helpers h')" by (intro fresh) simp
  from wpD [OF bridge_serve_answers [OF this assms(2)] assms(3)] up show ?thesis by simp
qed

section \<open>Witnesses\<close>

text \<open>A machine whose configuration file is the one of theory Daemon's example, with some helper world.\<close>

definition helper_machine :: "'b \<Rightarrow> 'b machine" where
  "helper_machine b = \<lparr>m_instant = 0, m_utc = 0, m_random = (\<lambda>_. None), m_draws = 0, m_uuid = (\<lambda>n. 0), m_uuids = 0,
     m_fs = [([Normal ''c''], FileNode ''c'')], m_fault = (\<lambda>_. None), m_helpers = b\<rparr>"

definition demo_netd_environment :: "unit netd_environment" where
  "demo_netd_environment = \<lparr>ne_env = demo_environment, ne_decode = (\<lambda>_. None), ne_parse_request = (\<lambda>_. None)\<rparr>"

definition demo_netd_args :: netd_args where
  "demo_netd_args = \<lparr>na_config = ''c'', na_dry_run = False, na_check_wireguard = None, na_check_proxy_url = None,
     na_print_endpoint = False, na_cleanup = False\<rparr>"

definition demo_bridge_args :: bridge_args where
  "demo_bridge_args = \<lparr>ga_pipeline = demo_args, ga_socket = ''s'', ga_stdio = False, ga_timeout_ms = 1500\<rparr>"

lemma demo_loaded: "load_config demo_environment ''c'' (helper_machine b) = (Inr default_config, helper_machine b)"
proof -
  have "wp (load_config demo_environment ''c'') (\<lambda>r h'. r = Inr default_config \<and> h' = helper_machine b) (helper_machine b)"
    by (simp add: load_config_def read_to_string_def wp_rules demo_names helper_machine_def fs_target_def fs_node_def
        demo_environment_def default_config_valid)
  then show ?thesis by (auto simp: wp_def split: prod.splits)
qed

lemma demo_sockets:
  "components ''/run/xanhtab/netd.sock'' = [RootDir, Normal ''run'', Normal ''xanhtab'', Normal ''netd.sock'']"
  "components ''s'' = [Normal ''s'']"
  by (simp_all add: components_def is_absolute_def Let_def List.map_filter_def)

lemma demo_listens:
  assumes "m_fault h = (\<lambda>_. None)" and "m_fs h = [([Normal ''c''], FileNode ''c'')]" and "s \<in> {''/run/xanhtab/netd.sock'', ''s''}"
  shows "\<exists>h'. listen_on s h = (Inr (), h')"
  using assms
  by (auto simp: listen_on_def Let_def demo_sockets make_parent_def parent_of_def and_then_def fs_op_defs create_dir_all_def
      path_exists_def gets_def bind_socket_def with_context_def map_err_def fs_target_def prefixes_def fs_node_def fs_put_def)

lemma netd_comes_up:
  assumes "load_config (ne_env ne) ''c'' (helper_machine demo_world) = (Inr c, helper_machine demo_world)"
    and "nw_netd_socket (cf_network c) = ''/run/xanhtab/netd.sock''"
  shows "\<exists>h'. netd_main ne demo_netd_args (helper_machine demo_world) = (Inr (NetdListening (netd_of ne c False)), h')"
proof -
  let ?d = "netd_of ne c False"
  obtain w1 where k: "load_kill_switch ?d demo_world = (Inr (), w1)" "fine w1"
    using succeeds_load_kill_switch [of ?d] fine_demo by (auto simp: succeeds_def)
  then obtain w2 where t: "teardown_wireguard (nd_config ?d) (nd_dry_run ?d) w1 = (Inr (), w2)"
    using succeeds_teardown [of "nd_config ?d" "nd_dry_run ?d"] by (auto simp: succeeds_def)
  have i: "initialize_network ?d demo_world = (Inr (), w2)" using k t by (simp add: initialize_network_def and_then_def)
  have n: "nw_netd_socket (nd_config ?d) = ''/run/xanhtab/netd.sock''" using assms(2) by (simp add: netd_of_def)
  obtain h2 where l: "listen_on ''/run/xanhtab/netd.sock'' (helper_machine w2) = (Inr (), h2)"
    using demo_listens [of "helper_machine w2"] by (auto simp: helper_machine_def)
  have w: "helper_machine a\<lparr>m_helpers := b\<rparr> = helper_machine b" "m_helpers (helper_machine b) = b" for a b
    by (simp_all add: helper_machine_def)
  show ?thesis
    using i l n
    by (simp add: netd_main_def demo_netd_args_def and_then_def on_disk_def map_err_def assms(1) in_world_def w
        check_wireguard_file_def check_proxy_file_def ret_def set_active_def modify_def Let_def)
qed

lemma bridge_comes_up:
  "\<exists>h'. bridge_main demo_bridge_args [] (helper_machine w) = (Inr BridgeListening, h') \<and>
     m_helpers h' = w\<lparr>bw_pipeline := pipeline_default\<rparr>"
proof -
  obtain h1 where l: "listen_on ''s'' (helper_machine w) = (Inr (), h1)"
    using demo_listens [of "helper_machine w"] by (auto simp: helper_machine_def)
  then have "m_helpers h1 = w" using wpD [OF listen_on_binds l] by (simp add: helper_machine_def)
  with l show ?thesis
    by (auto simp: bridge_main_def demo_bridge_args_def and_then_def on_disk_def map_err_def in_world_def
        update_pipeline_def modify_def ret_def)
qed

theorem netd_serves_behind_its_firewall_witness:
  "\<exists>d h'. netd_main demo_netd_environment demo_netd_args (helper_machine demo_world) = (Inr (NetdListening d), h') \<and>
     in_force d None None (m_helpers h')"
proof -
  have "nw_netd_socket (cf_network default_config) = ''/run/xanhtab/netd.sock''"
    by (simp add: default_config_def default_network_def)
  moreover have "load_config (ne_env demo_netd_environment) ''c'' (helper_machine demo_world) =
      (Inr default_config, helper_machine demo_world)"
    by (simp add: demo_netd_environment_def demo_loaded)
  ultimately obtain d h' where m:
    "netd_main demo_netd_environment demo_netd_args (helper_machine demo_world) = (Inr (NetdListening d), h')"
    using netd_comes_up by blast
  have "honest (m_helpers (helper_machine demo_world))"
    using fine_honest [OF fine_demo] by (simp add: helper_machine_def)
  moreover have "\<not> na_dry_run demo_netd_args" by (simp add: demo_netd_args_def)
  ultimately show ?thesis using netd_serves_behind_its_firewall [OF _ _ m] m by blast
qed

theorem netd_checks_touch_nothing_witness:
  "\<exists>r h'. netd_main demo_netd_environment (demo_netd_args\<lparr>na_check_proxy_url := Some ''p''\<rparr>) (helper_machine demo_world) = (r, h') \<and>
     wd_started (m_helpers h') = []"
proof -
  obtain r h' where m: "netd_main demo_netd_environment (demo_netd_args\<lparr>na_check_proxy_url := Some ''p''\<rparr>)
      (helper_machine demo_world) = (r, h')" by fastforce
  have "wd_started (m_helpers (helper_machine demo_world)) = []" by (simp add: helper_machine_def demo_world_def)
  with netd_checks_touch_nothing [OF _ m] m show ?thesis by auto
qed

theorem bridge_answers_every_connection_witness:
  "\<exists>h' answers w. bridge_main demo_bridge_args [] (helper_machine demo_browser) = (Inr BridgeListening, h') \<and>
     bridge_serve demo_args [Inr (Inl ''broken pipe''), Inr (Inr (Inr demo_start))] (m_helpers h') = (Inr answers, w) \<and>
     length answers = 2"
proof -
  obtain h' where m: "bridge_main demo_bridge_args [] (helper_machine demo_browser) = (Inr BridgeListening, h')"
    using bridge_comes_up by blast
  let ?conns = "[Inr (Inl ''broken pipe''), Inr (Inr (Inr demo_start))]"
  obtain r w where s: "bridge_serve (ga_pipeline demo_bridge_args) ?conns (m_helpers h') = (r, w)" by fastforce
  have "accepted ?conns" by (simp add: accepted_def)
  from bridge_answers_every_connection [OF m this s] m s show ?thesis by (auto simp: demo_bridge_args_def)
qed

end
