(* ===== verification/WholeSystem.thy ===== *)
theory WholeSystem
  imports Served HelperMains
begin

text \<open>
  The three programs together, each from its own \<open>main\<close>: the network helper and the browser helper listen,
  the daemon serves and reaches them over their sockets. The machines of the helpers need not be the
  daemon's, nor their configuration files the daemon's: what they share is the two worlds.
\<close>


text \<open>An example: the installed configuration for both programs that read one.\<close>

definition demo_netd_production :: "helpers netd_environment" where
  "demo_netd_production = \<lparr>ne_env = production_environment, ne_decode = (\<lambda>_. None), ne_parse_request = demo_decode\<rparr>"

lemma demo_netd_up:
  "\<exists>h'. netd_main demo_netd_production demo_netd_args (helper_machine demo_world) =
     (Inr (NetdListening (lk_net demo_links)), h')"
proof -
  have "wp (load_config production_environment ''c'') (\<lambda>r h'. r = Inr installed_config \<and> h' = helper_machine demo_world)
      (helper_machine demo_world)"
    by (simp add: load_config_def read_to_string_def wp_rules demo_names helper_machine_def fs_target_def fs_node_def
        production_environment_def installed_config_valid)
  then have "load_config production_environment ''c'' (helper_machine demo_world) = (Inr installed_config, helper_machine demo_world)"
    by (auto simp: wp_def split: prod.splits)
  moreover have "netd_of demo_netd_production installed_config False = lk_net demo_links"
    by (simp add: netd_of_def demo_netd_production_def production_environment_def demo_links_def demo_helper_def)
  moreover have "nw_netd_socket (cf_network installed_config) = ''/run/xanhtab/netd.sock''"
    by (simp add: installed_config_def default_config_def default_network_def)
  ultimately show ?thesis
    using netd_comes_up [of demo_netd_production installed_config] by (simp add: demo_netd_production_def)
qed


end
