(* ===== verification/ProcessBrowser.thy ===== *)
theory ProcessBrowser
  imports Conformance BrowserHelper
begin

text \<open>
  \<open>ProcessBrowser\<close> of \<open>src/browser.rs\<close>: the backend that runs the browser as its own child and writes its
  commands to the child's standard input. The world of \<open>process_world\<close> says how a spawn, a write, the
  wait with its timeout and a kill go. A dropped \<open>Child\<close> is killed (\<open>kill_on_drop\<close>). The daemon's binaries
  do not install this backend; it is public, and it keeps the contract of theory Conformance.
\<close>

section \<open>State\<close>

text \<open>How waiting for a stopped child ends.\<close>

datatype wait_result = Exits | WaitFails | StaysAlive

record child_process =
  cp_id :: nat
  cp_egress :: egress_mode

text \<open>
  \<open>pw_process\<close> is the value behind the backend's lock; \<open>pw_alive\<close> are the children that run, whoever holds
  them; \<open>pw_written\<close> is what each got on its standard input.
\<close>

record process_world =
  pw_process :: "child_process option"
  pw_alive :: "child_process list"
  pw_written :: "(nat \<times> browser_command) list"
  pw_steps :: nat
  pw_spawn :: "nat \<Rightarrow> string option"
  pw_write :: "nat \<Rightarrow> string option"
  pw_wait :: "nat \<Rightarrow> wait_result"
  pw_kill :: "nat \<Rightarrow> string option"

section \<open>Operations\<close>

definition send_command :: "child_process \<Rightarrow> browser_command \<Rightarrow> (process_world, app_error, unit) op" where
  "send_command child command w =
     (let w' = w\<lparr>pw_steps := Suc (pw_steps w)\<rparr>
      in case pw_write w (pw_steps w) of
           Some e \<Rightarrow> (Inl (ServiceUnavailable (''browser bridge: '' @ e)), w')
         | None \<Rightarrow> (Inr (), w'\<lparr>pw_written := pw_written w @ [(cp_id child, command)]\<rparr>))"

definition reap :: "child_process \<Rightarrow> process_world \<Rightarrow> process_world" where
  "reap child w = w\<lparr>pw_alive := filter (\<lambda>c. cp_id c \<noteq> cp_id child) (pw_alive w)\<rparr>"

definition drop_child :: "child_process \<Rightarrow> (process_world, 'e, unit) op" where
  "drop_child child = modify (\<lambda>w. if pw_kill w (cp_id child) = None then reap child w else w)"

definition process_stop :: "(process_world, app_error, unit) op" where
  "process_stop =
     and_then (gets pw_process) (\<lambda>held.
       case held of
         None \<Rightarrow> ret ()
       | Some child \<Rightarrow>
           and_then (modify (\<lambda>w. w\<lparr>pw_process := None\<rparr>)) (\<lambda>_.
           and_then (attempt (send_command child StopBrowser)) (\<lambda>_.
           and_then (gets (\<lambda>w. (pw_wait w (cp_id child), pw_kill w (cp_id child)))) (\<lambda>(waited, killed).
             case waited of
               Exits \<Rightarrow> modify (reap child)
             | WaitFails \<Rightarrow> drop_child child
             | StaysAlive \<Rightarrow>
                 (case killed of
                    Some e \<Rightarrow> and_then (drop_child child) (\<lambda>_. raise (ServiceUnavailable (''browser kill: '' @ e)))
                  | None \<Rightarrow> modify (reap child))))))"

definition spawn_child :: "egress_mode \<Rightarrow> (process_world, app_error, child_process) op" where
  "spawn_child egress w =
     (let w' = w\<lparr>pw_steps := Suc (pw_steps w)\<rparr>; child = \<lparr>cp_id = pw_steps w, cp_egress = egress\<rparr>
      in case pw_spawn w (pw_steps w) of
           Some e \<Rightarrow> (Inl (ServiceUnavailable (''browser spawn: '' @ e)), w')
         | None \<Rightarrow> (Inr child, w'\<lparr>pw_alive := child # pw_alive w\<rparr>))"

text \<open>A child whose first command cannot be written is dropped with the error.\<close>

definition process_start ::
  "uuid \<Rightarrow> url \<Rightarrow> stream_profile \<Rightarrow> egress_mode \<Rightarrow> (process_world, app_error, unit) op" where
  "process_start session_id u profile egress =
     and_then process_stop (\<lambda>_.
     and_then (spawn_child egress) (\<lambda>child.
     and_then (attempt (send_command child (StartBrowser session_id u profile egress))) (\<lambda>sent.
       case sent of
         Inl e \<Rightarrow> and_then (drop_child child) (\<lambda>_. raise e)
       | Inr _ \<Rightarrow> modify (\<lambda>w. w\<lparr>pw_process := Some child\<rparr>))))"

definition process_navigate :: "navigation_command \<Rightarrow> (process_world, app_error, unit) op" where
  "process_navigate command =
     and_then (gets pw_process) (\<lambda>held.
       case held of
         None \<Rightarrow> raise SessionNotActive
       | Some child \<Rightarrow> send_command child (NavigateBrowser command))"

text \<open>As a backend, beside the mock egress, on a machine whose helper part holds both.\<close>

record process_helpers =
  ph_world :: process_world
  ph_active :: egress_mode

definition on_world :: "(process_world, app_error, 'a) op \<Rightarrow> (process_helpers machine, app_error, 'a) op" where
  "on_world n h = (case n (ph_world (m_helpers h)) of
     (r, w) \<Rightarrow> (r, h\<lparr>m_helpers := (m_helpers h)\<lparr>ph_world := w\<rparr>\<rparr>))"

definition process_browser :: "process_helpers browser_backend" where
  "process_browser = \<lparr>
     br_start = (\<lambda>session_id u profile egress. on_world (process_start session_id u profile egress)),
     br_stop = on_world process_stop,
     br_navigate = (\<lambda>command. on_world (process_navigate command))\<rparr>"

definition process_manager ::
  "path \<Rightarrow> egress_mode \<Rightarrow> stream_profile \<Rightarrow> u64 \<Rightarrow> blocklist \<Rightarrow> process_helpers session_manager" where
  "process_manager dir egress profile seconds bl = \<lparr>
     sm_browser = process_browser, sm_egress = mock_egress ph_active_update,
     sm_runtime_dir = dir, sm_initial_egress = egress, sm_initial_profile = profile,
     sm_initial_auto_burn = seconds, sm_blocklist = bl\<rparr>"

section \<open>The contract\<close>

text \<open>Every child that runs is the one the backend holds, and killing works.\<close>

definition process_inv :: "process_world \<Rightarrow> bool" where
  "process_inv w \<longleftrightarrow> (\<forall>c \<in> set (pw_alive w). pw_process w = Some c) \<and> (\<forall>n. pw_kill w n = None)"

definition child_mode :: "process_world \<Rightarrow> egress_mode option" where
  "child_mode w = (case pw_alive w of [] \<Rightarrow> None | c # _ \<Rightarrow> Some (cp_egress c))"

lemma process_stop_ends:
  assumes "process_inv w"
  shows "wp process_stop (\<lambda>r w'. r = Inr () \<and> pw_alive w' = [] \<and> pw_process w' = None \<and> pw_kill w' = pw_kill w) w"
proof (cases "pw_process w")
  case None
  with assms show ?thesis by (cases "pw_alive w") (auto simp: process_stop_def wp_rules process_inv_def)
next
  case (Some child)
  then have a: "\<forall>c \<in> set (pw_alive w). c = child" and k: "pw_kill w = (\<lambda>_. None)"
    using assms by (auto simp: process_inv_def fun_eq_iff)
  from a have "filter (\<lambda>c. cp_id c \<noteq> cp_id child) (pw_alive w) = []" by (auto simp: filter_empty_conv)
  with Some k show ?thesis
    by (auto simp: process_stop_def wp_rules drop_child_def reap_def send_command_def Let_def wp_def [of "send_command _ _"]
        split: option.splits wait_result.splits)
qed

lemma process_start_runs:
  assumes "process_inv w"
  shows "wp (process_start i u p e) (\<lambda>r w'. process_inv w' \<and>
    (if r = Inr () then child_mode w' = Some e else pw_alive w' = [])) w"
  unfolding process_start_def wp_and_then [of process_stop]
  by (rule wp_mono [OF process_stop_ends [OF assms]])
    (use assms in \<open>auto simp: wp_rules spawn_child_def send_command_def drop_child_def reap_def Let_def
      wp_def [of "send_command _ _"] wp_def [of "spawn_child _"] process_inv_def child_mode_def split: option.splits\<close>)

lemma process_navigate_keeps:
  "wp (process_navigate c) (\<lambda>r w'. pw_alive w' = pw_alive w \<and> pw_process w' = pw_process w \<and> pw_kill w' = pw_kill w) w"
  by (auto simp: process_navigate_def wp_rules wp_def [of "send_command _ _"] send_command_def Let_def
      split: option.splits)

lemma on_world_result: "fst (on_world n h) = fst (n (ph_world (m_helpers h)))"
  "m_helpers (snd (on_world n h)) = (m_helpers h)\<lparr>ph_world := snd (n (ph_world (m_helpers h)))\<rparr>"
  by (simp_all add: on_world_def split: prod.splits)

lemma wp_pair: "wp n Q w \<Longrightarrow> Q (fst (n w)) (snd (n w))"
  by (simp add: wp_def split: prod.splits)

lemma process_effects:
  "process_inv w \<Longrightarrow> process_inv (snd (process_start i u p e w))"
  "process_inv w \<Longrightarrow> fst (process_start i u p e w) = Inr () \<Longrightarrow> child_mode (snd (process_start i u p e w)) = Some e"
  "process_inv w \<Longrightarrow> process_inv (snd (process_stop w))"
  "process_inv w \<Longrightarrow> child_mode (snd (process_stop w)) = None"
  "process_inv w \<Longrightarrow> process_inv (snd (process_navigate c w))"
  "child_mode (snd (process_navigate c w)) = child_mode w"
  using wp_pair [OF process_start_runs, of w i u p e] wp_pair [OF process_stop_ends, of w]
    wp_pair [OF process_navigate_keeps, of c w]
  by (auto simp: child_mode_def process_inv_def)

interpretation process: backend_pair "process_manager dir egress profile seconds bl"
    "\<lambda>b. child_mode (ph_world b)" "\<lambda>b. set_option (child_mode (ph_world b))" "{}"
    "\<lambda>b. Some (ph_active b)" "\<lambda>b. process_inv (ph_world b)"
  by unfold_locales (simp_all add: process_manager_def process_browser_def on_world_result process_effects
      mock_egress_def mock_apply_def helpers_op_def modify_def and_then_def ret_def)

text \<open>
  A browser run as a child: after every sequence of calls, with spawns, writes and waits failing as
  they may, at most one child runs, an active session's child was started for the mode the session
  shows, and no child outlives an idle session.
\<close>

theorem process_browser_never_leaks_a_child:
  assumes "process_inv (ph_world (m_helpers h))" and "child_mode (ph_world (m_helpers h)) = None"
    and "drifting (=) (process_manager dir egress profile secs bl) cs
      (session_new (process_manager dir egress profile secs bl) h)"
    and "s = session_run (process_manager dir egress profile secs bl) cs
      (session_new (process_manager dir egress profile secs bl) h)"
    and "w = ph_world (m_helpers (ss_mach s))"
  shows "(\<forall>c \<in> set (pw_alive w). pw_process w = Some c) \<and>
    (sn_phase (sd_snapshot (ss_data s)) = Active \<longrightarrow>
       (\<forall>c \<in> set (pw_alive w). cp_egress c = sn_egress (sd_snapshot (ss_data s)))) \<and>
    (sn_phase (sd_snapshot (ss_data s)) = Idle \<longrightarrow> pw_alive w = [])"
proof -
  have c: "process.conforming s"
    using process.run_conforming [OF _ process.new_conforming [OF assms(1,2)] assms(3)]
    unfolding assms(4) [symmetric] by (auto simp: process.harmless_def)
  then have i: "process_inv w" by (simp add: process.conforming_def assms(5))
  have one: "cp_egress c = e" if "c \<in> set (pw_alive w)" "child_mode w \<in> {None, Some e}" for c e
    using i that by (cases "pw_alive w") (auto simp: child_mode_def process_inv_def)
  have none: "pw_alive w = []" if "child_mode w = None"
    using that by (cases "pw_alive w") (auto simp: child_mode_def)
  have "\<forall>c \<in> set (pw_alive w). pw_process w = Some c" using i by (simp add: process_inv_def)
  with c one none show ?thesis
    by (auto simp: process.conforming_def process.within_def assms(5))
qed

text \<open>An example: one start.\<close>

definition process_machine :: "process_helpers machine" where
  "process_machine = \<lparr>m_instant = 0, m_utc = 0, m_random = (\<lambda>n. None), m_draws = 0, m_uuid = (\<lambda>n. 0), m_uuids = 0,
     m_fs = [], m_fault = (\<lambda>_. None), m_helpers = \<lparr>ph_world = \<lparr>pw_process = None, pw_alive = [], pw_written = [],
       pw_steps = 0, pw_spawn = (\<lambda>_. None), pw_write = (\<lambda>_. None), pw_wait = (\<lambda>_. StaysAlive), pw_kill = (\<lambda>_. None)\<rparr>,
     ph_active = Direct\<rparr>\<rparr>"

abbreviation "demo_process \<equiv> process_manager ''/r/s'' Tor Hd15 600 None"

lemma demo_process_starts:
  "wp (start demo_process 7 (demo_url ''ok.example'')) (\<lambda>r s. sn_phase (sd_snapshot (ss_data s)) = Active \<and>
     sn_egress (sd_snapshot (ss_data s)) = Tor \<and> pw_alive (ph_world (m_helpers (ss_mach s))) \<noteq> [])
   (session_new demo_process process_machine)"
proof -
  have u: "\<not> blocked demo_process (demo_url ''ok.example'') True"
    by (simp add: blocked_def process_manager_def contains_def demo_url_def)
  have f: "sm_browser demo_process = process_browser" "sm_egress demo_process = mock_egress ph_active_update"
    "sm_initial_egress demo_process = Tor"
    by (simp_all add: process_manager_def)
  show ?thesis
    unfolding start_def
    by (simp add: wp_rules Let_def session_new_def u lease_free_def starting_def f process_browser_def mock_egress_def
        mock_apply_def helpers_op_def initial_snapshot_def snapshot_default_def and_then_def modify_def ret_def on_world_def
        process_machine_def process_start_def process_stop_def gets_def spawn_child_def send_command_def attempt_def)
qed

theorem process_browser_never_leaks_a_child_witness:
  "\<exists>s c. s = session_run demo_process [SStart 7 (demo_url ''ok.example'')] (session_new demo_process process_machine) \<and>
     c \<in> set (pw_alive (ph_world (m_helpers (ss_mach s)))) \<and> cp_egress c = Tor"
proof -
  let ?s = "session_run demo_process [SStart 7 (demo_url ''ok.example'')] (session_new demo_process process_machine)"
  have s: "sn_phase (sd_snapshot (ss_data ?s)) = Active" "sn_egress (sd_snapshot (ss_data ?s)) = Tor"
    "pw_alive (ph_world (m_helpers (ss_mach ?s))) \<noteq> []"
    using demo_process_starts by (auto simp: wp_def split: prod.splits)
  have i: "process_inv (ph_world (m_helpers process_machine))" "child_mode (ph_world (m_helpers process_machine)) = None"
    by (simp_all add: process_machine_def process_inv_def child_mode_def)
  have "drifting (=) demo_process [SStart 7 (demo_url ''ok.example'')] (session_new demo_process process_machine)" by simp
  from process_browser_never_leaks_a_child [OF i this refl refl] s show ?thesis
    by (metis list.set_sel(1))
qed

end
