(* ===== verification/ListedNames.thy ===== *)
theory ListedNames
  imports Served
begin

text \<open>
  The block list through three programs: names compiled by \<open>src/bin/xanhtab-blocklist.rs\<close> into a file, the
  file opened by \<open>main\<close>, and the requests of \<open>src/api.rs\<close> that would open a page.
\<close>

lemma start_refused:
  assumes "blocked m u (sn_blocklist_enabled (sd_snapshot (ss_data s)))"
  shows "wp (start m c u) (\<lambda>r s'. r \<in> range Inl \<and> m_helpers (ss_mach s') = m_helpers (ss_mach s)) s"
  using assms by (auto simp: start_def wp_rules)

lemma navigate_refused:
  assumes "blocked m u (sn_blocklist_enabled (sd_snapshot (ss_data s)))"
  shows "wp (navigate m c (Navigate u)) (\<lambda>r s'. r \<in> range Inl \<and> m_helpers (ss_mach s') = m_helpers (ss_mach s)) s"
  using assms by (auto simp: navigate_def wp_rules)

text \<open>What authentication leaves of a daemon's state.\<close>

definition beside_helpers :: "'b app \<Rightarrow> 'b app \<Rightarrow> bool" where
  "beside_helpers s s' \<longleftrightarrow> ss_data (ap_sess s') = ss_data (ap_sess s) \<and>
     m_helpers (ss_mach (ap_sess s')) = m_helpers (ss_mach (ap_sess s))"

lemma authenticating: "wp (api_authenticate a head b) (\<lambda>r s'. beside_helpers s s') s"
proof -
  have "wp (authenticate am t c r) (\<lambda>_ h. m_helpers (ah_mach h) = m_helpers (ss_mach (ap_sess s))) (auth_view s)" for am t c r
    by (rule wpI, drule arg_cong [where f = snd])
      (use pairing_leaves_helpers(2) [of am t c r "auth_view s"] in \<open>simp add: auth_view_def\<close>)
  then show ?thesis
    by (auto simp: api_authenticate_def wp_rules beside_helpers_def split: sum.splits elim: wp_mono)
qed

lemma opening_refused:
  assumes "blocked (as_sessions (ai_state a)) u (sn_blocklist_enabled (sd_snapshot (ss_data (ap_sess s))))"
    and "rq = PostSession (Some (Some u)) \<or> rq = PostNavigation sid (Some (Navigate u))"
  shows "wp (handle a head rq) (\<lambda>r s'. r \<in> range Inl \<and>
    m_helpers (ss_mach (ap_sess s')) = m_helpers (ss_mach (ap_sess s))) s"
proof -
  have started: "wp (start_session (ai_state a) cx u) (\<lambda>r s'. r \<in> range Inl \<and>
      m_helpers (ss_mach (ap_sess s')) = m_helpers (ss_mach (ap_sess s))) t" if "beside_helpers s t" for cx t
    using that start_refused [of "as_sessions (ai_state a)" u "ap_sess t" "cx_client_id cx"] assms(1)
    by (auto simp: start_session_def wp_rules beside_helpers_def elim!: wp_mono)
  have navigated: "wp (navigate_session (ai_state a) cx sid (Navigate u)) (\<lambda>r s'. r \<in> range Inl \<and>
      m_helpers (ss_mach (ap_sess s')) = m_helpers (ss_mach (ap_sess s))) t" if "beside_helpers s t" for cx t
    using that navigate_refused [of "as_sessions (ai_state a)" u "ap_sess t" "cx_client_id cx"] assms(1)
    by (auto simp: navigate_session_def require_session_id_def Let_def wp_rules beside_helpers_def elim!: wp_mono)
  have beside: "m_helpers (ss_mach (ap_sess t)) = m_helpers (ss_mach (ap_sess s))" if "beside_helpers s t" for t
    using that by (simp add: beside_helpers_def)
  show ?thesis
    using assms(2)
  proof
    assume "rq = PostSession (Some (Some u))"
    then show ?thesis
      by (simp add: api_start_session_def parse_json_def wp_rules)
        (rule wp_mono [OF authenticating], auto simp: wp_rules split: sum.splits dest: beside
          intro!: wp_mono [OF started])
  next
    assume "rq = PostNavigation sid (Some (Navigate u))"
    then show ?thesis
      by (simp add: api_navigate_def parse_json_def wp_rules)
        (rule wp_mono [OF authenticating], auto simp: wp_rules split: sum.splits dest: beside
          intro!: wp_mono [OF navigated])
  qed
qed

text \<open>A list file in the place the configuration names is the list the daemon enforces.\<close>

lemma serving_list:
  assumes "main_run env args h = (Inr (Serving t a s0), h')" and "btree_ok ks"
    and "holds_list (en_fst env) h (components (bl_fst_path (cf_blocklist (ai_config a)))) ks"
  shows "\<exists>S. sm_blocklist (as_sessions (ai_state a)) = Some S \<and> fst_holds S ks"
proof -
  obtain c bl where a: "a = wire_api env c bl"
    and o: "blocklist_open (en_fst env) (components (bl_fst_path (cf_blocklist c))) h = (Inr bl, h)"
    using serving_from [OF assms(1)] by blast
  then have "\<exists>S. bl = Some S \<and> fst_holds S ks"
    using assms(3) by (auto simp: holds_list_def wire_api_def blocklist_open_def and_then_def inspect_def with_context_def
        map_err_def faultable_def gets_def ret_def split: prod.splits sum.splits option.splits
        dest!: wpD [OF open_fst_spec])
  with a show ?thesis by (auto simp: wire_api_def wire_state_def wire_sessions_def)
qed

text \<open>
  C4. A listed name cannot be opened: compile hosts files, put the file where the configuration names the
  block list, start the daemon. From then on, at any moment at which the list is enabled, a request to
  open an http or https page, in a new session or in the running one, whose host is an accepted name of
  those files or lies under one, is refused, whoever sends it, and no helper hears of it.
\<close>

theorem listed_names_cannot_be_opened:
  assumes "fst_lib_ok (en_fst env)" and "named_file output"
    and "compile_hosts (en_fst env) inputs output hc = (Inr count, hc')"
    and "fs_node (m_fs h) (components (bl_fst_path (cf_blocklist (ai_config a)))) = fs_node (m_fs hc') output"
    and "main_run env args h = (Inr (Serving t a s0), h')"
    and "d \<in> input_hosts (map (input_text hc) inputs)"
    and "url_host_str u = Some host" and "url_scheme u \<in> {''http'', ''https''}"
    and "normalize_host host = d \<or> suffix (CHR ''.'' # d) (normalize_host host)"
    and "sn_blocklist_enabled (sd_snapshot (ss_data (ap_sess s)))"
    and "rq = PostSession (Some (Some u)) \<or> rq = PostNavigation sid (Some (Navigate u))"
    and "handle a head rq s = (r, s')"
  shows "r \<in> range Inl \<and> m_helpers (ss_mach (ap_sess s')) = m_helpers (ss_mach (ap_sess s))"
proof -
  let ?ks = "compile_inputs (map (input_text hc) inputs) []"
  have ks: "btree_ok ?ks" "set ?ks = input_hosts (map (input_text hc) inputs)" by (simp_all add: compile_inputs_props)
  have "holds_list (en_fst env) hc' output ?ks"
    using wpD [OF compile_hosts_spec [OF assms(1,2) refl] assms(3)] by auto
  then have "holds_list (en_fst env) h (components (bl_fst_path (cf_blocklist (ai_config a)))) ?ks"
    using assms(4) by (simp add: holds_list_def)
  from serving_list [OF assms(5) ks(1) this] obtain S
    where S: "sm_blocklist (as_sessions (ai_state a)) = Some S" "fst_holds S ?ks" by blast
  have "fst (contains (Some S) host 0)"
    using S(2) assms(6,9) ks(2) by (auto simp: fst_holds_def contains_eq covers_def)
  then have "blocked (as_sessions (ai_state a)) u (sn_blocklist_enabled (sd_snapshot (ss_data (ap_sess s))))"
    using S(1) assms(7,8,10) by (simp add: blocked_def)
  from wpD [OF opening_refused [OF this assms(11)] assms(12)] show ?thesis .
qed

section \<open>An example\<close>

definition one_line_disk :: "unit machine" where
  "one_line_disk = list_disk\<lparr>m_fs := [([Normal ''h''], FileNode ''0.0.0.0 a.b'')]\<rparr>"

lemma one_line_content: "line_content ''0.0.0.0 a.b'' = ''0.0.0.0 a.b''"
  by (simp add: line_content_def str_eval)

lemma one_line_words: "split_whitespace ''0.0.0.0 a.b'' = [''0.0.0.0'', ''a.b'']"
  by (simp add: str_eval)

lemma one_line_candidates: "line_candidates ''0.0.0.0 a.b'' = [''a.b'']"
  by (simp add: line_candidates_def one_line_words example_zero_addr)

lemma one_line_host: "normalize_host ''a.b'' = ''a.b''"
  by (simp add: normalize_host_def str_eval)

lemma one_line_no_addr: "parse_ip_addr ''a.b'' = None"
  by (simp add: net_eval)

lemma one_line_domain: "normalize_domain ''a.b'' = Some ''a.b''"
  by (simp add: normalize_domain_def one_line_host one_line_no_addr valid_label_def is_ascii_alphanumeric_def
      is_ascii_digit_def is_ascii_upper_def is_ascii_lower_def)

lemma one_line: "parse_hosts_line ''0.0.0.0 a.b'' = [''a.b'']" "rust_lines ''0.0.0.0 a.b'' = [''0.0.0.0 a.b'']"
  by (simp_all add: parse_hosts_line_def one_line_content one_line_candidates one_line_domain map_filter_def
      rust_lines_def newline_def)

lemma one_line_simps: "m_fault one_line_disk = (\<lambda>_. None)"
  "fs_node (m_fs one_line_disk) [Normal ''h''] = Some (FileNode ''0.0.0.0 a.b'')"
  "fs_node (m_fs one_line_disk) [Normal ''o''] = None" "fs_node (m_fs one_line_disk) [Normal ''o.fst.tmp''] = None"
  by (simp_all add: one_line_disk_def list_disk_def fs_node_def)

lemma one_line_compiles: "\<exists>hc'. compile_hosts plain_fst [[Normal ''h'']] [Normal ''o''] one_line_disk = (Inr 1, hc') \<and>
    fs_node (m_fs hc') [Normal ''o''] = Some (FileNode (mark_key ''a.b''))"
proof -
  have "wp (compile_hosts plain_fst [[Normal ''h'']] [Normal ''o'']) (\<lambda>r hc'. r = Inr 1 \<and>
      fs_node (m_fs hc') [Normal ''o''] = Some (FileNode (mark_key ''a.b''))) one_line_disk"
    by (simp add: compile_hosts_def build_fst_def wp_rules one_line_simps fs_target_def one_line
        list_disk_names plain_fst_def Let_def wp_def [of "make_parent _"] make_parent_single
        btree_insert_def insort_insert_key_def)
  then show ?thesis by (auto simp: wp_def split: prod.splits)
qed

theorem listed_names_cannot_be_opened_witness:
  "\<exists>w t a s0 h' r s'. main_run production_environment demo_arguments (production_machine w) = (Inr (Serving t a s0), h') \<and>
     handle a no_head (PostSession (Some (Some (demo_url ''x.A.b'')))) s0 = (r, s') \<and> r \<in> range Inl"
proof -
  obtain hc' where c: "compile_hosts plain_fst [[Normal ''h'']] [Normal ''o''] one_line_disk = (Inr 1, hc')"
    and o: "fs_node (m_fs hc') [Normal ''o''] = Some (FileNode (mark_key ''a.b''))"
    using one_line_compiles by blast
  fix w
  let ?a = "wire_api production_environment installed_config (Some (list_fst [''a.b'']))"
  obtain t s0 h' where up: "main_run production_environment demo_arguments (production_machine w) =
     (Inr (Serving t ?a s0), h')"
    using production_up by blast
  have lib: "en_fst production_environment = plain_fst" by (simp add: production_environment_def)
  have f: "named_file [Normal ''o'']" by (auto simp: named_file_def)
  have n: "fs_node (m_fs (production_machine w)) (components (bl_fst_path (cf_blocklist (ai_config ?a)))) =
      fs_node (m_fs hc') [Normal ''o'']"
    unfolding o by (simp add: wire_api_def production_config production_machine_def production_paths fs_node_def)
  have d: "''a.b'' \<in> input_hosts (map (input_text one_line_disk) [[Normal ''h'']])"
    by (auto simp: input_hosts_def input_text_def fs_target_def one_line_simps one_line)
  have u: "url_host_str (demo_url ''x.A.b'') = Some ''x.A.b''" "url_scheme (demo_url ''x.A.b'') \<in> {''http'', ''https''}"
    by (simp_all add: demo_url_def)
  have covered: "normalize_host ''x.A.b'' = ''a.b'' \<or> suffix (CHR ''.'' # ''a.b'') (normalize_host ''x.A.b'')"
    by code_simp
  obtain bl where "bring_up (wire_state production_environment installed_config bl)
      (sv_allow_insecure_http (cf_server installed_config)) (production_machine w) = Inr s0"
    using serving_from [OF up] by (auto simp: wire_api_def)
  from bring_up_result [OF this]
  have e: "sn_blocklist_enabled (sd_snapshot (ss_data (ap_sess s0)))"
    by (simp add: session_new_def initial_snapshot_def snapshot_default_def)
  obtain r s' where r: "handle ?a no_head (PostSession (Some (Some (demo_url ''x.A.b'')))) s0 = (r, s')" by fastforce
  have "r \<in> range Inl"
    using listed_names_cannot_be_opened [OF _ f _ n up d u covered e _ r] c by (simp add: lib plain_fst_ok)
  with up r show ?thesis by blast
qed

end
