(* ===== verification/Await.thy ===== *)
theory Await
  imports XPrelude
begin

text \<open>
  An \<open>async fn\<close> between its \<open>await\<close>s. A \<^emph>\<open>task\<close> is what is left to do: nothing, or one more step and then a
  task that depends on the state the step ran in. A step is what the code does without giving anything
  away: one block under a lock, one call of a helper, one event sent. Between two steps other tasks run,
  and a task may be dropped there and never go on, as a request's is when its client goes away.
\<close>

section \<open>Tasks\<close>

datatype ('s, 'e, 'a) task =
    Finished "'e + 'a"
  | Step "'s \<Rightarrow> 's" "'s \<Rightarrow> ('s, 'e, 'a) task"

definition step_of :: "('s, 'e, 'a) op \<Rightarrow> ('s, 'e, 'a) task" where
  "step_of m = Step (\<lambda>s. snd (m s)) (\<lambda>s. Finished (fst (m s)))"

primrec continue :: "('s, 'e, 'a) task \<Rightarrow> ('e + 'a \<Rightarrow> ('s, 'f, 'b) task) \<Rightarrow> ('s, 'f, 'b) task" where
  "continue (Finished r) f = f r"
| "continue (Step act k) f = Step act (\<lambda>s. continue (k s) f)"

definition await_then :: "('s, 'e, 'a) task \<Rightarrow> ('a \<Rightarrow> ('s, 'e, 'b) task) \<Rightarrow> ('s, 'e, 'b) task" where
  "await_then t f = continue t (\<lambda>r. case r of Inl e \<Rightarrow> Finished (Inl e) | Inr a \<Rightarrow> f a)"

definition await_result :: "('s, 'e, 'a) task \<Rightarrow> ('s, 'f, 'e + 'a) task" where
  "await_result t = continue t (\<lambda>r. Finished (Inr r))"

section \<open>Running a task\<close>

text \<open>In one go.\<close>

primrec run :: "('s, 'e, 'a) task \<Rightarrow> ('s, 'e, 'a) op" where
  "run (Finished r) = (\<lambda>s. (r, s))"
| "run (Step act k) = (\<lambda>s. run (k s) (act s))"

text \<open>
  Among others: before its n-th step (counted from \<open>n\<close>) the others do \<open>env n\<close>, or the task is dropped. The
  result is \<open>None\<close> for a dropped task.
\<close>

primrec play :: "('s, 'e, 'a) task \<Rightarrow> (nat \<Rightarrow> ('s \<Rightarrow> 's) option) \<Rightarrow> nat \<Rightarrow> 's \<Rightarrow> ('e + 'a) option \<times> 's" where
  "play (Finished r) = (\<lambda>env n s. (Some r, s))"
| "play (Step act k) = (\<lambda>env n s. case env n of
     None \<Rightarrow> (None, s)
   | Some f \<Rightarrow> play (k (f s)) env (Suc n) (act (f s)))"

text \<open>At most so many steps, whatever the states.\<close>

primrec steps_within :: "('s, 'e, 'a) task \<Rightarrow> nat \<Rightarrow> bool" where
  "steps_within (Finished r) = (\<lambda>n. True)"
| "steps_within (Step act k) = (\<lambda>n. 0 < n \<and> (\<forall>s. steps_within (k s) (n - 1)))"

section \<open>What holds along a task\<close>

text \<open>
  \<open>along R I t Q s\<close>: if what the others do is in \<open>R\<close>, then \<open>I\<close> holds whenever the task waits, before and after
  the others had their turn, and when it finishes its result and state are in \<open>Q\<close>.
\<close>

primrec along :: "('s \<Rightarrow> 's \<Rightarrow> bool) \<Rightarrow> ('s \<Rightarrow> bool) \<Rightarrow> ('s, 'e, 'a) task \<Rightarrow> ('e + 'a \<Rightarrow> 's \<Rightarrow> bool) \<Rightarrow> 's \<Rightarrow> bool" where
  "along R I (Finished r) = (\<lambda>Q s. Q r s)"
| "along R I (Step act k) = (\<lambda>Q s. I s \<and> (\<forall>s'. R s s' \<longrightarrow> I s' \<and> along R I (k s') Q (act s')))"

text \<open>\<open>relies P\<close>: whenever the others have a turn in such a run, their n-th is one that \<open>P n\<close> allows there.\<close>

primrec relies :: "(nat \<Rightarrow> 's \<Rightarrow> bool) \<Rightarrow> ('s, 'e, 'a) task \<Rightarrow> (nat \<Rightarrow> ('s \<Rightarrow> 's) option) \<Rightarrow> nat \<Rightarrow> 's \<Rightarrow> bool" where
  "relies P (Finished r) = (\<lambda>env n s. True)"
| "relies P (Step act k) = (\<lambda>env n s. case env n of
     None \<Rightarrow> True
   | Some f \<Rightarrow> P n s \<and> relies P (k (f s)) env (Suc n) (act (f s)))"

lemma along_sound:
  assumes "\<And>n f s. env n = Some f \<Longrightarrow> I s \<Longrightarrow> P n s \<Longrightarrow> R s (f s)"
  shows "along R I t Q s \<Longrightarrow> relies P t env n s \<Longrightarrow> play t env n s = (r, s') \<Longrightarrow>
    (case r of None \<Rightarrow> I s' | Some x \<Rightarrow> Q x s')"
proof (induction t arbitrary: n s)
  case (Step act k)
  show ?case
  proof (cases "env n")
    case (Some f)
    with Step.prems have p: "I s" "P n s" "relies P (k (f s)) env (Suc n) (act (f s))"
      "play (k (f s)) env (Suc n) (act (f s)) = (r, s')" by simp_all
    with assms [OF Some] have "R s (f s)" by simp
    with Step.prems(1) have "along R I (k (f s)) Q (act (f s))" by simp
    from Step.IH [OF rangeI this p(3,4)] show ?thesis .
  qed (use Step.prems in auto)
qed auto

lemma along_mono: "along R I t Q s \<Longrightarrow> (\<And>r s'. Q r s' \<Longrightarrow> Q' r s') \<Longrightarrow> along R I t Q' s"
  by (induction t arbitrary: s) auto

lemma along_continue: "along R I (continue t f) Q s = along R I t (\<lambda>r. along R I (f r) Q) s"
  by (induction t arbitrary: s) auto

named_theorems along_rules "equations that run a task inside a postcondition"

lemma along_step_of [along_rules]:
  "along R I (step_of m) Q s \<longleftrightarrow> I s \<and> (\<forall>s'. R s s' \<longrightarrow> I s' \<and> wp m Q s')"
  by (simp add: step_of_def wp_def split_def)

lemma along_await_then [along_rules]: "along R I (await_then t f) Q s =
    along R I t (\<lambda>r. case r of Inl e \<Rightarrow> Q (Inl e) | Inr a \<Rightarrow> along R I (f a) Q) s"
  unfolding await_then_def along_continue by (auto elim!: along_mono split: sum.splits)

lemma along_await_result [along_rules]: "along R I (await_result t) Q s = along R I t (\<lambda>r. Q (Inr r)) s"
  by (simp add: await_result_def along_continue)

lemma along_finished [along_rules]: "along R I (Finished r) Q s = Q r s"
  by simp

section \<open>One go, and the number of steps\<close>

lemma run_step_of [simp]: "run (step_of m) = m"
  by (simp add: step_of_def)

lemma run_continue: "run (continue t f) s = (case run t s of (r, s') \<Rightarrow> run (f r) s')"
  by (induction t arbitrary: s) (auto simp: run.simps(1))

lemma run_await_then [simp]: "run (await_then t f) = and_then (run t) (\<lambda>a. run (f a))"
  by (auto simp: fun_eq_iff await_then_def run_continue and_then_def split: prod.splits sum.splits)

lemma run_await_result [simp]: "run (await_result t) = attempt (run t)"
  by (auto simp: fun_eq_iff await_result_def run_continue attempt_def split: prod.splits)

declare run.simps(1) [simp del]

lemma run_finished [simp]: "run (Finished (Inr a)) = ret a" "run (Finished (Inl e)) = raise e"
  by (simp_all add: fun_eq_iff run.simps(1) ret_def raise_def)

text \<open>A task nobody interferes with runs in one go.\<close>

lemma play_alone: "(\<And>n. env n = Some id) \<Longrightarrow> play t env n s = (Some (fst (run t s)), snd (run t s))"
  by (induction t arbitrary: n s) (auto simp: run.simps(1))

lemma steps_within_mono: "steps_within t n \<Longrightarrow> n \<le> m \<Longrightarrow> steps_within t m"
proof (induction t arbitrary: n m)
  case (Step act k)
  from Step.prems(1) have "steps_within (k s) (n - 1)" for s by simp
  from Step.IH [OF rangeI this] Step.prems(2) have "steps_within (k s) (m - 1)" for s by (simp add: diff_le_mono)
  with Step.prems show ?case by simp
qed simp

lemma steps_within_continue:
  "steps_within t n \<Longrightarrow> (\<And>r. steps_within (f r) m) \<Longrightarrow> steps_within (continue t f) (n + m)"
proof (induction t arbitrary: n)
  case (Finished r)
  then show ?case using steps_within_mono [of "f r" m "n + m"] by simp
next
  case (Step act k)
  from Step.prems(1) have "steps_within (k s) (n - 1)" for s by simp
  from Step.IH [OF rangeI this Step.prems(2)] have "steps_within (continue (k s) f) (n - 1 + m)" for s .
  moreover have "n - 1 + m = n + m - 1" using Step.prems(1) by simp
  ultimately show ?case using Step.prems(1) by simp
qed

lemma play_ends:
  "steps_within t k \<Longrightarrow> (\<And>i. i < n + k \<Longrightarrow> env i \<noteq> None) \<Longrightarrow> \<exists>r s'. play t env n s = (Some r, s')"
proof (induction t arbitrary: n k s)
  case (Step act next_task)
  then obtain f where f: "env n = Some f" by fastforce
  have "steps_within (next_task (f s)) (k - 1)" using Step.prems(1) by simp
  moreover have "env i \<noteq> None" if "i < Suc n + (k - 1)" for i using Step.prems that by auto
  ultimately obtain r s' where "play (next_task (f s)) env (Suc n) (act (f s)) = (Some r, s')"
    using Step.IH by blast
  with f show ?case by simp
qed simp

text \<open>Nor does one the others only wait for, as long as it lasts.\<close>

lemma play_undisturbed:
  "steps_within t k \<Longrightarrow> (\<And>i. i < n + k \<Longrightarrow> env i = Some id) \<Longrightarrow>
    play t env n s = (Some (fst (run t s)), snd (run t s))"
proof (induction t arbitrary: n k s)
  case (Step act next_task)
  have "steps_within (next_task s) (k - 1)" and k: "0 < k" using Step.prems(1) by simp_all
  moreover have "env i = Some id" if "i < Suc n + (k - 1)" for i
    by (rule Step.prems(2)) (use that k in linarith)
  ultimately have "play (next_task s) env (Suc n) (act s) =
      (Some (fst (run (next_task s) (act s))), snd (run (next_task s) (act s)))"
    using Step.IH by blast
  moreover have "env n = Some id"
    by (rule Step.prems(2)) (use k in simp)
  ultimately show ?case by (simp add: run.simps(2))
qed (simp add: run.simps(1))

lemma steps_within_step_of [simp]: "steps_within (step_of m) (Suc n)"
  by (simp add: step_of_def)

lemma steps_within_then:
  assumes "steps_within t n" and "\<And>a. steps_within (f a) k"
  shows "steps_within (await_then t f) (n + k)"
  unfolding await_then_def by (rule steps_within_continue [OF assms(1)]) (simp add: assms(2) split: sum.split)

lemma steps_within_result: "steps_within t n \<Longrightarrow> steps_within (await_result t) n"
  unfolding await_result_def using steps_within_continue [of t n "\<lambda>r. Finished (Inr r)" 0] by simp

end
