(* ===== verification/SessionSteps.thy ===== *)
theory SessionSteps
  imports Session Await
begin

text \<open>
  The operations of \<open>src/session.rs\<close> step by step, as the runtime sees them: each block under the session's
  lock, each call of a helper and each sent event is a step of its own. In one go they are the operations of
  theory Session. Here they also run among the calls that do not take the lifecycle lock, and may be
  dropped where they wait: a request's handler is, when its client closes the connection.
\<close>

section \<open>The operations as tasks\<close>

definition send_event :: "string \<Rightarrow> session_snapshot \<Rightarrow> ('b sess, 'e, unit) op" where
  "send_event event n = modify (\<lambda>s. s\<lparr>ss_events := ss_events s @ [\<lparr>ev_event = event,
     ev_at = m_utc (ss_mach s), ev_session = n\<rparr>]\<rparr>)"

definition publish_task :: "string \<Rightarrow> ('b sess, 'e, unit) task" where
  "publish_task event = await_then (step_of get_snapshot) (\<lambda>n. step_of (send_event event n))"

text \<open>A block under the lock that ends with a copy of the snapshot, then the event with this copy.\<close>

definition settle :: "('b sess, 'e, unit) op \<Rightarrow> string \<Rightarrow> ('b sess, 'e, session_snapshot) task" where
  "settle block event =
     await_then (step_of (and_then block (\<lambda>_. get_snapshot))) (\<lambda>n.
     await_then (step_of (send_event event n)) (\<lambda>_. Finished (Inr n)))"

definition fail_task :: "string \<Rightarrow> ('b sess, app_error, 'a) task" where
  "fail_task message =
     await_then (settle (update_snapshot (\<lambda>n. n\<lparr>sn_phase := Failed, sn_failure := Some message\<rparr>)) ''session.failed'')
       (\<lambda>_. Finished (Inl (ServiceUnavailable message)))"

definition start_task ::
  "'b session_manager \<Rightarrow> uuid \<Rightarrow> url \<Rightarrow> ('b sess, app_error, session_snapshot) task" where
  "start_task m client u =
     await_then (step_of (begin_start m client u)) (\<lambda>(id, profile, egress).
     await_then (publish_task ''session.starting'') (\<lambda>_.
     await_then (await_result (step_of (session_op (eg_apply (sm_egress m) egress)))) (\<lambda>applied.
       case applied of
         Inl e \<Rightarrow>
           await_then (step_of (reset_egress m)) (\<lambda>f1.
           await_then (step_of (clean_session m)) (\<lambda>f2.
             fail_task (join ''; '' ((''egress apply: '' @ error_text e) # f1 @ f2))))
       | Inr _ \<Rightarrow>
           await_then (await_result (step_of (session_op (br_start (sm_browser m) id u profile egress)))) (\<lambda>started.
             case started of
               Inl e \<Rightarrow>
                 await_then (step_of (stop_browser m)) (\<lambda>f1.
                 await_then (step_of (reset_egress m)) (\<lambda>f2.
                 await_then (step_of (clean_session m)) (\<lambda>f3.
                   fail_task (join ''; '' ((''browser start: '' @ error_text e) # f1 @ f2 @ f3)))))
             | Inr _ \<Rightarrow>
                 settle (and_then (update_snapshot (\<lambda>n. n\<lparr>sn_phase := Active\<rparr>)) (\<lambda>_. push_history u))
                   ''session.active''))))"

definition begin_burn :: "('b sess, app_error, session_snapshot option) op" where
  "begin_burn =
     and_then get_snapshot (\<lambda>n.
       if sn_phase n = Idle then ret (Some n)
       else and_then (update_snapshot (\<lambda>n. n\<lparr>sn_phase := Burning\<rparr>)) (\<lambda>_. ret None))"

definition wipe :: "'b session_manager \<Rightarrow> string list \<Rightarrow> ('b sess, app_error, unit) op" where
  "wipe m messages =
     and_then (update_data (\<lambda>d. d\<lparr>sd_snapshot := initial_snapshot m, sd_controller := None, sd_history := []\<rparr>)) (\<lambda>_.
     and_then touch (\<lambda>_.
       if messages \<noteq> []
       then update_snapshot (\<lambda>n. n\<lparr>sn_phase := Failed, sn_failure := Some (join ''; '' messages)\<rparr>)
       else ret ()))"

definition burn_task :: "'b session_manager \<Rightarrow> ('b sess, app_error, session_snapshot) task" where
  "burn_task m =
     await_then (step_of begin_burn) (\<lambda>idle.
       case idle of
         Some n \<Rightarrow> Finished (Inr n)
       | None \<Rightarrow>
           await_then (publish_task ''session.burning'') (\<lambda>_.
           await_then (step_of (stop_browser m)) (\<lambda>f1.
           await_then (step_of (reset_egress m)) (\<lambda>f2.
           await_then (step_of (clean_session m)) (\<lambda>f3.
             let messages = f1 @ f2 @ f3
             in if messages \<noteq> []
                then await_then (settle (wipe m messages) ''session.burn_failed'') (\<lambda>_.
                       Finished (Inl (ServiceUnavailable (join ''; '' messages))))
                else settle (wipe m messages) ''session.idle'')))))"

definition begin_navigate ::
  "'b session_manager \<Rightarrow> uuid \<Rightarrow> navigation_command \<Rightarrow> ('b sess, app_error, unit) op" where
  "begin_navigate m client command =
     and_then (ensure_controller client) (\<lambda>_.
     and_then touch (\<lambda>_.
     and_then get_snapshot (\<lambda>n.
       case command of
         Navigate u \<Rightarrow> ensure_navigation_allowed m u (sn_blocklist_enabled n)
       | _ \<Rightarrow> ret ())))"

definition navigate_task ::
  "'b session_manager \<Rightarrow> uuid \<Rightarrow> navigation_command \<Rightarrow> ('b sess, app_error, session_snapshot) task" where
  "navigate_task m client command =
     await_then (step_of (begin_navigate m client command)) (\<lambda>_.
     await_then (step_of (session_op (br_navigate (sm_browser m) command))) (\<lambda>_.
       settle (case command of
                 Navigate u \<Rightarrow>
                   and_then (update_snapshot (\<lambda>n. n\<lparr>sn_url := Some u\<rparr>)) (\<lambda>_. push_history u)
               | _ \<Rightarrow> ret ()) ''session.navigation''))"

definition begin_switch :: "uuid \<Rightarrow> ('b sess, app_error, url \<times> session_snapshot) op" where
  "begin_switch client =
     and_then (ensure_controller client) (\<lambda>_.
     and_then (update_snapshot (\<lambda>n. n\<lparr>sn_phase := Burning\<rparr>)) (\<lambda>_.
     and_then get_snapshot (\<lambda>n.
       case sn_url n of None \<Rightarrow> raise SessionNotActive | Some u \<Rightarrow> ret (u, n))))"

definition try_switch_task ::
  "'b session_manager \<Rightarrow> uuid \<Rightarrow> url \<Rightarrow> stream_profile \<Rightarrow> egress_mode \<Rightarrow> ('b sess, app_error, unit) task" where
  "try_switch_task m new_id u profile mode =
     await_then (step_of (session_op (br_stop (sm_browser m)))) (\<lambda>_.
     await_then (step_of (session_op (eg_reset (sm_egress m)))) (\<lambda>_.
     await_then (step_of (clear_session_dir m ''session cleanup'')) (\<lambda>_.
     await_then (step_of (session_op (eg_apply (sm_egress m) mode))) (\<lambda>_.
       step_of (session_op (br_start (sm_browser m) new_id u profile mode))))))"

definition try_rollback_task ::
  "'b session_manager \<Rightarrow> uuid \<Rightarrow> url \<Rightarrow> stream_profile \<Rightarrow> egress_mode \<Rightarrow> ('b sess, app_error, unit) task" where
  "try_rollback_task m rollback_id u profile previous =
     await_then (await_result (step_of (session_op (br_stop (sm_browser m))))) (\<lambda>_.
     await_then (step_of (session_op (eg_reset (sm_egress m)))) (\<lambda>_.
     await_then (step_of (clear_session_dir m ''rollback cleanup'')) (\<lambda>_.
     await_then (step_of (session_op (eg_apply (sm_egress m) previous))) (\<lambda>_.
       step_of (session_op (br_start (sm_browser m) rollback_id u profile previous))))))"

definition rolled_back :: "uuid \<Rightarrow> url \<Rightarrow> egress_mode \<Rightarrow> ('b sess, app_error, unit) op" where
  "rolled_back rollback_id u previous =
     and_then clear_history (\<lambda>_.
     and_then (update_snapshot (\<lambda>n. n\<lparr>sn_id := Some rollback_id, sn_phase := Active, sn_egress := previous\<rparr>)) (\<lambda>_.
     and_then stamp_started (\<lambda>_.
     and_then (update_snapshot (\<lambda>n. n\<lparr>sn_failure := None\<rparr>)) (\<lambda>_.
     and_then (push_history u) (\<lambda>_. touch)))))"

definition finish_rollback_task ::
  "'b session_manager \<Rightarrow> url \<Rightarrow> stream_profile \<Rightarrow> egress_mode \<Rightarrow> app_error \<Rightarrow>
     ('b sess, app_error, session_snapshot) task" where
  "finish_rollback_task m u profile previous switch_error =
     await_then (step_of (session_op new_v4)) (\<lambda>rollback_id.
     await_then (await_result (try_rollback_task m rollback_id u profile previous)) (\<lambda>rolled.
       case rolled of
         Inl rollback_error \<Rightarrow>
           let message = ''egress switch failed: '' @ error_text switch_error @
             ''; rollback failed: '' @ error_text rollback_error
           in await_then (settle (and_then clear_history (\<lambda>_.
                  update_snapshot (\<lambda>n. n\<lparr>sn_phase := Failed, sn_failure := Some message\<rparr>))) ''egress.failed'')
                (\<lambda>_. Finished (Inl (ServiceUnavailable message)))
       | Inr _ \<Rightarrow>
           await_then (settle (rolled_back rollback_id u previous) ''egress.rolled_back'') (\<lambda>_.
             Finished (Inl (ServiceUnavailable (''egress switch failed and was rolled back: '' @
               error_text switch_error))))))"

definition switched :: "uuid \<Rightarrow> url \<Rightarrow> egress_mode \<Rightarrow> ('b sess, app_error, unit) op" where
  "switched new_id u mode =
     and_then (update_snapshot (\<lambda>n. n\<lparr>sn_id := Some new_id, sn_egress := mode, sn_phase := Active\<rparr>)) (\<lambda>_.
     and_then stamp_started (\<lambda>_.
     and_then clear_history (\<lambda>_.
     and_then (push_history u) (\<lambda>_. touch))))"

definition switch_task ::
  "'b session_manager \<Rightarrow> uuid \<Rightarrow> egress_mode \<Rightarrow> ('b sess, app_error, session_snapshot) task" where
  "switch_task m client mode =
     await_then (step_of (begin_switch client)) (\<lambda>(u, n).
     await_then (publish_task ''egress.switching'') (\<lambda>_.
     await_then (step_of (session_op new_v4)) (\<lambda>new_id.
     await_then (await_result (try_switch_task m new_id u (sn_stream_profile n) mode)) (\<lambda>tried.
       case tried of
         Inl switch_error \<Rightarrow> finish_rollback_task m u (sn_stream_profile n) (sn_egress n) switch_error
       | Inr _ \<Rightarrow> settle (switched new_id u mode) ''egress.active''))))"

text \<open>
  One task per operation that \<open>AppState\<close> runs under its lifecycle lock; the others, which run without it,
  are what may come between the steps.
\<close>

datatype locked_call =
    Start uuid url
  | Burn uuid
  | ForceBurn
  | Visit uuid navigation_command
  | Switch uuid egress_mode

fun task_of :: "'b session_manager \<Rightarrow> locked_call \<Rightarrow> ('b sess, app_error, session_snapshot) task" where
  "task_of m (Start c u) = start_task m c u"
| "task_of m (Burn c) =
     await_then (step_of (and_then (gets ss_data) (\<lambda>d. from_result (ensure_lease c d)))) (\<lambda>_. burn_task m)"
| "task_of m ForceBurn = burn_task m"
| "task_of m (Visit c cmd) = navigate_task m c cmd"
| "task_of m (Switch c mode) = switch_task m c mode"

fun in_one_go :: "'b session_manager \<Rightarrow> locked_call \<Rightarrow> ('b sess, app_error, session_snapshot) op" where
  "in_one_go m (Start c u) = start m c u"
| "in_one_go m (Burn c) = burn m c"
| "in_one_go m ForceBurn = force_burn m"
| "in_one_go m (Visit c cmd) = navigate m c cmd"
| "in_one_go m (Switch c mode) = switch_egress m c mode"

section \<open>In one go they are the operations\<close>

lemma run_publish_task [simp]: "run (publish_task event) = publish event"
  by (simp add: publish_task_def fun_eq_iff publish_def send_event_def get_snapshot_def op_defs)

lemma run_settle [simp]:
  "run (settle block event) = and_then block (\<lambda>_. and_then (publish event) (\<lambda>_. get_snapshot))"
  by (simp add: settle_def fun_eq_iff publish_def send_event_def get_snapshot_def op_defs split: prod.splits sum.splits)

lemma then_get: "and_then (publish e) (\<lambda>_. and_then get_snapshot (\<lambda>_. m)) = and_then (publish e) (\<lambda>_. m)"
  by (simp add: fun_eq_iff publish_def get_snapshot_def op_defs)

lemma if_and_then: "(if b then and_then m f else and_then m g) = and_then m (\<lambda>x. if b then f x else g x)"
  by simp

lemmas run_task = and_then_assoc then_get sum.case_distrib [of run] option.case_distrib [of run] if_distrib [of run]

lemma run_fail_task [simp]: "run (fail_task message) = fail message"
  by (simp add: fail_task_def fail_def run_task)

lemma run_start_task: "run (start_task m c u) = start m c u"
  unfolding start_task_def start_def
  by (simp add: split_def run_task cong: sum.case_cong)

lemma run_burn_task: "run (burn_task m) = burn_unchecked m"
  unfolding burn_task_def burn_unchecked_def begin_burn_def wipe_def
  by (simp add: run_task Let_def if_distrib [where f = "\<lambda>x. and_then x _"] if_and_then cong: if_cong)

lemma run_navigate_task: "run (navigate_task m c cmd) = navigate m c cmd"
  unfolding navigate_task_def navigate_def begin_navigate_def by (simp add: run_task)

lemma run_try_tasks [simp]:
  "run (try_switch_task m i u p mode) = try_switch m i u p mode"
  "run (try_rollback_task m i u p mode) = try_rollback m i u p mode"
  by (simp_all add: try_switch_task_def try_switch_def try_rollback_task_def try_rollback_def)

lemma run_finish_rollback [simp]: "run (finish_rollback_task m u p previous e) = finish_rollback m u p previous e"
  unfolding finish_rollback_task_def finish_rollback_def rolled_back_def
  by (simp add: run_task Let_def cong: sum.case_cong del: append_Cons)
    (intro arg_cong [where f = "and_then _"] ext, simp split: sum.split)

lemma run_switch_task: "run (switch_task m c mode) = switch_egress m c mode"
proof -
  have start: "and_then (begin_switch c) f = and_then (ensure_controller c) (\<lambda>_.
     and_then (update_snapshot (\<lambda>n. n\<lparr>sn_phase := Burning\<rparr>)) (\<lambda>_.
     and_then get_snapshot (\<lambda>n.
     and_then (case sn_url n of None \<Rightarrow> raise SessionNotActive | Some u \<Rightarrow> ret u) (\<lambda>u. f (u, n)))))" for f
    unfolding begin_switch_def and_then_assoc
    by (intro arg_cong [where f = "and_then _"] ext) (simp split: option.split)
  show ?thesis
    unfolding switch_task_def switch_egress_def switched_def
    by (simp add: start run_task cong: sum.case_cong)
qed

lemma tasks_run_to_operations: "run (task_of m call) = in_one_go m call"
  by (cases call) (simp_all add: run_start_task run_burn_task run_navigate_task run_switch_task burn_def force_burn_def
      and_then_assoc)

section \<open>How many steps\<close>

text \<open>One step and then a task of so many.\<close>

lemma one_more: "(\<And>a. steps_within (f a) n) \<Longrightarrow> steps_within (await_then (step_of m) f) (Suc n)"
  using steps_within_then [of "step_of m" 1 f n] by simp

lemma try_one_more: "(\<And>a. steps_within (f a) n) \<Longrightarrow> steps_within (await_then (await_result (step_of m)) f) (Suc n)"
  using steps_within_then [OF steps_within_result, of "step_of m" 1 f n] by simp

lemma publish_takes_two:
  assumes "\<And>a. steps_within (f a) n"
  shows "steps_within (await_then (publish_task e) f) (Suc (Suc n))"
proof -
  have "steps_within (publish_task e) (Suc (Suc 0))" unfolding publish_task_def by (intro one_more) simp
  from steps_within_then [OF this assms] show ?thesis by simp
qed

lemma settle_steps: "steps_within (settle b e) (Suc (Suc n))"
  unfolding settle_def by (intro one_more) simp

lemma settle_then_steps: "steps_within (await_then (settle b e) (\<lambda>_. Finished r)) (Suc (Suc n))"
  by (rule steps_within_then [of "settle b e" "Suc (Suc n)" _ 0, simplified], rule settle_steps, simp)

lemma fail_steps: "steps_within (fail_task x) (Suc (Suc n))"
  unfolding fail_task_def by (rule settle_then_steps)

lemma try_steps:
  assumes "\<And>a. steps_within (f a) n"
  shows "steps_within (await_then (await_result (try_switch_task m i u p e)) f) (Suc (Suc (Suc (Suc (Suc n)))))"
    and "steps_within (await_then (await_result (try_rollback_task m i u p e)) f) (Suc (Suc (Suc (Suc (Suc n)))))"
proof -
  have "steps_within (try_switch_task m i u p e) (Suc (Suc (Suc (Suc (Suc 0)))))"
    "steps_within (try_rollback_task m i u p e) (Suc (Suc (Suc (Suc (Suc 0)))))"
    unfolding try_switch_task_def try_rollback_task_def by (intro one_more try_one_more steps_within_step_of)+
  from this [THEN steps_within_result, THEN steps_within_then, OF assms]
  show "steps_within (await_then (await_result (try_switch_task m i u p e)) f) (Suc (Suc (Suc (Suc (Suc n)))))"
    "steps_within (await_then (await_result (try_rollback_task m i u p e)) f) (Suc (Suc (Suc (Suc (Suc n)))))"
    by simp_all
qed

lemmas step_counts = one_more try_one_more publish_takes_two settle_steps settle_then_steps fail_steps try_steps

lemma operations_end: "steps_within (task_of m call) 17"
proof -
  have "steps_within (task_of m call) (Suc (Suc (Suc (Suc (Suc (Suc (Suc (Suc (Suc (Suc (Suc (Suc (Suc (Suc
      (Suc (Suc (Suc 0)))))))))))))))))"
    by (cases call)
      (auto simp: start_task_def burn_task_def navigate_task_def switch_task_def finish_rollback_task_def Let_def
        split: prod.split sum.split option.split intro!: step_counts)
  then show ?thesis by (simp add: eval_nat_numeral)
qed


end
