(* ===== verification/SessionInterleaving.thy ===== *)
theory SessionInterleaving
  imports Conformance SessionSteps
begin

text \<open>
  The steps of theory SessionSteps among those of other tasks: what may come between two steps of one
  locked operation, and what holds at every pause, also of an operation dropped there. The contract of
  theory Conformance is kept at each of them.
\<close>

section \<open>What may come between two steps\<close>

text \<open>
  What runs without the lifecycle lock: the three settings, which only a client with an active lease can
  change, reading, everything on the pairing side, the helpers on their own, time.
\<close>

definition same_but_settings :: "session_data \<Rightarrow> session_data \<Rightarrow> bool" where
  "same_but_settings d d' \<longleftrightarrow> (\<exists>p b n t. d' = d\<lparr>sd_snapshot := (sd_snapshot d)\<lparr>sn_stream_profile := p,
     sn_blocklist_enabled := b, sn_auto_burn_seconds := n\<rparr>, sd_last_activity := t\<rparr>)"

definition lock_free :: "('b \<Rightarrow> 'b \<Rightarrow> bool) \<Rightarrow> 'b sess \<Rightarrow> 'b sess \<Rightarrow> bool" where
  "lock_free drift s s' \<longleftrightarrow> drift (m_helpers (ss_mach s)) (m_helpers (ss_mach s')) \<and>
     (if sn_phase (sd_snapshot (ss_data s)) = Active then same_but_settings (ss_data s) (ss_data s')
      else ss_data s' = ss_data s)"

lemma same_but_settings_refl [simp]: "same_but_settings d d"
  unfolding same_but_settings_def
  by (rule exI [of _ "sn_stream_profile (sd_snapshot d)"], rule exI [of _ "sn_blocklist_enabled (sd_snapshot d)"],
      rule exI [of _ "sn_auto_burn_seconds (sd_snapshot d)"], rule exI [of _ "sd_last_activity d"]) simp

lemma same_but_settings_fields:
  "same_but_settings d d' \<Longrightarrow> sn_phase (sd_snapshot d') = sn_phase (sd_snapshot d) \<and>
     sn_egress (sd_snapshot d') = sn_egress (sd_snapshot d) \<and> sd_controller d' = sd_controller d \<and>
     sd_history d' = sd_history d \<and> sn_url (sd_snapshot d') = sn_url (sd_snapshot d) \<and>
     sn_id (sd_snapshot d') = sn_id (sd_snapshot d)"
  by (auto simp: same_but_settings_def)

lemma lock_free_fields:
  assumes "lock_free drift s s'"
  shows "sn_phase (sd_snapshot (ss_data s')) = sn_phase (sd_snapshot (ss_data s))"
    and "sn_egress (sd_snapshot (ss_data s')) = sn_egress (sd_snapshot (ss_data s))"
    and "drift (m_helpers (ss_mach s)) (m_helpers (ss_mach s'))"
  using assms same_but_settings_fields by (auto simp: lock_free_def split: if_splits)

text \<open>The settings of \<open>SessionManager\<close>, by any client, are such steps, and so are a new clock or disk.\<close>

fun setting :: "'b session_call \<Rightarrow> bool" where
  "setting (SSetProfile _ _) = True"
| "setting (SSetBlocklist _ _) = True"
| "setting (SSetAutoBurn _ _) = True"
| "setting _ = False"

lemma same_but_settings_sets:
  "same_but_settings d (d\<lparr>sd_snapshot := (sd_snapshot d)\<lparr>sn_stream_profile := p\<rparr>, sd_last_activity := t\<rparr>)"
  "same_but_settings d (d\<lparr>sd_snapshot := (sd_snapshot d)\<lparr>sn_blocklist_enabled := b\<rparr>, sd_last_activity := t\<rparr>)"
  "same_but_settings d (d\<lparr>sd_snapshot := (sd_snapshot d)\<lparr>sn_auto_burn_seconds := n\<rparr>, sd_last_activity := t\<rparr>)"
  unfolding same_but_settings_def
  by (rule exI [of _ p], rule exI [of _ "sn_blocklist_enabled (sd_snapshot d)"],
      rule exI [of _ "sn_auto_burn_seconds (sd_snapshot d)"], rule exI [of _ t], simp)
    (rule exI [of _ "sn_stream_profile (sd_snapshot d)"], rule exI [of _ b],
      rule exI [of _ "sn_auto_burn_seconds (sd_snapshot d)"], rule exI [of _ t], simp,
     rule exI [of _ "sn_stream_profile (sd_snapshot d)"], rule exI [of _ "sn_blocklist_enabled (sd_snapshot d)"],
      rule exI [of _ n], rule exI [of _ t], simp)

lemma setting_lock_free:
  assumes "setting c" and "drift (m_helpers (ss_mach s)) (m_helpers (ss_mach s))"
  shows "lock_free drift s (session_exec m c s)"
proof -
  have "wp (change_setting cl f e) (\<lambda>r s'. lock_free drift s s') s"
    if "\<And>d t. same_but_settings d (d\<lparr>sd_snapshot := f (sd_snapshot d), sd_last_activity := t\<rparr>)" for cl f e
    unfolding change_setting_def using assms(2) that
    by (auto simp: wp_rules lock_free_def holds_active_def)
  then show ?thesis
    using assms same_but_settings_sets
    by (cases c) (auto simp: set_stream_profile_def set_blocklist_enabled_def set_auto_burn_seconds_def wp_snd
        raise_def lock_free_def)
qed

lemma machine_lock_free:
  "drift (m_helpers (ss_mach s)) (m_helpers h) \<Longrightarrow> lock_free drift s (s\<lparr>ss_mach := h\<rparr>)"
  by (simp add: lock_free_def)

section \<open>The contract at every step\<close>

context backend_pair begin

lemma lock_free_conforming: "conforming s \<Longrightarrow> lock_free harmless s s' \<Longrightarrow> conforming s'"
  using lock_free_fields [of harmless s s'] by (auto simp: conforming_def harmless_def within_def)

lemma conforming_events [simp]: "conforming (s\<lparr>ss_events := es\<rparr>) = conforming s"
  by (simp add: conforming_def)

text \<open>While an operation is under way, neither active nor idle.\<close>

definition underway :: "'b sess \<Rightarrow> bool" where
  "underway s \<longleftrightarrow> invar (m_helpers (ss_mach s)) \<and> sn_phase (sd_snapshot (ss_data s)) \<notin> {Active, Idle}"

lemma underway_conforming: "underway s \<Longrightarrow> conforming s"
  by (simp add: underway_def conforming_def)

lemma underway_lock_free:
  "underway s \<Longrightarrow> lock_free harmless s s' \<Longrightarrow> underway s' \<and> ss_data s' = ss_data s \<and>
     harmless (m_helpers (ss_mach s)) (m_helpers (ss_mach s'))"
  by (auto simp: underway_def lock_free_def harmless_def)

lemma harmless_within: "harmless b b' \<Longrightarrow> within e b \<Longrightarrow> within e b'"
  by (auto simp: harmless_def within_def)

abbreviation "keeping \<equiv> along (lock_free harmless) conforming"

text \<open>A later moment of the same operation, the data untouched.\<close>

definition later :: "'b sess \<Rightarrow> 'b sess \<Rightarrow> bool" where
  "later s s' \<longleftrightarrow> underway s' \<and> ss_data s' = ss_data s \<and> harmless (m_helpers (ss_mach s)) (m_helpers (ss_mach s'))"

lemma harmless_trans: "harmless a b \<Longrightarrow> harmless b c \<Longrightarrow> harmless a c"
  by (auto simp: harmless_def)

lemma later_trans: "later s t \<Longrightarrow> later t u \<Longrightarrow> later s u"
  using harmless_trans by (auto simp: later_def)

lemma later_underway: "later s s' \<Longrightarrow> underway s'"
  by (simp add: later_def)

lemma keeping_step:
  assumes "underway s" and "\<And>s'. later s s' \<Longrightarrow> wp n Q s'"
  shows "keeping (step_of n) Q s"
  using assms underway_lock_free by (auto simp: along_step_of underway_conforming later_def)

lemma keeping_settle:
  assumes "conforming s" and "\<And>s'. lock_free harmless s s' \<Longrightarrow> conforming s' \<Longrightarrow>
     wp block (\<lambda>r t. conforming t \<and> r \<in> range Inr) s'"
  shows "keeping (settle block event) (\<lambda>r s'. conforming s') s"
  unfolding settle_def along_await_then along_step_of wp_and_then
  by (intro conjI allI impI assms(1), erule lock_free_conforming [OF assms(1)],
      rule wp_mono [OF assms(2)], assumption, erule lock_free_conforming [OF assms(1)])
    (auto simp: wp_rules send_event_def along_rules split: sum.splits intro: lock_free_conforming)

lemma settle_later:
  assumes "underway s" and "\<And>s'. later s s' \<Longrightarrow> wp block (\<lambda>r t. conforming t \<and> r \<in> range Inr) s'"
  shows "keeping (settle block event) (\<lambda>r s'. conforming s') s"
  using assms underway_lock_free by (intro keeping_settle underway_conforming) (auto simp: later_def)

lemma settle_error:
  "keeping (settle block event) (\<lambda>r s'. conforming s') s \<Longrightarrow>
     keeping (await_then (settle block event) (\<lambda>_. Finished (Inl e))) (\<lambda>r s'. conforming s') s"
  by (auto simp: along_rules elim!: along_mono split: sum.splits)

lemma keeping_fail: "underway s \<Longrightarrow> keeping (fail_task message) (\<lambda>r s'. conforming s') s"
  unfolding fail_task_def
  by (rule settle_error, rule settle_later) (auto simp: wp_rules later_def underway_def conforming_def)

lemma keeping_publish:
  assumes "underway s" and "\<And>s'. later s s' \<Longrightarrow> Q (Inr ()) s'"
  shows "keeping (publish_task event) Q s"
proof -
  have "later s t \<Longrightarrow> later t u \<Longrightarrow> later s (u\<lparr>ss_events := es\<rparr>)" for t u es
    using later_trans [of s t u] by (auto simp: later_def underway_def)
  with assms(2) show ?thesis
    unfolding publish_task_def along_await_then
    by (intro keeping_step [OF assms(1)])
      (auto simp: wp_rules send_event_def dest: later_underway intro!: keeping_step)
qed

text \<open>The calls of the helpers: what is known after them.\<close>

lemma later_mach:
  "later s s' \<Longrightarrow> invar (m_helpers h) \<Longrightarrow> underway (s'\<lparr>ss_mach := h\<rparr>) \<and> ss_data (s'\<lparr>ss_mach := h\<rparr>) = ss_data s"
  by (auto simp: later_def underway_def)

lemma later_invar: "later s s' \<Longrightarrow> invar (m_helpers (ss_mach s'))"
  by (simp add: later_def underway_def)

lemma keeping_call:
  assumes "underway s" and "\<And>h. invar (m_helpers h) \<Longrightarrow> invar (m_helpers (snd (n h)))"
    and "\<And>s' t. later s s' \<Longrightarrow> underway t \<Longrightarrow> ss_data t = ss_data s \<Longrightarrow> ss_mach t = snd (n (ss_mach s')) \<Longrightarrow>
      Q (fst (n (ss_mach s'))) t"
  shows "keeping (step_of (session_op n)) Q s"
proof (rule keeping_step [OF assms(1)])
  fix s' assume l: "later s s'"
  then have "invar (m_helpers (snd (n (ss_mach s'))))" using assms(2) by (simp add: later_invar)
  from later_mach [OF l this] assms(3) [OF l] show "wp (session_op n) Q s'" by (simp add: wp_session_op)
qed

text \<open>Steps that need no more than that an operation is under way.\<close>

lemma cleanup_steps:
  assumes "underway s"
  shows "wp (stop_browser m) (\<lambda>r t. underway t \<and> ss_data t = ss_data s \<and>
      (\<exists>f. r = Inr f \<and> (f = [] \<longrightarrow> running (m_helpers (ss_mach t)) = None))) s"
    and "wp (reset_egress m) (\<lambda>r t. underway t \<and> ss_data t = ss_data s \<and> r \<in> range Inr \<and>
      running (m_helpers (ss_mach t)) = running (m_helpers (ss_mach s))) s"
    and "wp (clean_session m) (\<lambda>r t. underway t \<and> ss_data t = ss_data s \<and> r \<in> range Inr \<and>
      running (m_helpers (ss_mach t)) = running (m_helpers (ss_mach s))) s"
  using assms by (auto simp: underway_def wp_rules split_def stop_ends reset_runs invars)

lemma keeping_then:
  assumes "underway s" and "\<And>s'. underway s' \<Longrightarrow> wp n (\<lambda>r t. underway t \<and> P r t) s'"
    and "\<And>a t. underway t \<Longrightarrow> P (Inr a) t \<Longrightarrow> keeping (f a) (\<lambda>r s'. conforming s') t"
  shows "keeping (await_then (step_of n) f) (\<lambda>r s'. conforming s') s"
  unfolding along_await_then
  by (rule keeping_step [OF assms(1)], rule wp_mono [OF assms(2)])
    (auto simp: later_underway underway_conforming intro: assms(3) split: sum.splits)

lemma keeping_cleanup_fail:
  assumes "underway s"
  shows "keeping (await_then (step_of (reset_egress m)) (\<lambda>f1. await_then (step_of (clean_session m)) (\<lambda>f2.
    fail_task (g f1 f2)))) (\<lambda>r s'. conforming s') s"
  by (intro keeping_then [where P = "\<lambda>_ _. True"] keeping_fail assms wp_mono [OF cleanup_steps(2)]
      wp_mono [OF cleanup_steps(3)]) auto

subsection \<open>Starting\<close>

text \<open>A browser that has been started for the mode in force, and the state that says so.\<close>

lemma settle_active:
  assumes "underway s" and "within (sn_egress (f (sd_snapshot (ss_data s)))) (m_helpers (ss_mach s))"
    and "\<And>s'. ss_data s' = ss_data s \<Longrightarrow> wp block (\<lambda>r t. r \<in> range Inr \<and> ss_mach t = ss_mach s' \<and>
      sn_phase (sd_snapshot (ss_data t)) = Active \<and>
      sn_egress (sd_snapshot (ss_data t)) = sn_egress (f (sd_snapshot (ss_data s)))) s'"
  shows "keeping (settle block event) (\<lambda>r s'. conforming s') s"
  by (rule settle_later [OF assms(1)], rule wp_mono [OF assms(3)])
    (use assms(2) harmless_within in \<open>auto simp: later_def underway_def intro!: conforming_activeI\<close>)

lemma settle_started:
  assumes "underway s" and "within (sn_egress (sd_snapshot (ss_data s))) (m_helpers (ss_mach s))"
  shows "keeping (settle (and_then (update_snapshot (\<lambda>n. n\<lparr>sn_phase := Active\<rparr>)) (\<lambda>_. push_history u)) event)
    (\<lambda>r s'. conforming s') s"
  by (rule settle_active [where f = id]) (use assms in \<open>simp_all add: wp_rules\<close>)

lemma keeping_br_start:
  assumes "underway s" and "policy (m_helpers (ss_mach s)) = Some e"
    and "\<And>t. underway t \<Longrightarrow> ss_data t = ss_data s \<Longrightarrow> within e (m_helpers (ss_mach t)) \<Longrightarrow> Q (Inr ()) t"
    and "\<And>x t. underway t \<Longrightarrow> ss_data t = ss_data s \<Longrightarrow> Q (Inl x) t"
  shows "keeping (step_of (session_op (br_start (sm_browser m) i u p e))) Q s"
proof (rule keeping_call [OF assms(1) start_invar], assumption)
  fix s' t assume l: "later s s'" and t: "underway t" "ss_data t = ss_data s"
    "ss_mach t = snd (br_start (sm_browser m) i u p e (ss_mach s'))"
  show "Q (fst (br_start (sm_browser m) i u p e (ss_mach s'))) t"
  proof (cases "fst (br_start (sm_browser m) i u p e (ss_mach s'))")
    case (Inr x)
    have "policy (m_helpers (ss_mach s')) = Some e" using l assms(2) by (simp add: later_def harmless_def)
    from start_within [OF later_invar [OF l] this] Inr t have "within e (m_helpers (ss_mach t))" by simp
    with assms(3) [OF t(1,2)] Inr show ?thesis by simp
  qed (simp add: assms(4) [OF t(1,2)])
qed

lemma keeping_apply:
  assumes "underway s"
    and "\<And>x t. underway t \<Longrightarrow> ss_data t = ss_data s \<Longrightarrow> policy (m_helpers (ss_mach t)) = Some e \<Longrightarrow> Q (Inr x) t"
    and "\<And>x t. underway t \<Longrightarrow> ss_data t = ss_data s \<Longrightarrow> Q (Inl x) t"
  shows "keeping (step_of (session_op (eg_apply (sm_egress m) e))) Q s"
proof (rule keeping_call [OF assms(1) apply_invar], assumption)
  fix s' t assume l: "later s s'" and t: "underway t" "ss_data t = ss_data s"
    "ss_mach t = snd (eg_apply (sm_egress m) e (ss_mach s'))"
  show "Q (fst (eg_apply (sm_egress m) e (ss_mach s'))) t"
    using assms(2,3) [OF t(1,2)] apply_sets [OF later_invar [OF l]] t(3)
    by (cases "fst (eg_apply (sm_egress m) e (ss_mach s'))") auto
qed

lemma keeping_cleanups_fail:
  assumes "underway s"
  shows "keeping (await_then (step_of (stop_browser m)) (\<lambda>f1. await_then (step_of (reset_egress m)) (\<lambda>f2.
    await_then (step_of (clean_session m)) (\<lambda>f3. fail_task (g f1 f2 f3))))) (\<lambda>r s'. conforming s') s"
  by (intro keeping_then [where P = "\<lambda>_ _. True"] keeping_cleanup_fail assms wp_mono [OF cleanup_steps(1)]) auto

lemma keeping_seq:
  "keeping t (\<lambda>r. case r of Inl e \<Rightarrow> Q (Inl e) | Inr a \<Rightarrow> keeping (f a) Q) s \<Longrightarrow> keeping (await_then t f) Q s"
  by (simp add: along_await_then)

lemma keeping_try: "keeping t (\<lambda>r. keeping (f r) Q) s \<Longrightarrow> keeping (await_then (await_result t) f) Q s"
  by (simp add: along_await_then along_await_result)

lemma keeping_begun:
  assumes "conforming s"
    and "\<And>s'. lock_free harmless s s' \<Longrightarrow> conforming s' \<Longrightarrow> wp n (\<lambda>r t. case r of Inl e \<Rightarrow> conforming t | Inr a \<Rightarrow> P a t) s'"
    and "\<And>a t. P a t \<Longrightarrow> keeping (f a) (\<lambda>r s'. conforming s') t"
  shows "keeping (await_then (step_of n) f) (\<lambda>r s'. conforming s') s"
  unfolding along_await_then along_step_of
  by (intro conjI allI impI assms(1), erule lock_free_conforming [OF assms(1)],
      rule wp_mono [OF assms(2)], assumption, erule lock_free_conforming [OF assms(1)])
    (auto intro: assms(3) split: sum.splits)

lemma keeping_published:
  "underway s \<Longrightarrow> (\<And>t. later s t \<Longrightarrow> keeping (f ()) Q t) \<Longrightarrow> keeping (await_then (publish_task event) f) Q s"
  by (rule keeping_seq, rule keeping_publish) auto

lemma keeping_start: "conforming s \<Longrightarrow> keeping (start_task m c u) (\<lambda>r s'. conforming s') s"
  unfolding start_task_def
proof (erule keeping_begun [where P = "\<lambda>(i, p, e) t. underway t \<and> sn_egress (sd_snapshot (ss_data t)) = e"], goal_cases)
  case (1 s')
  then show ?case by (auto simp: wp_begin_start Let_def conforming_def underway_def starting_def)
next
  case (2 a t)
  then show ?case
    by (auto simp: later_def split: prod.splits intro!: keeping_published keeping_try keeping_apply keeping_br_start
        keeping_cleanup_fail keeping_cleanups_fail settle_started)
qed

subsection \<open>Burning\<close>

text \<open>No browser runs, unless the stop has left its message among those so far.\<close>

definition halted :: "string list \<Rightarrow> 'b sess \<Rightarrow> bool" where
  "halted messages s \<longleftrightarrow> underway s \<and> (messages = [] \<longrightarrow> running (m_helpers (ss_mach s)) = None)"

lemma halted_later: "halted f s \<Longrightarrow> later s s' \<Longrightarrow> halted f s'"
  by (auto simp: halted_def later_def harmless_def)

lemma keeping_halted:
  assumes "halted f s"
    and "\<And>s'. underway s' \<Longrightarrow> wp n (\<lambda>r t. underway t \<and> ss_data t = ss_data s' \<and> r \<in> range Inr \<and>
      running (m_helpers (ss_mach t)) = running (m_helpers (ss_mach s'))) s'"
    and "\<And>a t. halted f t \<Longrightarrow> keeping (k a) (\<lambda>r s'. conforming s') t"
  shows "keeping (await_then (step_of n) k) (\<lambda>r s'. conforming s') s"
proof (rule keeping_seq, rule keeping_step)
  fix s' assume l: "later s s'"
  from assms(1) halted_later [OF _ l] have "halted f s'" by blast
  then show "wp n (\<lambda>r. case r of Inl e \<Rightarrow> conforming | Inr a \<Rightarrow> keeping (k a) (\<lambda>r. conforming)) s'"
    by (intro wp_mono [OF assms(2) [OF later_underway [OF l]]]) (auto simp: halted_def intro!: assms(3))
qed (use assms(1) in \<open>simp add: halted_def\<close>)

lemma keeping_wipe:
  assumes "halted f s" and "messages = [] \<Longrightarrow> f = []"
  shows "keeping (settle (wipe m messages) event) (\<lambda>r s'. conforming s') s"
proof (rule settle_later)
  fix s' assume "later s s'"
  with assms(1) have "halted f s'" by (rule halted_later)
  with assms(2) show "wp (wipe m messages) (\<lambda>r t. conforming t \<and> r \<in> range Inr) s'"
    by (auto simp: wipe_def wp_rules halted_def underway_def conforming_def)
qed (use assms(1) in \<open>simp add: halted_def\<close>)

lemma keeping_burn: "conforming s \<Longrightarrow> keeping (burn_task m) (\<lambda>r s'. conforming s') s"
  unfolding burn_task_def
proof (erule keeping_begun [where P = "\<lambda>idle t. if idle = None then underway t else conforming t"], goal_cases)
  case (1 s')
  then show ?case by (auto simp: begin_burn_def wp_rules conforming_def underway_def)
next
  case (2 idle t)
  show ?case
  proof (cases idle)
    case None
    with 2 have t: "underway t" by simp
    have stop: "wp (stop_browser m) (\<lambda>r t. underway t \<and> (\<exists>f. r = Inr f \<and> halted f t)) s'" if "underway s'" for s'
      by (rule wp_mono [OF cleanup_steps(1) [OF that]]) (auto simp: halted_def)
    show ?thesis
      unfolding None option.case
      by (rule keeping_published [OF t], rule keeping_then [OF _ stop])
        (auto simp: later_underway Let_def intro!: keeping_halted cleanup_steps settle_error keeping_wipe)
  qed (use 2 in auto)
qed

subsection \<open>Visiting\<close>

lemma keeping_navigate: "conforming s \<Longrightarrow> keeping (navigate_task m c cmd) (\<lambda>r s'. conforming s') s"
  unfolding navigate_task_def
proof (erule keeping_begun [where P = "\<lambda>_ t. conforming t \<and> sn_phase (sd_snapshot (ss_data t)) = Active"], goal_cases)
  case (1 s')
  then show ?case by (cases cmd) (auto simp: begin_navigate_def wp_rules conforming_def holds_active_def)
next
  case (2 a t)
  then have t: "conforming t" and active: "sn_phase (sd_snapshot (ss_data t)) = Active" by simp_all
  have visited: "wp (session_op (br_navigate (sm_browser m) cmd))
      (\<lambda>r t. case r of Inl e \<Rightarrow> conforming t | Inr a \<Rightarrow> conforming t) s'"
    if "lock_free harmless t s'" "conforming s'" for s'
    using lock_free_fields(1) [OF that(1)] that(2) active
    by (auto simp: wp_session_op conforming_def navigate_within invars split: sum.splits)
  show ?case
    by (rule keeping_begun [OF t visited], assumption+, rule keeping_settle, assumption, cases cmd)
      (auto simp: wp_rules conforming_def)
qed

subsection \<open>Switching the egress mode\<close>

text \<open>What both halves of a switch promise, from data they leave alone.\<close>

definition restart :: "egress_mode \<Rightarrow> session_data \<Rightarrow> app_error + unit \<Rightarrow> 'b sess \<Rightarrow> bool" where
  "restart e d r s \<longleftrightarrow> underway s \<and> ss_data s = d \<and> (r = Inr () \<longrightarrow> within e (m_helpers (ss_mach s)))"

lemma keeping_quiet_call:
  assumes "underway s" and "\<And>h. invar (m_helpers h) \<Longrightarrow> invar (m_helpers (snd (n h)))"
    and "\<And>a t. underway t \<Longrightarrow> ss_data t = ss_data s \<Longrightarrow> keeping (f a) (restart e (ss_data s)) t"
  shows "keeping (await_then (step_of (session_op n)) f) (restart e (ss_data s)) s"
  by (rule keeping_seq, rule keeping_call [OF assms(1,2)])
    (auto simp: restart_def assms(3) split: sum.splits)

lemma clear_session_dir_step:
  "underway s \<Longrightarrow> wp (clear_session_dir m label) (\<lambda>r t. underway t \<and> ss_data t = ss_data s) s"
  by (auto simp: clear_session_dir_def wp_rules underway_def)

lemma restart_from_cleanup:
  assumes "underway s" and "ss_data s = d"
  shows "keeping (await_then (step_of (session_op (eg_reset (sm_egress m)))) (\<lambda>_.
     await_then (step_of (clear_session_dir m label)) (\<lambda>_.
     await_then (step_of (session_op (eg_apply (sm_egress m) e))) (\<lambda>_.
       step_of (session_op (br_start (sm_browser m) i u p e)))))) (restart e d) s"
proof -
  have up: "keeping (await_then (step_of (session_op (eg_apply (sm_egress m) e))) (\<lambda>_.
       step_of (session_op (br_start (sm_browser m) i u p e)))) (restart e d) t"
    if "underway t" "ss_data t = d" for t d
    by (rule keeping_seq, rule keeping_apply [OF that(1)])
      (use that(2) in \<open>auto simp: restart_def intro!: keeping_br_start\<close>)
  have cleared: "keeping (await_then (step_of (clear_session_dir m label)) (\<lambda>_.
     await_then (step_of (session_op (eg_apply (sm_egress m) e))) (\<lambda>_.
       step_of (session_op (br_start (sm_browser m) i u p e))))) (restart e d) t"
    if "underway t" "ss_data t = d" for t
    by (rule keeping_seq, rule keeping_step [OF that(1)], rule wp_mono [OF clear_session_dir_step])
      (use that(2) in \<open>auto simp: restart_def later_def intro!: up split: sum.splits\<close>)
  show ?thesis
    unfolding assms(2) [symmetric]
    by (rule keeping_quiet_call [OF assms(1)], erule reset_invar, erule cleared [unfolded assms(2) [symmetric]])
qed

lemma keeping_restart:
  assumes "underway s"
  shows "keeping (try_switch_task m i u p e) (restart e (ss_data s)) s"
    and "keeping (try_rollback_task m i u p e) (restart e (ss_data s)) s"
  unfolding try_switch_task_def try_rollback_task_def
  by (rule keeping_quiet_call [OF assms stop_invar], assumption, rule restart_from_cleanup, assumption+)
    (rule keeping_try, rule keeping_call [OF assms stop_invar], assumption, rule restart_from_cleanup, assumption+)

lemma keeping_new_id:
  assumes "underway s" and "\<And>i t. underway t \<Longrightarrow> ss_data t = ss_data s \<Longrightarrow> keeping (f i) Q t"
  shows "keeping (await_then (step_of (session_op new_v4)) f) Q s"
  by (rule keeping_seq, rule keeping_call [OF assms(1)]) (auto simp: new_v4_def assms(2))

lemma keeping_rollback:
  assumes "underway s"
  shows "keeping (finish_rollback_task m u p previous x) (\<lambda>r s'. conforming s') s"
proof -
  have failed: "keeping (settle (and_then clear_history (\<lambda>_.
      update_snapshot (\<lambda>n. n\<lparr>sn_phase := Failed, sn_failure := Some message\<rparr>))) event) (\<lambda>r s'. conforming s') t"
    if "underway t" for t message event
    by (rule settle_later [OF that]) (auto simp: wp_rules later_def underway_def conforming_def)
  have restored: "keeping (settle (rolled_back i u previous) event) (\<lambda>r s'. conforming s') t"
    if "underway t" "within previous (m_helpers (ss_mach t))" for t i event
    by (rule settle_active [where f = "\<lambda>n. n\<lparr>sn_egress := previous\<rparr>", OF that(1)])
      (use that(2) in \<open>simp_all add: rolled_back_def wp_rules\<close>)
  show ?thesis
    unfolding finish_rollback_task_def
    by (rule keeping_new_id [OF assms], rule keeping_try, rule along_mono [OF keeping_restart(2)])
      (auto simp: restart_def Let_def intro!: settle_error failed restored split: sum.splits)
qed

lemma keeping_switch: "conforming s \<Longrightarrow> keeping (switch_task m c mode) (\<lambda>r s'. conforming s') s"
  unfolding switch_task_def
proof (erule keeping_begun [where P = "\<lambda>_. underway"], goal_cases)
  case (1 s')
  then show ?case
    by (auto simp: begin_switch_def wp_rules conforming_def underway_def holds_active_def split: option.splits)
next
  case (2 a t)
  have new: "keeping (settle (switched i u mode) event) (\<lambda>r s'. conforming s') t"
    if "underway t" "within mode (m_helpers (ss_mach t))" for t i u event
    by (rule settle_active [where f = "\<lambda>n. n\<lparr>sn_egress := mode\<rparr>", OF that(1)])
      (use that(2) in \<open>simp_all add: switched_def wp_rules\<close>)
  have tried: "keeping (await_then (await_result (try_switch_task m i u p mode)) (\<lambda>r. case r of
      Inl e \<Rightarrow> finish_rollback_task m u p previous e | Inr _ \<Rightarrow> settle (switched i u mode) event))
      (\<lambda>r s'. conforming s') t"
    if "underway t" for t i u p previous event
    by (rule keeping_try, rule along_mono [OF keeping_restart(1) [OF that]])
      (auto simp: restart_def intro!: keeping_rollback new split: sum.splits)
  show ?case
    using 2 by (auto simp: later_def split: prod.splits intro!: keeping_published keeping_new_id tried)
qed

theorem keeping_task: "conforming s \<Longrightarrow> keeping (task_of m call) (\<lambda>r s'. conforming s') s"
proof (cases call)
  case (Burn c)
  assume "conforming s"
  then show ?thesis
    unfolding Burn task_of.simps
    by (rule keeping_begun [where P = "\<lambda>_. conforming"]) (auto simp: wp_rules keeping_burn split: sum.splits)
qed (simp_all add: keeping_start keeping_burn keeping_navigate keeping_switch)

end

section \<open>Schedules\<close>

text \<open>What may happen without the lifecycle lock: a setting, or a machine changed as \<open>drift\<close> allows.\<close>

fun free_call :: "('b \<Rightarrow> 'b \<Rightarrow> bool) \<Rightarrow> 'b sess \<Rightarrow> 'b session_call \<Rightarrow> bool" where
  "free_call drift s (SMachine h) = drift (m_helpers (ss_mach s)) (m_helpers h)"
| "free_call drift s c = setting c"

primrec free_calls :: "('b \<Rightarrow> 'b \<Rightarrow> bool) \<Rightarrow> 'b session_manager \<Rightarrow> 'b session_call list \<Rightarrow> 'b sess \<Rightarrow> bool" where
  "free_calls drift m [] s = True"
| "free_calls drift m (c # cs) s = (free_call drift s c \<and> free_calls drift m cs (session_exec m c s))"

text \<open>
  A turn is a call that needs no lock, or a locked operation with the calls others make before each of its
  steps: it is dropped before the step for which there is no such list.
\<close>

datatype 'b turn =
    Free "'b session_call"
  | Locked locked_call "'b session_call list list"

definition others ::
  "'b session_manager \<Rightarrow> 'b session_call list list \<Rightarrow> nat \<Rightarrow> ('b sess \<Rightarrow> 'b sess) option" where
  "others m xs n = (if n < length xs then Some (session_run m (xs ! n)) else None)"

fun take_turn :: "'b session_manager \<Rightarrow> 'b turn \<Rightarrow> 'b sess \<Rightarrow> 'b sess" where
  "take_turn m (Free c) s = session_exec m c s"
| "take_turn m (Locked call xs) s = snd (play (task_of m call) (others m xs) 0 s)"

primrec scheduled :: "'b session_manager \<Rightarrow> 'b turn list \<Rightarrow> 'b sess \<Rightarrow> 'b sess" where
  "scheduled m [] s = s"
| "scheduled m (x # xs) s = scheduled m xs (take_turn m x s)"

fun lawful_turn :: "('b \<Rightarrow> 'b \<Rightarrow> bool) \<Rightarrow> 'b session_manager \<Rightarrow> 'b turn \<Rightarrow> 'b sess \<Rightarrow> bool" where
  "lawful_turn drift m (Free c) s = free_call drift s c"
| "lawful_turn drift m (Locked call xs) s =
     relies (\<lambda>n. free_calls drift m (xs ! n)) (task_of m call) (others m xs) 0 s"

primrec lawful :: "('b \<Rightarrow> 'b \<Rightarrow> bool) \<Rightarrow> 'b session_manager \<Rightarrow> 'b turn list \<Rightarrow> 'b sess \<Rightarrow> bool" where
  "lawful drift m [] s = True"
| "lawful drift m (x # xs) s = (lawful_turn drift m x s \<and> lawful drift m xs (take_turn m x s))"

section \<open>The contract at every pause\<close>

lemma same_but_settings_trans: "same_but_settings a b \<Longrightarrow> same_but_settings b c \<Longrightarrow> same_but_settings a c"
proof -
  assume "same_but_settings a b" and "same_but_settings b c"
  then obtain p e n t where "c = a\<lparr>sd_snapshot := (sd_snapshot a)\<lparr>sn_stream_profile := p,
      sn_blocklist_enabled := e, sn_auto_burn_seconds := n\<rparr>, sd_last_activity := t\<rparr>"
    by (auto simp: same_but_settings_def)
  then show ?thesis unfolding same_but_settings_def by blast
qed

context backend_pair begin

lemma harmless_refl: "invar b \<Longrightarrow> harmless b b"
  by (auto simp: harmless_def)

lemma lock_free_trans: "lock_free harmless a b \<Longrightarrow> lock_free harmless b c \<Longrightarrow> lock_free harmless a c"
  using lock_free_fields(1) [of harmless a b] harmless_trans same_but_settings_trans
  by (auto simp: lock_free_def split: if_splits)

lemma conforming_invar: "conforming s \<Longrightarrow> invar (m_helpers (ss_mach s))"
  by (simp add: conforming_def)

lemma free_call_lock_free:
  assumes "\<And>b b'. invar b \<Longrightarrow> drift b b' \<Longrightarrow> harmless b b'"
    and "conforming s" and "free_call drift s c"
  shows "lock_free harmless s (session_exec m c s)"
proof (cases "setting c")
  case True
  from setting_lock_free [of c harmless s m, OF this harmless_refl [OF conforming_invar [OF assms(2)]]] show ?thesis .
next
  case False
  with assms(3) obtain h where "c = SMachine h" by (cases c) auto
  with assms show ?thesis by (simp add: machine_lock_free conforming_invar)
qed

lemma free_calls_lock_free:
  assumes "\<And>b b'. invar b \<Longrightarrow> drift b b' \<Longrightarrow> harmless b b'"
  shows "conforming s \<Longrightarrow> free_calls drift m cs s \<Longrightarrow> lock_free harmless s (session_run m cs s)"
proof (induction cs arbitrary: s)
  case Nil
  then show ?case using harmless_refl [OF conforming_invar] by (simp add: lock_free_def)
next
  case (Cons c cs)
  have f: "lock_free harmless s (session_exec m c s)"
    using Cons.prems(2) free_call_lock_free [OF assms Cons.prems(1)] by simp
  from lock_free_trans [OF this Cons.IH [OF lock_free_conforming [OF Cons.prems(1) this]]] Cons.prems(2)
  show ?case by simp
qed

lemma turn_conforming:
  assumes "\<And>b b'. invar b \<Longrightarrow> drift b b' \<Longrightarrow> harmless b b'"
    and "conforming s" and "lawful_turn drift m x s"
  shows "conforming (take_turn m x s)"
proof (cases x)
  case (Free c)
  with assms(3) lock_free_conforming [OF assms(2) free_call_lock_free [OF assms(1,2)]] show ?thesis by simp
next
  case (Locked call xs)
  obtain r s' where p: "play (task_of m call) (others m xs) 0 s = (r, s')" by fastforce
  have "lock_free harmless s (f s)"
    if "others m xs n = Some f" "conforming s" "free_calls drift m (xs ! n) s" for n f s
    using that free_calls_lock_free [OF assms(1) that(2,3)] by (auto simp: others_def split: if_splits)
  then have "case r of None \<Rightarrow> conforming s' | Some x \<Rightarrow> conforming s'"
    using assms(3) Locked
    by (intro along_sound [where I = conforming and P = "\<lambda>n. free_calls drift m (xs ! n)" and R = "lock_free harmless",
        OF _ keeping_task [OF assms(2)] _ p]) auto
  then show ?thesis by (cases r) (simp_all add: Locked p)
qed

lemma schedule_conforming:
  assumes "\<And>b b'. invar b \<Longrightarrow> drift b b' \<Longrightarrow> harmless b b'"
  shows "conforming s \<Longrightarrow> lawful drift m xs s \<Longrightarrow> conforming (scheduled m xs s)"
proof (induction xs arbitrary: s)
  case (Cons x xs)
  have "conforming (take_turn m x s)"
    using Cons.prems(2) turn_conforming [OF assms Cons.prems(1)] by simp
  with Cons show ?case by simp
qed simp

end

section \<open>Operations nobody disturbs\<close>

text \<open>An operation nobody gets in the way of.\<close>

lemma replicate_others: "i < n \<Longrightarrow> others m (replicate n []) i = Some id"
  by (auto simp: others_def fun_eq_iff)

lemma undisturbed: "take_turn m (Locked call (replicate 17 [])) s = snd (in_one_go m call s)"
  using play_undisturbed [OF operations_end, of 0 "others m (replicate 17 [])" m call s]
  by (simp add: replicate_others tasks_run_to_operations)

lemma relies_bounded:
  "(\<And>i s. env i \<noteq> None \<Longrightarrow> P i s) \<Longrightarrow> relies P t env n s"
  by (induction t arbitrary: n s) (auto split: option.splits)

lemma undisturbed_lawful:
  assumes "set xs \<subseteq> {[]}"
  shows "lawful_turn drift m (Locked call xs) s"
proof -
  have "xs ! i = []" if "i < length xs" for i using assms nth_mem [OF that] by blast
  then show ?thesis by (auto simp: others_def split: if_splits intro!: relies_bounded)
qed

text \<open>A visit dropped before its helper call.\<close>

lemma dropped_visit: "take_turn m (Locked (Visit c cmd) [[]]) s = snd (begin_navigate m c cmd s)"
  by (simp add: navigate_task_def await_then_def step_of_def others_def split: sum.split)

lemma visit_begun:
  "wp (begin_navigate m c cmd) (\<lambda>r t. sn_phase (sd_snapshot (ss_data t)) = sn_phase (sd_snapshot (ss_data s)) \<and>
     sn_egress (sd_snapshot (ss_data t)) = sn_egress (sd_snapshot (ss_data s))) s"
  by (cases cmd) (auto simp: begin_navigate_def wp_rules)

end
