(* ===== verification/DroppedRequests.thy ===== *)
theory DroppedRequests
  imports EndToEnd SessionInterleaving
begin

text \<open>
  The session layer when its operations run step by step: other requests in between, requests dropped
  where they wait.
\<close>

section \<open>The whole daemon, at every pause\<close>

context deployment begin

lemma schedule_conforms:
  assumes "net_reachable (lk_net lk) (hp_net (m_helpers h))"
    and "bw_pipeline (hp_browser (m_helpers h)) = pipeline_default"
    and "lawful helpers_drift (real_manager lk dir egress profile secs bl) xs
      (session_new (real_manager lk dir egress profile secs bl) h)"
  shows "real.conforming (scheduled (real_manager lk dir egress profile secs bl) xs
      (session_new (real_manager lk dir egress profile secs bl) h))"
  by (rule real.schedule_conforming [OF _ fresh_conforming [OF assms(1,2)] assms(3)]) (rule drift_harmless)

end



end
