(* ===== verification/AbandonedStart.thy ===== *)
theory AbandonedStart
  imports DroppedRequests AppTrace
begin

text \<open>What becomes of a session whose start was dropped.\<close>

section \<open>Stuck\<close>

definition stuck :: "uuid \<Rightarrow> 'b sess \<Rightarrow> bool" where
  "stuck c s \<longleftrightarrow> sn_phase (sd_snapshot (ss_data s)) = Starting \<and> sd_controller (ss_data s) = Some c"

text \<open>The turns that end it: a burn by the client that holds the lease, or one that asks nobody.\<close>

fun burns :: "uuid \<Rightarrow> 'b turn \<Rightarrow> bool" where
  "burns c (Locked (Burn c') xs) = (c' = c)"
| "burns c (Locked ForceBurn xs) = True"
| "burns c x = False"

lemma stuck_free_call:
  "stuck c s \<Longrightarrow> free_call (\<lambda>_ _. True) s x \<Longrightarrow> stuck c (session_exec m x s)"
  using setting_lock_free [of x "\<lambda>_ _. True" s m] by (cases x) (auto simp: stuck_def lock_free_def)

lemma stuck_free_calls:
  "stuck c s \<Longrightarrow> free_calls (\<lambda>_ _. True) m xs s \<Longrightarrow> stuck c (session_run m xs s)"
  by (induction xs arbitrary: s) (auto intro: stuck_free_call)

lemma stuck_operation:
  assumes "stuck c s" and "\<not> burns c (Locked call xs)"
  shows "along (\<lambda>s s'. stuck c s') (stuck c) (task_of m call) (\<lambda>r. stuck c) s"
  using assms
  by (cases call) (auto simp: start_task_def navigate_task_def switch_task_def along_rules wp_rules Let_def begin_navigate_def
      begin_switch_def stuck_def holds_active_def ensure_lease_def)

lemma stuck_turn:
  assumes "stuck c s" and "\<not> burns c x" and "lawful_turn (\<lambda>_ _. True) m x s"
  shows "stuck c (take_turn m x s)"
proof (cases x)
  case (Locked call xs)
  obtain r s' where p: "play (task_of m call) (others m xs) 0 s = (r, s')" by fastforce
  have "case r of None \<Rightarrow> stuck c s' | Some x \<Rightarrow> stuck c s'"
    by (rule along_sound [where I = "stuck c" and P = "\<lambda>n. free_calls (\<lambda>_ _. True) m (xs ! n)",
        OF _ stuck_operation [OF assms(1) assms(2) [unfolded Locked]] _ p])
      (use assms(3) Locked in \<open>auto simp: others_def stuck_free_calls split: if_splits\<close>)
  then show ?thesis by (cases r) (simp_all add: Locked p)
qed (use assms stuck_free_call in simp)

lemma stuck_schedule:
  "stuck c s \<Longrightarrow> lawful (\<lambda>_ _. True) m xs s \<Longrightarrow> \<forall>x \<in> set xs. \<not> burns c x \<Longrightarrow> stuck c (scheduled m xs s)"
  by (induction xs arbitrary: s) (auto simp: stuck_turn simp del: lawful_turn.simps take_turn.simps)

lemma dropped_start:
  assumes "sn_phase (sd_snapshot (ss_data s)) \<in> {Idle, Failed}"
    and "\<not> blocked m u (sn_blocklist_enabled (sd_snapshot (ss_data s)))" and "lease_free c (ss_data s)"
  shows "stuck c (take_turn m (Locked (Start c u) [[]]) s)"
proof -
  have "wp (begin_start m c u) (\<lambda>r t. stuck c t) s"
    using assms by (auto simp: wp_begin_start Let_def starting_def stuck_def)
  then show ?thesis
    by (simp add: start_task_def await_then_def step_of_def others_def wp_snd publish_task_def split: sum.split prod.split)
qed



end
