(* ===== verification/PauseInvariant.thy ===== *)
theory PauseInvariant
  imports SessionInterleaving SessionProps
begin

text \<open>
  What is true of the session's data at every pause of every operation, also of one dropped there, and the way
  back from there.
\<close>

section \<open>The invariant\<close>

text \<open>
  As \<open>session_inv\<close>, but with the two phases in which an operation may have been left. One left starting has
  all an active session needs but its history; one left burning may be anything that was.
\<close>

definition pause_inv :: "'b session_manager \<Rightarrow> session_data \<Rightarrow> bool" where
  "pause_inv m d \<longleftrightarrow>
     (case sn_phase (sd_snapshot d) of
        Idle \<Rightarrow> sd_snapshot d = initial_snapshot m \<and> sd_controller d = None \<and> sd_history d = []
      | Active \<Rightarrow> sn_id (sd_snapshot d) \<noteq> None \<and> sn_started_at (sd_snapshot d) \<noteq> None \<and>
          sn_failure (sd_snapshot d) = None \<and> sn_controller_attached (sd_snapshot d) \<and>
          sd_controller d \<noteq> None \<and> sd_history d \<noteq> [] \<and>
          sn_url (sd_snapshot d) = Some (he_url (last (sd_history d)))
      | Failed \<Rightarrow> sn_failure (sd_snapshot d) \<noteq> None \<and> sd_history d = []
      | Starting \<Rightarrow> sn_id (sd_snapshot d) \<noteq> None \<and> sn_started_at (sd_snapshot d) \<noteq> None \<and>
          sn_failure (sd_snapshot d) = None \<and> sn_controller_attached (sd_snapshot d) \<and>
          sd_controller d \<noteq> None \<and> sd_history d = [] \<and> sn_url (sd_snapshot d) \<noteq> None
      | Burning \<Rightarrow> True) \<and>
     length (sd_history d) \<le> history_capacity \<and>
     (sn_id (sd_snapshot d) \<noteq> None \<longrightarrow> sd_controller d \<noteq> None)"

text \<open>Between operations that were not dropped it is the invariant of theory Session.\<close>

lemma pause_inv_settled:
  "sn_phase (sd_snapshot d) \<notin> {Starting, Burning} \<Longrightarrow> pause_inv m d = session_inv m d"
  by (auto simp: pause_inv_def session_inv_def split: session_phase.split)

lemma session_inv_phase: "session_inv m d \<Longrightarrow> sn_phase (sd_snapshot d) \<notin> {Starting, Burning}"
  by (auto simp: session_inv_def)

lemma session_pause_inv: "session_inv m d \<Longrightarrow> pause_inv m d"
  using pause_inv_settled session_inv_phase by blast

abbreviation paused :: "'b session_manager \<Rightarrow> 'b sess \<Rightarrow> bool" where
  "paused m s \<equiv> pause_inv m (ss_data s)"

abbreviation "holds m \<equiv> along (lock_free (\<lambda>_ _. True)) (paused m)"

lemma lock_free_paused: "paused m s \<Longrightarrow> lock_free (\<lambda>_ _. True) s s' \<Longrightarrow> paused m s'"
  by (auto simp: pause_inv_def lock_free_def same_but_settings_def split: if_splits session_phase.splits)

text \<open>Under way: neither active nor at rest, so that nothing but the operation changes the data.\<close>

abbreviation busy :: "'b session_manager \<Rightarrow> 'b sess \<Rightarrow> bool" where
  "busy m s \<equiv> paused m s \<and> sn_phase (sd_snapshot (ss_data s)) \<in> {Starting, Burning}"

lemma busy_lock_free: "busy m s \<Longrightarrow> lock_free (\<lambda>_ _. True) s s' \<Longrightarrow> ss_data s' = ss_data s"
  by (auto simp: lock_free_def)

lemma quiet_step:
  assumes "busy m s" and "\<And>t. wp n (\<lambda>r t'. ss_data t' = ss_data t) t"
    and "\<And>r t. ss_data t = ss_data s \<Longrightarrow> Q r t"
  shows "holds m (step_of n) Q s"
  unfolding along_step_of
proof (intro conjI allI impI)
  fix s' assume "lock_free (\<lambda>_ _. True) s s'"
  then have d: "ss_data s' = ss_data s" using busy_lock_free [OF assms(1)] by blast
  then show "paused m s'" using assms(1) by simp
  show "wp n Q s'" by (rule wp_mono [OF assms(2)]) (simp add: assms(3) d)
qed (use assms(1) in simp)

lemma data_steps:
  "wp (session_op k) (\<lambda>r t'. ss_data t' = ss_data t) t" "wp (stop_browser m) (\<lambda>r t'. ss_data t' = ss_data t) t"
  "wp (reset_egress m) (\<lambda>r t'. ss_data t' = ss_data t) t" "wp (clean_session m) (\<lambda>r t'. ss_data t' = ss_data t) t"
  "wp (clear_session_dir m l) (\<lambda>r t'. ss_data t' = ss_data t) t" "wp get_snapshot (\<lambda>r t'. ss_data t' = ss_data t) t"
  "wp (send_event e n) (\<lambda>r t'. ss_data t' = ss_data t) t"
  by (auto simp: wp_rules send_event_def split_def)

text \<open>In rules: each leaves the data as they are and goes on, or fails with them.\<close>

lemma holds_seq:
  "holds m t (\<lambda>r. case r of Inl e \<Rightarrow> Q (Inl e) | Inr a \<Rightarrow> holds m (f a) Q) s \<Longrightarrow> holds m (await_then t f) Q s"
  by (simp add: along_await_then)

lemma holds_try: "holds m t (\<lambda>r. holds m (f r) Q) s \<Longrightarrow> holds m (await_then (await_result t) f) Q s"
  by (simp add: along_await_then along_await_result)

lemma quiet_then:
  assumes "busy m s" and "\<And>t. wp n (\<lambda>r t'. ss_data t' = ss_data t) t"
    and "\<And>a t. ss_data t = ss_data s \<Longrightarrow> holds m (f a) Q t" and "\<And>e t. ss_data t = ss_data s \<Longrightarrow> Q (Inl e) t"
  shows "holds m (await_then (step_of n) f) Q s"
  by (rule holds_seq, rule quiet_step [OF assms(1,2)]) (auto split: sum.split intro: assms(3,4))

lemma quiet_try:
  assumes "busy m s" and "\<And>t. wp n (\<lambda>r t'. ss_data t' = ss_data t) t"
    and "\<And>r t. ss_data t = ss_data s \<Longrightarrow> holds m (f r) Q t"
  shows "holds m (await_then (await_result (step_of n)) f) Q s"
  by (rule holds_try, rule quiet_step [OF assms(1,2)]) (rule assms(3))

lemma quiet_publish:
  assumes "busy m s" and "\<And>a t. ss_data t = ss_data s \<Longrightarrow> holds m (f a) Q t" and "\<And>e t. ss_data t = ss_data s \<Longrightarrow> Q (Inl e) t"
  shows "holds m (await_then (publish_task event) f) Q s"
  unfolding publish_task_def
  by (rule holds_seq, rule quiet_then [OF assms(1) data_steps(6)], rule quiet_step [OF _ data_steps(7)])
    (use assms in \<open>auto split: sum.split\<close>)

lemma holds_settle:
  assumes "paused m s"
    and "\<And>s'. lock_free (\<lambda>_ _. True) s s' \<Longrightarrow> paused m s' \<Longrightarrow> wp block (\<lambda>r t. paused m t \<and> r \<in> range Inr) s'"
  shows "holds m (settle block event) (\<lambda>r s'. paused m s') s"
  unfolding settle_def along_await_then along_step_of wp_and_then
  by (intro conjI allI impI assms(1), erule lock_free_paused [OF assms(1)],
      rule wp_mono [OF assms(2)], assumption, erule lock_free_paused [OF assms(1)])
    (auto simp: wp_rules send_event_def along_rules split: sum.splits intro: lock_free_paused)

lemma busy_settle:
  assumes "busy m s" and "\<And>s'. ss_data s' = ss_data s \<Longrightarrow> wp block (\<lambda>r t. paused m t \<and> r \<in> range Inr) s'"
  shows "holds m (settle block event) (\<lambda>r s'. paused m s') s"
  by (rule holds_settle) (use assms busy_lock_free [OF assms(1)] in auto)

lemma busy_settle_error:
  assumes "busy m s" and "\<And>s'. ss_data s' = ss_data s \<Longrightarrow> wp block (\<lambda>r t. paused m t \<and> r \<in> range Inr) s'"
  shows "holds m (await_then (settle block event) (\<lambda>_. Finished (Inl e))) (\<lambda>r s'. paused m s') s"
  by (rule holds_seq, rule along_mono [OF busy_settle [OF assms]]) (auto split: sum.split)

lemma holds_begun:
  assumes "paused m s"
    and "\<And>s'. lock_free (\<lambda>_ _. True) s s' \<Longrightarrow> paused m s' \<Longrightarrow>
      wp n (\<lambda>r t. case r of Inl e \<Rightarrow> paused m t | Inr a \<Rightarrow> P a t) s'"
    and "\<And>a t. P a t \<Longrightarrow> holds m (f a) (\<lambda>r s'. paused m s') t"
  shows "holds m (await_then (step_of n) f) (\<lambda>r s'. paused m s') s"
  unfolding along_await_then along_step_of
  by (intro conjI allI impI assms(1), erule lock_free_paused [OF assms(1)],
      rule wp_mono [OF assms(2)], assumption, erule lock_free_paused [OF assms(1)])
    (auto intro: assms(3) split: sum.splits)

lemmas quiet_rules = quiet_then quiet_try quiet_publish data_steps

section \<open>Every operation keeps it\<close>

lemma start_holds: "paused m s \<Longrightarrow> holds m (start_task m c u) (\<lambda>r s'. paused m s') s"
  unfolding start_task_def
proof (erule holds_begun [where P = "\<lambda>_ t. paused m t \<and> sn_phase (sd_snapshot (ss_data t)) = Starting \<and>
    sn_url (sd_snapshot (ss_data t)) = Some u"], goal_cases)
  case (1 s')
  then show ?case by (auto simp: wp_begin_start Let_def pause_inv_def starting_def split: session_phase.splits)
next
  case (2 a t)
  have failed: "holds m (fail_task x) (\<lambda>r s'. paused m s') v" if "ss_data v = ss_data t" for v x
    unfolding fail_task_def
    by (rule busy_settle_error) (use 2 that in \<open>auto simp: wp_rules pause_inv_def\<close>)
  have active: "holds m (settle (and_then (update_snapshot (\<lambda>n. n\<lparr>sn_phase := Active\<rparr>)) (\<lambda>_. push_history u)) event)
      (\<lambda>r s'. paused m s') w" if "ss_data w = ss_data t" for w event
    by (rule busy_settle) (use 2 that in \<open>auto simp: wp_rules pause_inv_def history_capacity_def\<close>)
  show ?case
    using 2 by (auto split: prod.splits sum.splits intro!: quiet_rules failed active)
qed

lemma burn_holds: "paused m s \<Longrightarrow> holds m (burn_task m) (\<lambda>r s'. paused m s') s"
  unfolding burn_task_def
proof (erule holds_begun [where P = "\<lambda>idle t. paused m t \<and>
    (idle = None \<longrightarrow> sn_phase (sd_snapshot (ss_data t)) = Burning)"], goal_cases)
  case (1 s')
  then show ?case by (auto simp: begin_burn_def wp_rules pause_inv_def split: session_phase.splits)
next
  case (2 idle t)
  have wiped: "wp (wipe m messages) (\<lambda>r t. paused m t \<and> r \<in> range Inr) v" for messages v
    by (auto simp: wipe_def wp_rules pause_inv_def initial_snapshot_def snapshot_default_def)
  show ?case
    using 2 by (cases idle) (auto simp: Let_def intro!: quiet_rules busy_settle busy_settle_error wiped)
qed

lemma visit_holds: "paused m s \<Longrightarrow> holds m (navigate_task m c cmd) (\<lambda>r s'. paused m s') s"
  unfolding navigate_task_def
proof (erule holds_begun [where P = "\<lambda>_ t. paused m t \<and> sn_phase (sd_snapshot (ss_data t)) = Active"], goal_cases)
  case (1 s')
  then show ?case by (cases cmd) (auto simp: begin_navigate_def wp_rules pause_inv_def holds_active_def)
next
  case (2 a t)
  then have t: "paused m t" by blast
  have called: "wp (session_op k) (\<lambda>r v. case r of Inl e \<Rightarrow> paused m v | Inr a \<Rightarrow> paused m v \<and>
      sn_phase (sd_snapshot (ss_data v)) = Active) s'"
    if "lock_free (\<lambda>_ _. True) t s'" "paused m s'" for s' k
    using 2 that lock_free_fields(1) [OF that(1)] by (auto simp: wp_session_op split: sum.split)
  have visited: "wp (case cmd of Navigate u \<Rightarrow>
        and_then (update_snapshot (\<lambda>n. n\<lparr>sn_url := Some u\<rparr>)) (\<lambda>_. push_history u)
      | _ \<Rightarrow> ret ()) (\<lambda>r v. paused m v \<and> r \<in> range Inr) v'"
    if "lock_free (\<lambda>_ _. True) v v'" "paused m v'" "sn_phase (sd_snapshot (ss_data v)) = Active" for v v'
    using that lock_free_fields(1) [OF that(1)]
    by (cases cmd) (auto simp: wp_rules pause_inv_def length_push_entry)
  show ?case
    by (rule holds_begun [OF t called], assumption+, rule holds_settle) (use visited in blast)+
qed

lemma restart_holds:
  assumes "busy m s"
  shows "holds m (try_switch_task m i u p e) (\<lambda>r t. ss_data t = ss_data s) s"
    and "holds m (try_rollback_task m i u p e) (\<lambda>r t. ss_data t = ss_data s) s"
  unfolding try_switch_task_def try_rollback_task_def
  using assms by (auto intro!: quiet_rules quiet_step)

lemma switch_holds: "paused m s \<Longrightarrow> holds m (switch_task m c mode) (\<lambda>r s'. paused m s') s"
  unfolding switch_task_def
proof (erule holds_begun [where P = "\<lambda>a t. paused m t \<and> sn_phase (sd_snapshot (ss_data t)) = Burning \<and>
    sn_started_at (sd_snapshot (ss_data t)) \<noteq> None \<and> sn_failure (sd_snapshot (ss_data t)) = None \<and>
    sn_controller_attached (sd_snapshot (ss_data t)) \<and> sd_controller (ss_data t) \<noteq> None \<and>
    sn_url (sd_snapshot (ss_data t)) = Some (fst a)"], goal_cases)
  case (1 s')
  then show ?case
    by (auto simp: begin_switch_def wp_rules pause_inv_def holds_active_def split: option.splits)
next
  case (2 a t)
  then have busy: "busy m t" by auto
  have failed: "holds m (await_then (settle (and_then clear_history (\<lambda>_.
      update_snapshot (\<lambda>n. n\<lparr>sn_phase := Failed, sn_failure := Some message\<rparr>))) event) (\<lambda>_. Finished (Inl x)))
      (\<lambda>r s'. paused m s') v" if "ss_data v = ss_data t" for v message event x
    by (rule busy_settle_error) (use 2 that in \<open>auto simp: wp_rules pause_inv_def\<close>)
  have back_again: "holds m (await_then (settle (rolled_back i (fst a) previous) event) (\<lambda>_. Finished (Inl x)))
      (\<lambda>r s'. paused m s') v" if "ss_data v = ss_data t" for v i previous event x
    by (rule busy_settle_error) (use 2 that in \<open>auto simp: rolled_back_def wp_rules pause_inv_def history_capacity_def\<close>)
  have done_now: "holds m (settle (switched i (fst a) e) event) (\<lambda>r s'. paused m s') v"
    if "ss_data v = ss_data t" for v i e event
    by (rule busy_settle) (use 2 that in \<open>auto simp: switched_def wp_rules pause_inv_def history_capacity_def\<close>)
  have rolled: "holds m (finish_rollback_task m (fst a) p previous x) (\<lambda>r s'. paused m s') v"
    if "ss_data v = ss_data t" for v p previous x
    unfolding finish_rollback_task_def
    by (rule quiet_then [OF _ data_steps(1)], use busy that in simp, rule holds_try,
        rule along_mono [OF restart_holds(2)])
      (use busy that in \<open>auto simp: Let_def failed back_again split: sum.split\<close>)
  have tried: "holds m (await_then (await_result (try_switch_task m i (fst a) p mode)) (\<lambda>r. case r of
      Inl x \<Rightarrow> finish_rollback_task m (fst a) q previous x | Inr _ \<Rightarrow> settle (switched i (fst a) mode) event))
      (\<lambda>r s'. paused m s') v" if "ss_data v = ss_data t" for v i p q previous event
    by (rule holds_try, rule along_mono [OF restart_holds(1)])
      (use busy that in \<open>auto simp: rolled done_now split: sum.split\<close>)
  show ?case
    using busy tried by (cases a) (auto intro!: quiet_publish quiet_then data_steps)
qed

lemma task_holds: "paused m s \<Longrightarrow> holds m (task_of m call) (\<lambda>r s'. paused m s') s"
proof (cases call)
  case (Burn c)
  assume "paused m s"
  then show ?thesis
    unfolding Burn task_of.simps
    by (rule holds_begun [where P = "\<lambda>_. paused m"]) (auto simp: wp_rules burn_holds split: sum.splits)
qed (simp_all add: start_holds burn_holds visit_holds switch_holds)

section \<open>At every pause\<close>

lemma free_calls_top: "free_calls (\<lambda>_ _. True) m cs s \<Longrightarrow> lock_free (\<lambda>_ _. True) s (session_run m cs s)"
proof (induction cs arbitrary: s)
  case Nil
  then show ?case by (simp add: lock_free_def)
next
  case (Cons x cs)
  have one: "lock_free (\<lambda>_ _. True) s (session_exec m x s)"
    using Cons.prems setting_lock_free [of x "\<lambda>_ _. True" s m] machine_lock_free [of "\<lambda>_ _. True" s]
    by (cases x) simp_all
  have rest: "lock_free (\<lambda>_ _. True) (session_exec m x s) (session_run m cs (session_exec m x s))"
    using Cons.IH Cons.prems by simp
  show ?case
    using one rest lock_free_fields(1) [OF one] same_but_settings_trans
    by (auto simp: lock_free_def split: if_splits)
qed

lemma turn_paused:
  assumes "paused m s" and "lawful_turn (\<lambda>_ _. True) m x s"
  shows "paused m (take_turn m x s)"
proof (cases x)
  case (Free c)
  with assms lock_free_paused [OF assms(1)] free_calls_top [of m "[c]" s] show ?thesis by simp
next
  case (Locked call xs)
  obtain r s' where p: "play (task_of m call) (others m xs) 0 s = (r, s')" by fastforce
  have "case r of None \<Rightarrow> paused m s' | Some x \<Rightarrow> paused m s'"
    using assms(2) Locked free_calls_top
    by (intro along_sound [where I = "paused m" and P = "\<lambda>n. free_calls (\<lambda>_ _. True) m (xs ! n)" and
        R = "lock_free (\<lambda>_ _. True)", OF _ task_holds [OF assms(1)] _ p]) (auto simp: others_def split: if_splits)
  then show ?thesis by (cases r) (simp_all add: Locked p)
qed

lemma schedule_paused:
  "paused m s \<Longrightarrow> lawful (\<lambda>_ _. True) m xs s \<Longrightarrow> paused m (scheduled m xs s)"
  by (induction xs arbitrary: s) (simp_all add: turn_paused del: take_turn.simps lawful_turn.simps)

lemma forced_burn_recovers:
  assumes "paused m s"
  shows "wp (force_burn m) (\<lambda>r t. sd_controller (ss_data t) = None \<and> sd_history (ss_data t) = [] \<and>
    (case r of Inr n \<Rightarrow> n = initial_snapshot m \<and> sd_snapshot (ss_data t) = initial_snapshot m
     | Inl e \<Rightarrow> sn_phase (sd_snapshot (ss_data t)) = Failed \<and> sn_failure (sd_snapshot (ss_data t)) \<noteq> None) \<and>
    session_inv m (ss_data t)) s"
  using assms unfolding force_burn_def burn_unchecked_def
  by (auto simp: wp_rules Let_def pause_inv_def session_inv_def split_def split: sum.splits)

text \<open>
  C14. Consistent at every pause, and never lost. From a fresh session manager let anything happen: locked
  operations run step by step, others' settings and any change of the machine in between, each dropped or not
  wherever it waits. At any moment the session's data are consistent: as between whole operations, but that
  one may have been left starting, with all an active session has except its history, or burning. And at any
  moment a forced burn, as the recovery of expired pairings and the shutdown make it, ends with no lease and
  no history, in a session as new or in one that has failed and says why.
\<close>

theorem consistent_and_recoverable_at_every_pause:
  assumes "lawful (\<lambda>_ _. True) m turns (session_new m h)" and "s = scheduled m turns (session_new m h)"
    and "force_burn m s = (r, s')"
  shows "pause_inv m (ss_data s) \<and> (session_inv m (ss_data s) \<or> sn_phase (sd_snapshot (ss_data s)) \<in> {Starting, Burning}) \<and>
    sd_controller (ss_data s') = None \<and> sd_history (ss_data s') = [] \<and> session_inv m (ss_data s') \<and>
    (case r of Inr n \<Rightarrow> n = initial_snapshot m \<and> sd_snapshot (ss_data s') = initial_snapshot m
     | Inl e \<Rightarrow> sn_phase (sd_snapshot (ss_data s')) = Failed \<and> sn_failure (sd_snapshot (ss_data s')) \<noteq> None)"
proof -
  have "paused m (session_new m h)" by (simp add: pause_inv_def session_new_def)
  from schedule_paused [OF this assms(1)] have s: "paused m s" by (simp add: assms(2))
  have "session_inv m (ss_data s) \<or> sn_phase (sd_snapshot (ss_data s)) \<in> {Starting, Burning}"
    using s pause_inv_settled by blast
  with s wpD [OF forced_burn_recovers [OF s] assms(3)] show ?thesis by blast
qed

theorem consistent_and_recoverable_at_every_pause_witness:
  "let s = scheduled demo_sessions [Locked (Start 7 (demo_url ''ok.example'')) [[]]] demo_idle
   in sn_phase (sd_snapshot (ss_data s)) = Starting \<and> pause_inv demo_sessions (ss_data s) \<and>
      session_inv demo_sessions (ss_data (snd (force_burn demo_sessions s)))"
proof -
  let ?turns = "[Locked (Start 7 (demo_url ''ok.example'')) [[]]]"
  let ?s = "scheduled demo_sessions ?turns demo_idle"
  have "wp (begin_start demo_sessions 7 (demo_url ''ok.example''))
      (\<lambda>r t. sn_phase (sd_snapshot (ss_data t)) = Starting) demo_idle"
    using demo_not_blocked by (simp add: wp_begin_start Let_def starting_def demo_idle_def session_new_def lease_free_def
        initial_snapshot_def snapshot_default_def)
  then have "sn_phase (sd_snapshot (ss_data ?s)) = Starting"
    by (simp add: start_task_def await_then_def step_of_def others_def wp_snd publish_task_def split: sum.split prod.split)
  moreover have "lawful (\<lambda>_ _. True) demo_sessions ?turns demo_idle"
    unfolding lawful.simps by (intro conjI undisturbed_lawful TrueI) simp_all
  moreover have "force_burn demo_sessions ?s = (fst (force_burn demo_sessions ?s), snd (force_burn demo_sessions ?s))"
    by simp
  ultimately show ?thesis
    using consistent_and_recoverable_at_every_pause [of demo_sessions ?turns demo_disk, folded demo_idle_def, OF _ refl]
    unfolding Let_def by blast
qed

end
