(* ===== verification/OneGo.thy ===== *)
theory OneGo
  imports SessionInterleaving SessionProps "HOL-Library.Sublist"
begin

text \<open>
  Why the other theories may take an operation in one piece: run step by step among the settings other
  requests change meanwhile, it comes to the same as in one go, with some of these settings before it, some
  after it and the others refused.
\<close>

section \<open>States that differ in nothing an operation reads\<close>

definition alike :: "'b sess \<Rightarrow> 'b sess \<Rightarrow> bool" where
  "alike s t \<longleftrightarrow> sd_snapshot (ss_data t) = sd_snapshot (ss_data s) \<and> sd_controller (ss_data t) = sd_controller (ss_data s) \<and>
     sd_history (ss_data t) = sd_history (ss_data s) \<and> ss_mach t = ss_mach s"

lemma alike_refl [simp]: "alike s s"
  by (simp add: alike_def)

lemma alike_sym: "alike s t \<Longrightarrow> alike t s"
  by (simp add: alike_def)

lemma alike_trans: "alike s t \<Longrightarrow> alike t u \<Longrightarrow> alike s u"
  by (simp add: alike_def)

definition op_alike :: "('b sess, 'e, 'a) op \<Rightarrow> bool" where
  "op_alike n \<longleftrightarrow> (\<forall>s t. alike s t \<longrightarrow> fst (n s) = fst (n t) \<and> alike (snd (n s)) (snd (n t)))"

lemma op_alikeI: "(\<And>s t. alike s t \<Longrightarrow> fst (n s) = fst (n t) \<and> alike (snd (n s)) (snd (n t))) \<Longrightarrow> op_alike n"
  by (simp add: op_alike_def)

lemma op_alikeD: "op_alike n \<Longrightarrow> alike s t \<Longrightarrow> fst (n s) = fst (n t) \<and> alike (snd (n s)) (snd (n t))"
  by (simp add: op_alike_def)

named_theorems alike_rules "operations that do not tell such states apart"

lemma alike_and_then [alike_rules]:
  assumes "op_alike n" and "\<And>a. op_alike (f a)"
  shows "op_alike (and_then n f)"
proof (rule op_alikeI)
  fix s t :: "'a sess" assume "alike s t"
  from op_alikeD [OF assms(1) this] op_alikeD [OF assms(2)]
  show "fst (and_then n f s) = fst (and_then n f t) \<and> alike (snd (and_then n f s)) (snd (and_then n f t))"
    by (fastforce simp: and_then_def split: prod.splits sum.splits)
qed

lemma alike_attempt [alike_rules]: "op_alike n \<Longrightarrow> op_alike (attempt n)"
  by (auto simp: op_alike_def attempt_def split: prod.splits) (metis fst_conv snd_conv)+

lemma alike_map_err [alike_rules]: "op_alike n \<Longrightarrow> op_alike (map_err f n)"
  unfolding op_alike_def map_err_def
  by (simp add: split_def sum.case_distrib [of fst] sum.case_distrib [of snd] split: sum.split)

lemma alike_by_wp: "(\<And>s t. alike s t \<Longrightarrow> wp n (\<lambda>r s'. wp n (\<lambda>r' t'. r = r' \<and> alike s' t') t) s) \<Longrightarrow> op_alike n"
  by (simp add: op_alike_def wp_def split_def)

lemma alike_simple [alike_rules]: "op_alike (ret a)" "op_alike (raise e)" "op_alike (from_result r)"
  "op_alike get_snapshot" "op_alike (update_snapshot g)" "op_alike touch" "op_alike stamp_started"
  "op_alike clear_history" "op_alike (push_history u)" "op_alike (session_op k)" "op_alike (ensure_controller c)"
  "op_alike (ensure_navigation_allowed m u b)" "op_alike (send_event ev n)"
  by (rule alike_by_wp, simp add: wp_rules alike_def holds_active_def send_event_def split: sum.splits)+

lemma alike_failures [alike_rules]: "op_alike (failure_of l n)" if "op_alike n"
  unfolding failure_of_def by (intro alike_rules that)

lemma alike_cleanups [alike_rules]: "op_alike (stop_browser m)" "op_alike (reset_egress m)" "op_alike (clean_session m)"
  "op_alike (clear_session_dir m l)"
  unfolding stop_browser_def reset_egress_def clean_session_def clear_session_dir_def by (intro alike_rules)+

lemma alike_blocks [alike_rules]: "op_alike (begin_start m c u)" "op_alike begin_burn" "op_alike (wipe m f)"
  "op_alike (begin_navigate m c cmd)" "op_alike (begin_switch c)" "op_alike (rolled_back i u e)" "op_alike (switched i u e)"
  by (rule alike_by_wp, simp add: wp_rules alike_def holds_active_def begin_burn_def wipe_def begin_navigate_def
      begin_switch_def rolled_back_def switched_def Let_def lease_free_def starting_def
      split: option.splits navigation_command.splits)+

primrec task_alike :: "('b sess, 'e, 'a) task \<Rightarrow> bool" where
  "task_alike (Finished r) = True"
| "task_alike (Step act k) =
     ((\<forall>s t. alike s t \<longrightarrow> alike (act s) (act t) \<and> k s = k t) \<and> (\<forall>s. task_alike (k s)))"

lemma task_alike_step [alike_rules]: "op_alike n \<Longrightarrow> task_alike (step_of n)"
  by (simp add: step_of_def op_alike_def)

lemma task_alike_continue: "task_alike t \<Longrightarrow> (\<And>r. task_alike (f r)) \<Longrightarrow> task_alike (continue t f)"
  by (induction t) auto

lemma task_alike_then [alike_rules]: "task_alike t \<Longrightarrow> (\<And>a. task_alike (f a)) \<Longrightarrow> task_alike (await_then t f)"
  unfolding await_then_def by (rule task_alike_continue) (auto split: sum.split)

lemma task_alike_result [alike_rules]: "task_alike t \<Longrightarrow> task_alike (await_result t)"
  unfolding await_result_def by (rule task_alike_continue) auto

lemma task_alike_finished [alike_rules]: "task_alike (Finished r)"
  by simp

lemma task_alike_settle [alike_rules]: "op_alike b \<Longrightarrow> task_alike (settle b e)"
  unfolding settle_def by (intro alike_rules)

lemma task_alike_fail [alike_rules]: "task_alike (fail_task e)"
  unfolding fail_task_def by (intro alike_rules)

lemma task_alike_publish [alike_rules]: "task_alike (publish_task e)"
  unfolding publish_task_def by (intro alike_rules)

lemma task_alike_sum [alike_rules]:
  "(\<And>e. task_alike (f e)) \<Longrightarrow> (\<And>a. task_alike (g a)) \<Longrightarrow> task_alike (case r of Inl e \<Rightarrow> f e | Inr a \<Rightarrow> g a)"
  by (cases r) simp_all

lemma task_alike_start: "task_alike (start_task m c u)"
  unfolding start_task_def split_def by (intro alike_rules)

lemma task_alike_burn: "task_alike (burn_task m)"
  unfolding burn_task_def Let_def by (auto intro!: alike_rules split: option.split)

lemma task_alike_switch: "task_alike (switch_task m c e)"
  unfolding switch_task_def finish_rollback_task_def try_switch_task_def try_rollback_task_def split_def Let_def
  by (intro alike_rules)

section \<open>Settings\<close>

abbreviation phase_of :: "'b sess \<Rightarrow> session_phase" where
  "phase_of s \<equiv> sn_phase (sd_snapshot (ss_data s))"

lemma alike_change [alike_rules]: "op_alike (change_setting c f e)"
  unfolding change_setting_def publish_def
  by (rule alike_by_wp, simp add: wp_rules alike_def holds_active_def)

definition sets :: "uuid \<Rightarrow> (session_snapshot \<Rightarrow> session_snapshot) \<Rightarrow> 'b sess \<Rightarrow> 'b sess" where
  "sets c f s = (if holds_active c (ss_data s) then s\<lparr>ss_data := (ss_data s)\<lparr>sd_snapshot := f (sd_snapshot (ss_data s))\<rparr>\<rparr> else s)"

definition setters :: "(session_snapshot \<Rightarrow> session_snapshot) set" where
  "setters = {\<lambda>n. n} \<union> range (\<lambda>p n. n\<lparr>sn_stream_profile := p\<rparr>) \<union> range (\<lambda>b n. n\<lparr>sn_blocklist_enabled := b\<rparr>) \<union>
     range (\<lambda>k n. n\<lparr>sn_auto_burn_seconds := k\<rparr>)"

text \<open>A snapshot without what the settings set.\<close>

definition but_settings :: "session_snapshot \<Rightarrow> session_snapshot" where
  "but_settings n = n\<lparr>sn_stream_profile := Hd15, sn_blocklist_enabled := True, sn_auto_burn_seconds := 0\<rparr>"

lemma setters_keep:
  "f \<in> setters \<Longrightarrow> sn_phase (f n) = sn_phase n \<and> but_settings (f n) = but_settings n \<and>
     f (n\<lparr>sn_url := u\<rparr>) = (f n)\<lparr>sn_url := u\<rparr>"
  by (auto simp: setters_def but_settings_def)

lemma setting_sets:
  assumes "setting x"
  shows "\<exists>c f. (\<forall>s. alike (sets c f s) (session_exec m x s)) \<and>
    f \<in> setters"
proof -
  have change: "alike (sets c f s) (snd (change_setting c f e s))" for c f e s
    unfolding wp_snd [symmetric] by (simp add: change_setting_def wp_rules sets_def alike_def)
  show ?thesis
  proof (cases x)
    case (SSetProfile c p)
    then show ?thesis by (simp add: setters_def set_stream_profile_def) (blast intro: change)
  next
    case (SSetBlocklist c b)
    then show ?thesis by (simp add: setters_def set_blocklist_enabled_def) (blast intro: change)
  next
    case (SSetAutoBurn c k)
    have "alike (sets c (\<lambda>n. n) s) (snd (set_auto_burn_seconds c k s))" if "86400 < k" for s
      using that by (simp add: set_auto_burn_seconds_def raise_def sets_def alike_def)
    with SSetAutoBurn show ?thesis
      by (cases "86400 < k") (simp add: setters_def, blast, simp add: setters_def set_auto_burn_seconds_def, blast intro: change)
  qed (use assms in simp_all)
qed

definition visited :: "navigation_command \<Rightarrow> ('b sess, 'e, unit) op" where
  "visited cmd = (case cmd of
     Navigate u \<Rightarrow> and_then (update_snapshot (\<lambda>n. n\<lparr>sn_url := Some u\<rparr>)) (\<lambda>_. push_history u) | _ \<Rightarrow> ret ())"

lemma alike_visited [alike_rules]: "op_alike (visited cmd)"
  unfolding visited_def by (cases cmd) (auto intro!: alike_rules)

definition shown :: "navigation_command \<Rightarrow> 'b sess \<Rightarrow> 'b sess" where
  "shown cmd s = (case cmd of
    Navigate u \<Rightarrow> s\<lparr>ss_data := (ss_data s)\<lparr>sd_snapshot := (sd_snapshot (ss_data s))\<lparr>sn_url := Some u\<rparr>,
      sd_history := push_entry \<lparr>he_url = u, he_visited_at = m_utc (ss_mach s)\<rparr> (sd_history (ss_data s))\<rparr>\<rparr>
  | _ \<Rightarrow> s)"

lemma visited_shown: "visited cmd s = (Inr (), shown cmd s)"
  by (cases cmd) (simp_all add: visited_def shown_def update_snapshot_def push_history_def update_data_def op_defs)

lemma alike_shown: "alike s t \<Longrightarrow> alike (shown cmd s) (shown cmd t)"
  by (auto simp: alike_def shown_def split: navigation_command.split)

lemma sets_facts:
  assumes "f \<in> setters"
  shows "alike s t \<Longrightarrow> alike (sets c f s) (sets c f t)"
    and "phase_of s \<noteq> Active \<Longrightarrow> sets c f s = s"
    and "phase_of (sets c f s) = phase_of s" and "ss_mach (sets c f s) = ss_mach s"
    and "but_settings (sd_snapshot (ss_data (sets c f s))) = but_settings (sd_snapshot (ss_data s))"
    and "sets c f (s\<lparr>ss_mach := h\<rparr>) = (sets c f s)\<lparr>ss_mach := h\<rparr>"
    and "sets c f (shown cmd s) = shown cmd (sets c f s)"
  using setters_keep [OF assms]
  by (auto simp: sets_def alike_def holds_active_def shown_def split: navigation_command.split)

abbreviation settings :: "'b session_call list \<Rightarrow> bool" where
  "settings cs \<equiv> list_all setting cs"

lemma run_alike: "settings cs \<Longrightarrow> alike s t \<Longrightarrow> alike (session_run m cs s) (session_run m cs t)"
proof (induction cs arbitrary: s t)
  case (Cons x cs)
  then obtain c f where f: "\<And>s. alike (sets c f s) (session_exec m x s)" "f \<in> setters"
    using setting_sets [of x m] by auto
  have "alike (session_exec m x s) (session_exec m x t)"
    using alike_trans [OF alike_sym [OF f(1)] alike_trans [OF sets_facts(1) [OF f(2) Cons.prems(2)] f(1)]] .
  with Cons show ?case by simp
qed simp

text \<open>A fact about settings, one at a time.\<close>

lemma settings_induct [consumes 1, case_names none one_more]:
  fixes m :: "'b session_manager" and P :: "'b session_call list \<Rightarrow> 'b sess \<Rightarrow> bool"
  assumes "settings cs" and "\<And>s. P [] s"
    and "\<And>x cs c f s. setting x \<Longrightarrow> f \<in> setters \<Longrightarrow> (\<And>t. alike (sets c f t) (session_exec m x t)) \<Longrightarrow> settings cs \<Longrightarrow>
      (\<And>t. P cs t) \<Longrightarrow> P (x # cs) s"
  shows "P cs s"
  using assms(1)
proof (induction cs arbitrary: s)
  case (Cons y cs)
  then obtain c f where f: "\<And>t. alike (sets c f t) (session_exec m y t)" "f \<in> setters"
    using setting_sets [of y m] by auto
  show ?case by (rule assms(3) [OF _ f(2,1)]) (use Cons in simp_all)
qed (rule assms(2))

lemma alike_phase: "alike s t \<Longrightarrow> phase_of t = phase_of s \<and> ss_mach t = ss_mach s \<and>
    sd_snapshot (ss_data t) = sd_snapshot (ss_data s)"
  by (simp add: alike_def)

lemma run_facts:
  assumes "settings cs"
  shows "phase_of (session_run m cs s) = phase_of s \<and> ss_mach (session_run m cs s) = ss_mach s \<and>
    but_settings (sd_snapshot (ss_data (session_run m cs s))) = but_settings (sd_snapshot (ss_data s)) \<and>
    (phase_of s \<noteq> Active \<longrightarrow> alike s (session_run m cs s))"
  using assms
proof (induction cs s rule: settings_induct [where m = m])
  case (one_more x cs c f s)
  note e = alike_phase [OF one_more(3) [of s]]
  show ?case
    using e one_more(5) [of "session_exec m x s"] sets_facts(2) [OF one_more(2), of s c] one_more(3) [of s]
      sets_facts(3,4,5) [OF one_more(2), of c s] alike_trans [of s "session_exec m x s"]
    by (cases "phase_of s = Active") auto
qed simp

lemma run_mach:
  assumes "settings cs"
  shows "alike ((session_run m cs s)\<lparr>ss_mach := h\<rparr>) (session_run m cs (s\<lparr>ss_mach := h\<rparr>))"
  using assms
proof (induction cs s rule: settings_induct [where m = m])
  case (one_more x cs c f s)
  have "alike ((sets c f s)\<lparr>ss_mach := h\<rparr>) (session_exec m x (s\<lparr>ss_mach := h\<rparr>))"
    using one_more(3) [of "s\<lparr>ss_mach := h\<rparr>"] sets_facts(6) [OF one_more(2)] by metis
  moreover have "alike ((sets c f s)\<lparr>ss_mach := h\<rparr>) ((session_exec m x s)\<lparr>ss_mach := h\<rparr>)"
    using one_more(3) [of s] by (simp add: alike_def)
  ultimately have "alike ((session_exec m x s)\<lparr>ss_mach := h\<rparr>) (session_exec m x (s\<lparr>ss_mach := h\<rparr>))"
    using alike_trans alike_sym by blast
  from alike_trans [OF one_more(5) [of "session_exec m x s"] run_alike [OF one_more(4) this]] show ?case by simp
qed simp

lemma run_shown:
  assumes "settings cs"
  shows "alike (shown cmd (session_run m cs s)) (session_run m cs (shown cmd s))"
  using assms
proof (induction cs s rule: settings_induct [where m = m])
  case (one_more x cs c f s)
  have "alike (shown cmd (sets c f s)) (session_exec m x (shown cmd s))"
    using one_more(3) [of "shown cmd s"] sets_facts(7) [OF one_more(2)] by metis
  moreover have "alike (shown cmd (sets c f s)) (shown cmd (session_exec m x s))"
    by (rule alike_shown [OF one_more(3)])
  ultimately have "alike (shown cmd (session_exec m x s)) (session_exec m x (shown cmd s))"
    using alike_trans alike_sym by blast
  from alike_trans [OF one_more(5) [of "session_exec m x s"] run_alike [OF one_more(4) this]] show ?case by simp
qed simp

section \<open>Operations that wait only where settings are refused\<close>

primrec serial :: "('b sess, 'e, 'a) task \<Rightarrow> 'b sess \<Rightarrow> bool" where
  "serial (Finished r) = (\<lambda>s. True)"
| "serial (Step act k) = (\<lambda>s. if phase_of s = Active then (\<forall>t. alike t (act t)) \<and> (\<exists>r. \<forall>t. k t = Finished r)
     else serial (k s) (act s))"

lemma serial_alike: "task_alike t \<Longrightarrow> alike s s' \<Longrightarrow> serial t s \<Longrightarrow> serial t s'"
proof (induction t arbitrary: s s')
  case (Step act k)
  from Step.prems have "alike (act s) (act s')" "k s' = k s" "task_alike (k s)" by simp_all
  with Step.IH [OF rangeI this(3,1)] Step.prems(2,3) alike_phase [OF Step.prems(2)] show ?case
    by (auto split: if_splits)
qed simp

lemma settings_nth: "\<forall>g \<in> set xs. settings g \<Longrightarrow> n < length xs \<Longrightarrow> settings (xs ! n)"
  by simp

lemma concat_drop: "n < length xs \<Longrightarrow> concat (drop n xs) = xs ! n @ concat (drop (Suc n) xs)"
  by (simp add: Cons_nth_drop_Suc [symmetric])

lemma run_append: "session_run m (xs @ ys) s = session_run m ys (session_run m xs s)"
  by (induction xs arbitrary: s) simp_all

lemma serial_play:
  assumes "\<forall>g \<in> set xs. settings g"
  shows "task_alike t \<Longrightarrow> serial t s \<Longrightarrow> alike s s' \<Longrightarrow> play t (others m xs) n s' = (Some r, s'') \<Longrightarrow>
    \<exists>after. subseq after (concat (drop n xs)) \<and> settings after \<and> r = fst (run t s) \<and>
      alike (session_run m after (snd (run t s))) s''"
proof (induction t arbitrary: s s' n)
  case (Finished x)
  then show ?case by (auto simp: run.simps(1) intro!: exI [of _ "[]"])
next
  case (Step act k)
  from Step.prems(4) have n: "n < length xs" and p: "play (k (session_run m (xs ! n) s')) (others m xs) (Suc n)
      (act (session_run m (xs ! n) s')) = (Some r, s'')"
    by (auto simp: others_def [of m xs n] split: if_splits)
  let ?t = "session_run m (xs ! n) s'"
  note g = run_facts [OF settings_nth [OF assms n], of m s']
  show ?case
  proof (cases "phase_of s = Active")
    case True
    with Step.prems(2) obtain r0 where k: "\<And>t. k t = Finished r0" and act: "\<And>t. alike t (act t)" by auto
    with p have r: "r = r0" "s'' = act ?t" by simp_all
    have "alike (session_run m (xs ! n) (act s)) ?t"
      by (rule run_alike [OF settings_nth [OF assms n]], rule alike_trans [OF alike_sym [OF act] Step.prems(3)])
    from alike_trans [OF this act] r k show ?thesis
      using settings_nth [OF assms n] concat_drop [OF n]
      by (auto simp: run.simps(1) intro!: exI [of _ "xs ! n"])
  next
    case False
    with g alike_phase [OF Step.prems(3)] Step.prems(3) have a: "alike s ?t" using alike_trans by metis
    with Step.prems(1) have k: "k ?t = k s" "alike (act s) (act ?t)" "task_alike (k s)" by simp_all
    have "serial (k s) (act s)" using Step.prems(2) False by simp
    from Step.IH [OF rangeI k(3) this k(2) p [unfolded k(1)]] concat_drop [OF n] show ?thesis
      by (auto intro: list_emb_append2 elim!: exI)
  qed
qed

abbreviation "calm \<equiv> along (=) (\<lambda>s. phase_of s \<noteq> Active)"

lemma serial_continue: "calm t (\<lambda>r s'. serial (f r) s') s \<Longrightarrow> serial (continue t f) s"
  by (induction t arbitrary: s) auto

lemma serial_then: "calm t (\<lambda>r s'. \<forall>a. r = Inr a \<longrightarrow> serial (f a) s') s \<Longrightarrow> serial (await_then t f) s"
  unfolding await_then_def by (rule serial_continue, erule along_mono) (auto split: sum.splits)

lemma serial_try: "calm t (\<lambda>r s'. serial (f r) s') s \<Longrightarrow> serial (await_then (await_result t) f) s"
  by (rule serial_then) (simp add: along_await_result)

lemma serial_settle: "phase_of s \<noteq> Active \<Longrightarrow> serial (settle b e) s"
  by (auto simp: settle_def await_then_def step_of_def send_event_def op_defs alike_def split: sum.split)

lemma serial_settle_error: "phase_of s \<noteq> Active \<Longrightarrow> serial (await_then (settle b e) (\<lambda>_. Finished (Inl x))) s"
  by (auto simp: settle_def await_then_def step_of_def send_event_def op_defs alike_def split: sum.split)

lemma serial_fail: "phase_of s \<noteq> Active \<Longrightarrow> serial (fail_task e) s"
  unfolding fail_task_def by (rule serial_settle_error)

text \<open>Steps of the machine alone leave the phase.\<close>

lemma calm_machine:
  assumes "phase_of s \<noteq> Active" and "\<And>t. wp n (\<lambda>r t'. phase_of t' = phase_of t) t"
    and "\<And>r t. phase_of t \<noteq> Active \<Longrightarrow> Q r t"
  shows "calm (step_of n) Q s"
  using assms by (auto simp: along_step_of intro: wp_mono [OF assms(2)])

lemma machine_steps:
  "wp (session_op k) (\<lambda>r t'. phase_of t' = phase_of t) t" "wp (stop_browser m) (\<lambda>r t'. phase_of t' = phase_of t) t"
  "wp (reset_egress m) (\<lambda>r t'. phase_of t' = phase_of t) t" "wp (clean_session m) (\<lambda>r t'. phase_of t' = phase_of t) t"
  "wp (clear_session_dir m l) (\<lambda>r t'. phase_of t' = phase_of t) t" "wp get_snapshot (\<lambda>r t'. phase_of t' = phase_of t) t"
  "wp (send_event e n) (\<lambda>r t'. phase_of t' = phase_of t) t"
  by (auto simp: wp_rules send_event_def split_def)

lemma calm_then:
  "calm t (\<lambda>r s'. case r of Inl e \<Rightarrow> Q (Inl e) s' | Inr a \<Rightarrow> calm (f a) Q s') s \<Longrightarrow> calm (await_then t f) Q s"
  by (auto simp: along_await_then elim!: along_mono split: sum.splits)

lemma calm_publish:
  "phase_of s \<noteq> Active \<Longrightarrow> (\<And>r t. phase_of t \<noteq> Active \<Longrightarrow> Q r t) \<Longrightarrow> calm (publish_task e) Q s"
  unfolding publish_task_def
  by (intro calm_then calm_machine machine_steps) (auto split: sum.split intro!: calm_machine machine_steps)

lemma calm_restart:
  assumes "phase_of s \<noteq> Active" and "\<And>r t. phase_of t \<noteq> Active \<Longrightarrow> Q r t"
  shows "calm (try_switch_task m i u p e) Q s" and "calm (try_rollback_task m i u p e) Q s"
  unfolding try_switch_task_def try_rollback_task_def
  by (auto simp: along_await_result assms split: sum.split intro!: calm_then calm_machine machine_steps)

lemmas serial_rules = serial_then serial_try serial_settle serial_settle_error serial_fail calm_publish calm_machine
  machine_steps calm_restart

lemma opens_play:
  assumes "\<forall>g \<in> set xs. settings g" and "\<And>s. wp n (\<lambda>r t. \<forall>a. r = Inr a \<longrightarrow> serial (f a) t) s"
    and "\<And>a. task_alike (f a)"
    and "play (await_then (step_of n) f) (others m xs) i s = (Some r, s'')"
  shows "i < length xs \<and> (\<exists>after. subseq after (concat (drop (Suc i) xs)) \<and> settings after \<and>
    r = fst (run (await_then (step_of n) f) (session_run m (xs ! i) s)) \<and>
    alike (session_run m after (snd (run (await_then (step_of n) f) (session_run m (xs ! i) s)))) s'')"
proof -
  let ?s = "session_run m (xs ! i) s"
  let ?k = "case fst (n ?s) of Inl e \<Rightarrow> Finished (Inl e) | Inr a \<Rightarrow> f a"
  from assms(4) have i: "i < length xs" and p: "play ?k (others m xs) (Suc i) (snd (n ?s)) = (Some r, s'')"
    by (auto simp: others_def [of m xs i] await_then_def step_of_def split: if_splits)
  have "task_alike ?k" using assms(3) by (simp split: sum.split)
  moreover have "serial ?k (snd (n ?s))" using assms(2) [of ?s] by (auto simp: wp_def split: prod.splits sum.split)
  moreover have "run (await_then (step_of n) f) ?s = run ?k (snd (n ?s))"
    by (simp add: await_then_def step_of_def run.simps split: sum.split)
  ultimately show ?thesis using serial_play [OF assms(1) _ _ alike_refl p] i by simp
qed

text \<open>What the theorem says of one task, from a turn on.\<close>

definition comes_to ::
  "'b session_manager \<Rightarrow> ('b sess, 'e, session_snapshot) op \<Rightarrow> 'b session_call list \<Rightarrow> 'b sess \<Rightarrow>
     'e + session_snapshot \<Rightarrow> 'b sess \<Rightarrow> bool" where
  "comes_to m go calls s r s' \<longleftrightarrow> (\<exists>before after r1 s1. subseq (before @ after) calls \<and>
     go (session_run m before s) = (r1, s1) \<and> map_sum id but_settings r = map_sum id but_settings r1 \<and>
     alike (session_run m after s1) s')"

lemma comes_toI:
  "subseq (before @ after) calls \<Longrightarrow> go (session_run m before s) = (r1, s1) \<Longrightarrow>
   map_sum id but_settings r = map_sum id but_settings r1 \<Longrightarrow> alike (session_run m after s1) s' \<Longrightarrow>
   comes_to m go calls s r s'"
  unfolding comes_to_def by blast

lemma opens_comes_to:
  assumes "\<forall>g \<in> set xs. settings g" and "\<And>s. wp n (\<lambda>r t. \<forall>a. r = Inr a \<longrightarrow> serial (f a) t) s"
    and "\<And>a. task_alike (f a)"
    and "play (await_then (step_of n) f) (others m xs) i s = (Some r, s')"
  shows "i < length xs \<and> comes_to m (run (await_then (step_of n) f)) (concat (drop i xs)) s r s'"
proof -
  obtain after where i: "i < length xs" and a: "subseq after (concat (drop (Suc i) xs))"
    "r = fst (run (await_then (step_of n) f) (session_run m (xs ! i) s))"
    "alike (session_run m after (snd (run (await_then (step_of n) f) (session_run m (xs ! i) s)))) s'"
    using opens_play [OF assms] by blast
  have "subseq (xs ! i @ after) (concat (drop i xs))" using a(1) by (simp add: concat_drop [OF i] list_emb_append_mono)
  with a i show ?thesis unfolding comes_to_def by (metis prod.collapse)
qed

lemma start_comes_to:
  assumes "\<forall>g \<in> set xs. settings g" and "play (start_task m c u) (others m xs) i s = (Some r, s')"
  shows "i < length xs \<and> comes_to m (start m c u) (concat (drop i xs)) s r s'"
  unfolding run_start_task [symmetric] start_task_def
proof (rule opens_comes_to [OF assms(1) _ _ assms(2) [unfolded start_task_def]], goal_cases)
  case (1 s)
  have "wp (begin_start m c u) (\<lambda>r t. \<forall>a. r = Inr a \<longrightarrow> phase_of t \<noteq> Active) s"
    by (simp add: wp_begin_start Let_def starting_def)
  then show ?case
    by (rule wp_mono) (auto split: prod.split sum.split intro!: serial_rules)
next
  case (2 a)
  then show ?case unfolding split_def by (intro alike_rules)
qed

lemma burn_comes_to:
  assumes "\<forall>g \<in> set xs. settings g" and "play (burn_task m) (others m xs) i s = (Some r, s')"
  shows "i < length xs \<and> comes_to m (burn_unchecked m) (concat (drop i xs)) s r s'"
  unfolding run_burn_task [symmetric] burn_task_def
proof (rule opens_comes_to [OF assms(1) _ _ assms(2) [unfolded burn_task_def]], goal_cases)
  case (1 s)
  have "wp begin_burn (\<lambda>r t. r = Inr None \<longrightarrow> phase_of t \<noteq> Active) s"
    by (simp add: begin_burn_def wp_rules)
  then show ?case
    by (rule wp_mono) (auto simp: Let_def split: option.split sum.split intro!: serial_rules)
next
  case (2 a)
  then show ?case by (auto simp: Let_def intro!: alike_rules split: option.split)
qed

lemma switch_comes_to:
  assumes "\<forall>g \<in> set xs. settings g" and "play (switch_task m c e) (others m xs) i s = (Some r, s')"
  shows "i < length xs \<and> comes_to m (switch_egress m c e) (concat (drop i xs)) s r s'"
  unfolding run_switch_task [symmetric] switch_task_def
proof (rule opens_comes_to [OF assms(1) _ _ assms(2) [unfolded switch_task_def]], goal_cases)
  case (1 s)
  have "wp (begin_switch c) (\<lambda>r t. \<forall>a. r = Inr a \<longrightarrow> phase_of t \<noteq> Active) s"
    by (simp add: begin_switch_def wp_rules split: option.split)
  then show ?case
    by (rule wp_mono) (auto simp: finish_rollback_task_def Let_def split: prod.split sum.split intro!: serial_rules)
next
  case (2 a)
  then show ?case
    unfolding split_def finish_rollback_task_def try_switch_task_def try_rollback_task_def Let_def by (intro alike_rules)
qed

text \<open>A visit waits where settings are accepted: they commute with it.\<close>

lemma play_step_then:
  "play (await_then (step_of n) f) (others m xs) i s =
     (if i < length xs then
        (case n (session_run m (xs ! i) s) of
           (Inl e, t) \<Rightarrow> (Some (Inl e), t)
         | (Inr a, t) \<Rightarrow> play (f a) (others m xs) (Suc i) t)
      else (None, s))"
  by (auto simp: others_def [of m xs i] await_then_def step_of_def split: prod.split sum.split)

lemma alike_events [simp]: "alike (s\<lparr>ss_events := es\<rparr>) t = alike s t" "alike t (s\<lparr>ss_events := es\<rparr>) = alike t s"
  by (simp_all add: alike_def)

lemma shown_but_settings:
  "but_settings (sd_snapshot (ss_data s)) = but_settings (sd_snapshot (ss_data t)) \<Longrightarrow>
   but_settings (sd_snapshot (ss_data (shown cmd s))) = but_settings (sd_snapshot (ss_data (shown cmd t)))"
proof -
  have "but_settings (n\<lparr>sn_url := u\<rparr>) = (but_settings n)\<lparr>sn_url := u\<rparr>" for n u by (simp add: but_settings_def)
  moreover assume "but_settings (sd_snapshot (ss_data s)) = but_settings (sd_snapshot (ss_data t))"
  ultimately show ?thesis by (auto simp: shown_def split: navigation_command.split)
qed

text \<open>The second half of a visit, once the helper has answered that it is done.\<close>

lemma visit_tail:
  assumes "settings g1" "settings g2" "settings g3"
  shows "alike (session_run m (g1 @ g2 @ g3) (shown cmd (s\<lparr>ss_mach := h\<rparr>)))
      (session_run m g3 (shown cmd (session_run m g2 ((session_run m g1 s)\<lparr>ss_mach := h\<rparr>))))"
    and "but_settings (sd_snapshot (ss_data (shown cmd (session_run m g2 ((session_run m g1 s)\<lparr>ss_mach := h\<rparr>))))) =
      but_settings (sd_snapshot (ss_data (shown cmd (s\<lparr>ss_mach := h\<rparr>))))"
proof -
  let ?y = "s\<lparr>ss_mach := h\<rparr>" and ?t = "(session_run m g1 s)\<lparr>ss_mach := h\<rparr>"
  have "alike (session_run m g1 (shown cmd ?y)) (shown cmd ?t)"
    using alike_trans [OF alike_sym [OF run_shown [OF assms(1)]] alike_shown [OF alike_sym [OF run_mach [OF assms(1)]]]] .
  from alike_trans [OF run_alike [OF assms(2) this] alike_sym [OF run_shown [OF assms(2)]]]
  show "alike (session_run m (g1 @ g2 @ g3) (shown cmd ?y)) (session_run m g3 (shown cmd (session_run m g2 ?t)))"
    by (simp add: run_append run_alike [OF assms(3)])
  show "but_settings (sd_snapshot (ss_data (shown cmd (session_run m g2 ?t)))) =
      but_settings (sd_snapshot (ss_data (shown cmd ?y)))"
    by (rule shown_but_settings) (simp add: run_facts [OF assms(2)] run_facts [OF assms(1)])
qed

lemma visit_comes_to:
  assumes "\<forall>g \<in> set xs. settings g" and "play (navigate_task m c cmd) (others m xs) 0 s = (Some r, s')"
  shows "comes_to m (navigate m c cmd) (concat xs) s r s'"
proof -
  let ?s0 = "session_run m (xs ! 0) s"
  have task: "navigate_task m c cmd = await_then (step_of (begin_navigate m c cmd)) (\<lambda>_.
      await_then (step_of (session_op (br_navigate (sm_browser m) cmd))) (\<lambda>_. settle (visited cmd) ''session.navigation''))"
    by (simp add: navigate_task_def visited_def)
  obtain r1 s1 where b: "begin_navigate m c cmd ?s0 = (r1, s1)" by fastforce
  have l0: "0 < length xs" using assms(2) by (simp add: task play_step_then split: if_splits)
  have go: "navigate m c cmd ?s0 = (case r1 of Inl e \<Rightarrow> (Inl e, s1) | Inr a \<Rightarrow>
      (case br_navigate (sm_browser m) cmd (ss_mach s1) of
         (Inl e, h) \<Rightarrow> (Inl e, s1\<lparr>ss_mach := h\<rparr>)
       | (Inr x, h) \<Rightarrow> and_then (publish ''session.navigation'') (\<lambda>_. get_snapshot) (shown cmd (s1\<lparr>ss_mach := h\<rparr>))))"
    unfolding run_navigate_task [symmetric] task
    by (auto simp: and_then_def b session_op_def visited_shown split: sum.split prod.split)
  show ?thesis
  proof (cases r1)
    case (Inl e)
    then have "r = Inl e" "s' = s1" using assms(2) l0 by (simp_all add: task play_step_then b)
    then show ?thesis
      using go Inl l0 concat_drop [of 0 xs] by (intro comes_toI [of "xs ! 0" "[]"]) auto
  next
    case (Inr a)
    let ?t1 = "session_run m (xs ! 1) s1"
    have l1: "1 < length xs" using assms(2) l0 Inr by (simp add: task play_step_then b split: if_splits)
    have g1: "settings (xs ! 1)" by (rule settings_nth [OF assms(1) l1])
    have m1: "ss_mach ?t1 = ss_mach s1" using run_facts [OF g1] by blast
    obtain x h where call: "br_navigate (sm_browser m) cmd (ss_mach s1) = (x, h)" by fastforce
    have rest: "concat xs = xs ! 0 @ xs ! 1 @ concat (drop 2 xs)"
      using concat_drop [OF l0] concat_drop [OF l1] by (simp add: numeral_2_eq_2)
    show ?thesis
    proof (cases x)
      case (Inl e)
      have "r = Inl e \<and> s' = ?t1\<lparr>ss_mach := h\<rparr>"
        using assms(2) l0 l1 Inr Inl m1 call by (simp add: task play_step_then b session_op_def)
      moreover have "alike (session_run m (xs ! 1) (s1\<lparr>ss_mach := h\<rparr>)) (?t1\<lparr>ss_mach := h\<rparr>)"
        by (rule alike_sym [OF run_mach [OF g1]])
      ultimately show ?thesis
        using go Inr Inl call rest
        by (intro comes_toI [of "xs ! 0" "xs ! 1"]) (auto simp: subseq_append')
    next
      case x: (Inr y)
      let ?t2 = "session_run m (xs ! 2) (?t1\<lparr>ss_mach := h\<rparr>)"
      have l2: "2 < length xs" and l3: "3 < length xs"
        using assms(2) l0 l1 Inr x m1 call
        by (simp_all add: task settle_def play_step_then b session_op_def visited_shown and_then_def get_snapshot_def
            gets_def numeral_2_eq_2 numeral_3_eq_3 split: if_splits)
      have r: "r = Inr (sd_snapshot (ss_data (shown cmd ?t2)))"
        "alike (session_run m (xs ! 3) (shown cmd ?t2)) s'"
        using assms(2) l0 l1 l2 l3 Inr x m1 call
        by (auto simp: task settle_def play_step_then b session_op_def visited_shown and_then_def get_snapshot_def
            gets_def numeral_2_eq_2 numeral_3_eq_3 send_event_def modify_def)
      let ?y = "shown cmd (s1\<lparr>ss_mach := h\<rparr>)"
      have one: "\<exists>s2. navigate m c cmd ?s0 = (Inr (sd_snapshot (ss_data ?y)), s2) \<and> alike ?y s2"
        using go Inr x call by (auto simp: and_then_def publish_def get_snapshot_def gets_def modify_def)
      note tail = visit_tail [OF g1 settings_nth [OF assms(1) l2] settings_nth [OF assms(1) l3], where m = m and cmd = cmd and h = h and s = s1]
      have "subseq (xs ! 0 @ xs ! 1 @ xs ! 2 @ xs ! 3) (concat xs)"
        using rest concat_drop [OF l2] concat_drop [OF l3] by (simp add: subseq_append' subseq_rev_drop_many eval_nat_numeral)
      moreover from one obtain s2 where s2: "navigate m c cmd ?s0 = (Inr (sd_snapshot (ss_data ?y)), s2)" "alike ?y s2"
        by blast
      moreover have "settings (xs ! 1 @ xs ! 2 @ xs ! 3)"
        using assms(1) l1 l2 l3 by simp
      ultimately have "alike (session_run m (xs ! 1 @ xs ! 2 @ xs ! 3) s2) s'" and sub: "subseq (xs ! 0 @ xs ! 1 @ xs ! 2 @ xs ! 3) (concat xs)"
        using alike_trans [OF alike_trans [OF alike_sym [OF run_alike [OF _ s2(2)]] tail(1)] r(2)] by simp_all
      then show ?thesis
        unfolding comes_to_def using sub s2(1) r(1) tail(2) by fastforce
    qed
  qed
qed

text \<open>A burn looks at the lease first; no setting changes who has it.\<close>

lemma run_lease:
  assumes "settings cs"
  shows "sd_controller (ss_data (session_run m cs s)) = sd_controller (ss_data s)"
  using assms
proof (induction cs s rule: settings_induct [where m = m])
  case (one_more x cs c f s)
  then show ?case using one_more(3) [of s] by (simp add: alike_def sets_def)
qed simp

lemma settings_subseq: "subseq ys xs \<Longrightarrow> settings xs \<Longrightarrow> settings ys"
  using list_emb_set by (fastforce simp: list_all_iff)

lemma burn_with_lease:
  assumes "\<forall>g \<in> set xs. settings g" and "play (task_of m (Burn c)) (others m xs) 0 s = (Some r, s')"
  shows "comes_to m (burn m c) (concat xs) s r s'"
proof -
  let ?s0 = "session_run m (xs ! 0) s"
  have check: "and_then (gets ss_data) (\<lambda>d. from_result (ensure_lease c d)) t =
      ((if sd_controller (ss_data t) = Some c then Inr () else Inl LeaseConflict), t)" for t :: "'a sess"
    by (simp add: op_defs ensure_lease_def)
  have go: "burn m c t = (if sd_controller (ss_data t) = Some c then burn_unchecked m t else (Inl LeaseConflict, t))" for t
    by (simp add: burn_def op_defs ensure_lease_def)
  have l0: "0 < length xs" using assms(2) by (simp add: play_step_then split: if_splits)
  show ?thesis
  proof (cases "sd_controller (ss_data ?s0) = Some c")
    case False
    then have "r = Inl LeaseConflict" "s' = ?s0" using assms(2) l0 by (simp_all add: play_step_then check)
    with False show ?thesis
      using l0 concat_drop [of 0 xs] by (intro comes_toI [of "xs ! 0" "[]"]) (auto simp: go)
  next
    case True
    then have "play (burn_task m) (others m xs) 1 ?s0 = (Some r, s')"
      using assms(2) l0 by (simp add: play_step_then check)
    with burn_comes_to [OF assms(1)] have "comes_to m (burn_unchecked m) (concat (drop 1 xs)) ?s0 r s'" by blast
    then obtain before after r1 s1 where sub: "subseq (before @ after) (concat (drop 1 xs))"
      and b: "burn_unchecked m (session_run m before ?s0) = (r1, s1)" "map_sum id but_settings r = map_sum id but_settings r1"
        "alike (session_run m after s1) s'"
      unfolding comes_to_def by blast
    have "settings (concat (drop 1 xs))"
      using assms(1) by (auto simp: list_all_iff dest: in_set_dropD)
    from settings_subseq [OF sub this] have "settings before" by simp
    then have "burn m c (session_run m (xs ! 0 @ before) s) = (r1, s1)"
      using True b(1) by (simp add: go run_append run_lease)
    moreover have "subseq ((xs ! 0 @ before) @ after) (concat xs)"
      using sub concat_drop [OF l0] by (simp add: subseq_append')
    ultimately show ?thesis unfolding comes_to_def using b(2,3) by blast
  qed
qed



end
