(* ===== verification/Spec2Isabelle.thy ===== *)
theory Spec2Isabelle
  imports WholeSystem ProcessBrowser ListedNames AbandonedStart PauseInvariant OneGo
begin

text \<open>
  XanhTab: a verification development of its control plane.

  \<^bold>\<open>The program.\<close> XanhTab runs one disposable remote browser for one paired user. Three Rust programs
  cooperate. The daemon (\<open>src/main.rs\<close> over the library \<open>src/lib.rs\<close>) serves the HTTP and WebSocket API, pairs
  a controller, and drives one browsing session. \<open>xanhtab-netd\<close> (\<open>src/bin/xanhtab-netd.rs\<close>) is privileged: it
  puts one egress policy in force as an nftables table and WireGuard routes, behind a kill-switch.
  \<open>xanhtab-browser\<close> (\<open>src/bin/xanhtab-browser.rs\<close>) keeps one GStreamer child showing one page. The daemon
  reaches both over Unix sockets, one request per connection. \<open>xanhtab-blocklist\<close> compiles lists of host
  names the daemon refuses to open.

  \<^bold>\<open>How code becomes definitions.\<close> A struct is a \<open>record\<close>, an enum a \<open>datatype\<close>, a method that changes state an
  operation \<open>('s, 'e, 'a) op\<close>, a function from a state to an error or a value and the next state (XPrelude), so
  that every \<open>?\<close>, early return and panic is a branch. Integers of the code are words (\<open>u64\<close>, \<open>u32\<close>, \<open>u16\<close>, \<open>u8\<close>) where
  their width shows; instants, lengths and indices are natural numbers. Everything outside the Rust code is
  explicit: \<open>machine\<close> (Machine) holds the clocks, the random sources, the file system, a function that makes any
  file call fail with any error, and the state of the helpers; each helper's world says how the n-th thing
  it waits for goes. These functions are arbitrary in the theorems, so a theorem covers every failure and
  every timing of the outside.

  \<^bold>\<open>Theories and sources.\<close>
  \<^item> XPrelude: operations, \<open>keeps\<close> and \<open>wp\<close> with their rule collections. RustStr, RustNet: the string routines
    and address types of the standard library the code calls. Machine: paths, files, clocks.
  \<^item> AppError: \<open>src/error.rs\<close>. Model: \<open>src/model.rs\<close>. Config, ConfigProps: \<open>src/config.rs\<close>.
  \<^item> Auth, AuthTrace: \<open>src/auth.rs\<close>, one operation per method of \<open>AuthManager\<close> and its sequences of calls.
  \<^item> Blocklist, BlocklistFiles: \<open>src/blocklist.rs\<close> and \<open>src/bin/xanhtab-blocklist.rs\<close>.
  \<^item> EgressPolicy: \<open>src/egress.rs\<close>. NetPlan: the plans of \<open>src/netd.rs\<close>, with an interpreter of the
    scripts they load. NetHelper, NetHelperProps: \<open>xanhtab-netd\<close>.
  \<^item> BrowserHelper, BrowserHelperProps: \<open>xanhtab-browser\<close>. HelperMains: \<open>main\<close> of both helpers.
  \<^item> Backend: the traits \<open>BrowserBackend\<close> and \<open>EgressBackend\<close> and their mocks. Clients: \<open>SocketBrowser\<close> and
    \<open>SocketEgress\<close> against the helpers' own models. ProcessBrowser: the backend of that name.
  \<^item> Session, SessionProps: \<open>src/session.rs\<close> and \<open>src/events.rs\<close>. AppLifecycle, AppTrace: \<open>AppState\<close> of
    \<open>src/lib.rs\<close>, the watchdog of \<open>src/main.rs\<close>, and all call sequences.
  \<^item> RemoteConfig, RemoteConfigProps: \<open>src/remote_config.rs\<close>. Metrics: \<open>src/metrics.rs\<close>.
  \<^item> Api, ApiProps, ApiSockets, ApiSocketsProps: \<open>src/api.rs\<close>. Daemon: \<open>src/main.rs\<close> to its listener.
  \<^item> Conformance, EndToEnd, Served, WholeSystem: the programs together. ListedNames: the block list from the
    compiler to the refused request.
  \<^item> Await: an \<open>async fn\<close> between its \<open>await\<close>s. SessionSteps: the operations of \<open>src/session.rs\<close> step by step.
    SessionInterleaving, OneGo, DroppedRequests, PauseInvariant, AbandonedStart: what that changes.

  \<^bold>\<open>Interfaces.\<close> The locale \<open>backend_pair\<close> (Conformance) is the contract of the two traits: a started browser runs
  for the mode it was started for, a stop ends it, an applied policy is in force. The session layer's
  conformance is proved once inside it. It is interpreted on the mocks (\<open>mock\<close>), on the browser run as a
  child (\<open>process\<close>, ProcessBrowser) and, as a sublocale of \<open>deployment\<close> (EndToEnd: neither helper on a dry run,
  requests decode to what was encoded), on the socket clients with the helpers behind them (\<open>real\<close>).

  \<^bold>\<open>What is shown.\<close>
  \<^item> Pairing: a secret works once, at most one controller per generation, guesses are limited in any
    window of time.
  \<^item> Session: consistency in all reachable states; start, burn, egress switch with rollback, navigation and
    settings on every branch; no blocked host reaches the browser; cleaning stays inside its directory.
  \<^item> Lifecycle: a valid context implies the lease; burns release and republish; the idle burn.
  \<^item> Helpers: a successful transition has put exactly its policy in force, a failed one ends in the
    kill-switch, the status is honest at any time; the browser's history refines the abstract one, its
    child shows the current page with its mode's proxy, its answers are true; both loops survive every
    connection, and the network helper listens only behind its kill-switch.
  \<^item> Scripts: reading a generated nftables script back gives exactly the packets its policy lets out.
  \<^item> Inputs: validated configurations are closed in production, WireGuard files have no hooks, a reviewed
    public directory is safe and changes only defaults, list files hold exactly their inputs.
  \<^item> API: nothing acts without control, a matching origin and CSRF token; requests are call sequences of
    the lifecycle layer; reading at most drops expired cookies; sockets need a fresh ticket; the event stream and the
    relay are complete and transparent.
  \<^item> Step by step: a locked operation among others' settings comes to the same as in one go, and answers within
    seventeen steps; confinement and the consistency of the session's data hold at every pause of operations
    dropped anywhere, and a forced burn leads back from each; a start whose request is gone stays in the
    starting phase until a burn.
  \<^item> Names: a name listed in a compiled hosts file, and all below it, cannot be opened through the API.
  \<^item> The whole: from the three \<open>main\<close> functions on, whatever is asked and whatever fails, an active
    session's traffic is confined to the mode it shows (WholeSystem).

  \<^bold>\<open>Bounds.\<close> No definition needs fuel: loops over input are structural recursion over the list of what arrives
  (lines, frames, connections, events), and a deadline is a choice of the world. A loop that waits for ever is
  covered by quantifying over all such lists.

  \<^bold>\<open>Interleaving.\<close> The daemon's handlers hold the lifecycle lock or the lock of the state they change; most
  theories run each as one step and consider every sequence of steps. SessionSteps takes the operations that
  hold the lifecycle lock apart: a step is one block under the session's lock, one helper call or one sent event
  (\<open>task\<close>, Await), and its \<open>run\<close> in one go is the operation of theory Session. Between two steps come the calls
  that do not take the lifecycle lock (\<open>free_call\<close>), and the task may be dropped, as a handler is when its
  client closes the connection. OneGo shows that without drops nothing new comes of it, so the atomic model is
  enough; with drops, confinement still holds (DroppedRequests), but the phases starting and burning can be
  left behind (AbandonedStart), which \<open>session_inv\<close> and what rests on it exclude: \<open>pause_inv\<close> (PauseInvariant)
  is the invariant that allows for them. A helper call under way when
  its caller is dropped is taken to be carried out before the next. The pauses before and after a sent event are
  not \<open>await\<close>s of the code, so the model drops a task at more places than the runtime. Seventeen is the longest
  path, an egress switch that fails at its last step and rolls back.

  The helpers take one command at a time, as the code does. Between the daemon's calls the world may drift
  (\<open>helpers_drift\<close>: a browser ends, its helper restarts). A call cut off inside the network helper is the error
  \<open>Dropped\<close>, after which none of its code runs.

  \<^bold>\<open>Parameters.\<close> URL parsing, BLAKE3 and the two text encodings, the fst crate, JSON and TOML decoding, TLS
  loading and the conversion of decimals are arguments of the definitions that use them. What is assumed of them
  is a named hypothesis (\<open>fst_lib_ok\<close>: a set file opens to the keys it was built from; \<open>honest\<close>: nft loads a
  script as one transaction).

  \<^bold>\<open>Not modelled.\<close> File modes and zeroization of secrets, logging, argument parsing (clap), the extractors of axum
  and the socket libraries below a whole message, the broadcast channel of tokio (a subscriber's loop is
  given what it receives), serving of static files, the browser client, the shell scripts, the unit files.
  Above the session layer (\<open>AppState\<close>, the API) handlers stay one step each: that the waiting between a handler's
  authentication and the lifecycle lock changes nothing is shown for the context only, which is validated again
  under the lock.
\<close>

end
